(* ===== verification/Relay_Prelude.thy ===== *)
theory Relay_Prelude
  imports Main "HOL-Library.Word"
begin

text \<open>
  Shared vocabulary of the development: machine integers and byte strings, the outcome of a
  Rust function (\<open>Ok\<close>, \<open>Err\<close> or a panic), slice and index expressions with their panics,
  overflow-checked arithmetic, big-endian integer encodings, and the generic facts on lists and
  words the components use. The collection \<open>relay_defs\<close> holds definitions that
  the component proofs unfold.
\<close>

unbundle bit_operations_syntax

named_theorems relay_defs \<open>definitions that component proofs unfold\<close>

section \<open>Types\<close>

type_synonym u8 = "8 word"
type_synonym u16 = "16 word"
type_synonym u32 = "32 word"
type_synonym u64 = "64 word"
type_synonym bytes = "8 word list"

text \<open>
  The outcome of a Rust function of type \<^verbatim>\<open>Result<T, E>\<close>; \<open>Panic\<close> is a panic (an index
  out of range, an \<^verbatim>\<open>unwrap\<close> of an error, a checked arithmetic overflow). A function that
  returns no \<^verbatim>\<open>Result\<close> but may panic uses the same type.
\<close>

datatype ('a, 'e) result = Ok 'a | Err 'e | Panic

fun rbind :: "('a, 'e) result \<Rightarrow> ('a \<Rightarrow> ('b, 'e) result) \<Rightarrow> ('b, 'e) result" where
  "rbind (Ok x) f = f x"
| "rbind (Err e) f = Err e"
| "rbind Panic f = Panic"

fun map_err :: "('e \<Rightarrow> 'f) \<Rightarrow> ('a, 'e) result \<Rightarrow> ('a, 'f) result" where
  "map_err f (Ok x) = Ok x"
| "map_err f (Err e) = Err (f e)"
| "map_err f Panic = Panic"

text \<open>\<open>unwrap\<close>: an error becomes a panic.\<close>

fun unwrap :: "('a, 'e) result \<Rightarrow> ('a, 'f) result" where
  "unwrap (Ok x) = Ok x"
| "unwrap (Err e) = Panic"
| "unwrap Panic = Panic"

fun is_ok :: "('a, 'e) result \<Rightarrow> bool" where
  "is_ok (Ok x) = True"
| "is_ok (Err e) = False"
| "is_ok Panic = False"

definition ok_or :: "'e \<Rightarrow> 'a option \<Rightarrow> ('a, 'e) result" where
  "ok_or e v = (case v of None \<Rightarrow> Err e | Some x \<Rightarrow> Ok x)"

lemma rbind_assoc: "rbind (rbind m f) g = rbind m (\<lambda>x. rbind (f x) g)"
  by (cases m) auto

lemma rbind_eq_Ok_iff: "rbind m f = Ok y \<longleftrightarrow> (\<exists>x. m = Ok x \<and> f x = Ok y)"
  by (cases m) auto

lemma rbind_eq_Panic_iff: "rbind m f = Panic \<longleftrightarrow> m = Panic \<or> (\<exists>x. m = Ok x \<and> f x = Panic)"
  by (cases m) auto

lemma rbind_eq_Err_iff: "rbind m f = Err e \<longleftrightarrow> m = Err e \<or> (\<exists>x. m = Ok x \<and> f x = Err e)"
  by (cases m) auto

lemma ok_or_simps [simp]: "ok_or e None = Err e" "ok_or e (Some x) = Ok x"
  by (simp_all add: ok_or_def)

lemma ok_or_neq_Panic [simp]: "ok_or e v \<noteq> Panic"
  by (cases v) auto

lemma ok_or_eq_Ok_iff [simp]: "ok_or e v = Ok x \<longleftrightarrow> v = Some x"
  by (cases v) auto

text \<open>\<^verbatim>\<open>collect::<Result<Vec<_>, _>>()\<close>: the first error stops the iteration.\<close>

fun collect_results :: "('a \<Rightarrow> ('b, 'e) result) \<Rightarrow> 'a list \<Rightarrow> ('b list, 'e) result" where
  "collect_results f [] = Ok []"
| "collect_results f (x # xs) =
     rbind (f x) (\<lambda>y. rbind (collect_results f xs) (\<lambda>ys. Ok (y # ys)))"

lemma collect_results_Ok_iff:
  "collect_results f xs = Ok ys \<longleftrightarrow> list_all2 (\<lambda>x y. f x = Ok y) xs ys"
  by (induction xs arbitrary: ys) (auto simp: rbind_eq_Ok_iff list_all2_Cons1)

lemma collect_results_no_panic:
  "(\<And>x. x \<in> set xs \<Longrightarrow> f x \<noteq> Panic) \<Longrightarrow> collect_results f xs \<noteq> Panic"
  by (induction xs) (auto simp: rbind_eq_Panic_iff)

section \<open>Slices and indices\<close>

definition idx :: "'a list \<Rightarrow> nat \<Rightarrow> ('a, 'e) result" where
  "idx xs i = (if i < length xs then Ok (xs ! i) else Panic)"

definition idx_set :: "'a list \<Rightarrow> nat \<Rightarrow> 'a \<Rightarrow> ('a list, 'e) result" where
  "idx_set xs i v = (if i < length xs then Ok (xs[i := v]) else Panic)"

text \<open>\<^verbatim>\<open>&xs[i..j]\<close>, \<^verbatim>\<open>&xs[i..]\<close>, and \<^verbatim>\<open>split_to(n)\<close> / \<^verbatim>\<open>advance(n)\<close> of a byte buffer.\<close>

definition slice :: "'a list \<Rightarrow> nat \<Rightarrow> nat \<Rightarrow> ('a list, 'e) result" where
  "slice xs i j = (if i \<le> j \<and> j \<le> length xs then Ok (take (j - i) (drop i xs)) else Panic)"

definition slice_from :: "'a list \<Rightarrow> nat \<Rightarrow> ('a list, 'e) result" where
  "slice_from xs i = (if i \<le> length xs then Ok (drop i xs) else Panic)"

definition split_to :: "nat \<Rightarrow> 'a list \<Rightarrow> ('a list \<times> 'a list, 'e) result" where
  "split_to n xs = (if n \<le> length xs then Ok (take n xs, drop n xs) else Panic)"

definition advance :: "nat \<Rightarrow> 'a list \<Rightarrow> ('a list, 'e) result" where
  "advance n xs = (if n \<le> length xs then Ok (drop n xs) else Panic)"

lemmas slice_defs = idx_def idx_set_def slice_def slice_from_def split_to_def advance_def

lemma split_to_append [simp]: "length xs = n \<Longrightarrow> split_to n (xs @ ys) = Ok (xs, ys)"
  by (auto simp: split_to_def)

section \<open>Checked arithmetic\<close>

text \<open>Rust's \<open>+\<close> and \<open>-\<close> on unsigned integers, with the overflow check that panics.\<close>

definition checked_add :: "'a::len word \<Rightarrow> 'a word \<Rightarrow> 'a word option" where
  "checked_add a b = (if unat a + unat b < 2 ^ LENGTH('a) then Some (a + b) else None)"

definition add_panic :: "'a::len word \<Rightarrow> 'a word \<Rightarrow> ('a word, 'e) result" where
  "add_panic a b = (if unat a + unat b < 2 ^ LENGTH('a) then Ok (a + b) else Panic)"

definition sub_panic :: "'a::len word \<Rightarrow> 'a word \<Rightarrow> ('a word, 'e) result" where
  "sub_panic a b = (if b \<le> a then Ok (a - b) else Panic)"

definition saturating_sub :: "'a::len word \<Rightarrow> 'a word \<Rightarrow> 'a word" where
  "saturating_sub a b = (if b \<le> a then a - b else 0)"

lemma unat_saturating_sub: "unat (saturating_sub a b) = unat a - unat b"
  by (auto simp: saturating_sub_def unat_sub word_le_nat_alt)

lemma checked_add_Some_unat: "checked_add a b = Some c \<Longrightarrow> unat c = unat a + unat b"
  by (auto simp: checked_add_def unat_word_ariths split: if_splits)

section \<open>Word facts\<close>

lemma sub_panic_unat:
  "unat b \<le> unat a \<Longrightarrow> \<exists>c. (sub_panic a b :: ('a::len word, 'e) result) = Ok c \<and> unat c = unat a - unat b"
  by (simp add: sub_panic_def word_le_nat_alt unat_sub)

lemma add_panic_unat:
  "unat a + unat (b :: 'a::len word) < 2 ^ LENGTH('a) \<Longrightarrow>
   \<exists>c. (add_panic a b :: ('a word, 'e) result) = Ok c \<and> unat c = unat a + unat b"
  by (simp add: add_panic_def unat_word_ariths)

lemma unat_u8_lt: "unat (b :: u8) < 256"
  using unsigned_less [of b] by simp

lemma unat_u16_lt: "unat (w :: u16) < 65536"
  by (rule order_less_le_trans [OF unsigned_less]) simp

lemma unat_u32_lt: "unat (w :: u32) < 4294967296"
  by (rule order_less_le_trans [OF unsigned_less]) simp

lemma ucast_u8_u32 [simp]: "unat (ucast (b :: u8) :: u32) = unat b"
  using unat_u8_lt [of b] by (simp add: unsigned_ucast_eq take_bit_nat_eq_self_iff)

lemma unat_push_bit_u8:
  assumes "unat b * 2 ^ k < 2 ^ 32"
  shows "unat (push_bit k (ucast (b :: u8) :: u32)) = unat b * 2 ^ k"
  using assms
  by (simp add: unsigned_push_bit_eq take_bit_nat_eq_self push_bit_nat_def)

lemma byte_lt_0x80: "(b :: u8) < 0x80 \<longleftrightarrow> unat b < 128"
  by (simp add: word_less_nat_alt)

lemma unat_of_nat_u8: "n < 256 \<Longrightarrow> unat (of_nat n :: u8) = n"
  by (simp add: unsigned_of_nat take_bit_nat_eq_self)

section \<open>Big-endian integers\<close>

definition u16_to_be :: "u16 \<Rightarrow> bytes" where
  "u16_to_be w = [ucast (drop_bit 8 w), ucast w]"

definition u32_to_be :: "u32 \<Rightarrow> bytes" where
  "u32_to_be w = [ucast (drop_bit 24 w), ucast (drop_bit 16 w), ucast (drop_bit 8 w), ucast w]"

definition u64_to_be :: "u64 \<Rightarrow> bytes" where
  "u64_to_be w = [ucast (drop_bit 56 w), ucast (drop_bit 48 w), ucast (drop_bit 40 w),
     ucast (drop_bit 32 w), ucast (drop_bit 24 w), ucast (drop_bit 16 w),
     ucast (drop_bit 8 w), ucast w]"

text \<open>\<^verbatim>\<open>from_be_bytes\<close> reads an array of the exact size; on other lists the value is fixed here
  and never used: every caller has checked the length.\<close>

definition from_be :: "bytes \<Rightarrow> 'a::len word" where
  "from_be bs = fold (\<lambda>b acc. push_bit 8 acc OR ucast b) bs 0"

lemma length_u16_to_be [simp]: "length (u16_to_be w) = 2"
  by (simp add: u16_to_be_def)

lemma length_u32_to_be [simp]: "length (u32_to_be w) = 4"
  by (simp add: u32_to_be_def)

lemma length_u64_to_be [simp]: "length (u64_to_be w) = 8"
  by (simp add: u64_to_be_def)

lemma be_step:
  "push_bit 8 (drop_bit (k + 8) w) OR ucast (ucast (drop_bit k w) :: u8) = drop_bit k (w :: 'a::len word)"
  by (rule bit_word_eqI) (auto simp: bit_simps)

lemma be_first:
  "LENGTH('a) = k + 8 \<Longrightarrow> ucast (ucast (drop_bit k w) :: u8) = drop_bit k (w :: 'a::len word)"
  by (rule bit_word_eqI) (auto simp: bit_simps dest: bit_imp_le_length)

lemma from_be_u16 [simp]: "(from_be (u16_to_be w) :: u16) = w"
  using be_step [of 0 w] be_first [of 8 w] by (simp add: from_be_def u16_to_be_def)

lemma from_be_u32 [simp]: "(from_be (u32_to_be w) :: u32) = w"
  using be_step [of 0 w] be_step [of 8 w] be_step [of 16 w] be_first [of 24 w]
  by (simp add: from_be_def u32_to_be_def)

lemma from_be_u64 [simp]: "(from_be (u64_to_be w) :: u64) = w"
  using be_step [of 0 w] be_step [of 8 w] be_step [of 16 w] be_step [of 24 w]
    be_step [of 32 w] be_step [of 40 w] be_step [of 48 w] be_first [of 56 w]
  by (simp add: from_be_def u64_to_be_def)

section \<open>Lists\<close>

lemma take_drop_append_exact:
  "length xs = n \<Longrightarrow> take n (xs @ ys) = xs" "length xs = n \<Longrightarrow> drop n (xs @ ys) = ys"
  by auto

lemma set_butlast_subset: "set (butlast xs) \<subseteq> set xs"
  by (meson in_set_butlastD subsetI)

lemma list_update_same_length [simp]: "length (xs[i := v]) = length xs"
  by simp

text \<open>A buffer against the first message of the stream it comes from.\<close>

lemma prefix_split:
  assumes "buf @ src = pre @ body"
  obtains (short) r where "pre = buf @ r" "r \<noteq> []" "src = r @ body"
  | (full) r where "buf = pre @ r" "r @ src = body"
proof -
  from assms consider us where "buf = pre @ us" "us @ src = body"
    | us where "buf @ us = pre" "src = us @ body"
    by (auto simp: append_eq_append_conv2)
  then show thesis
  proof cases
    case 1
    then show thesis by (rule full)
  next
    case (2 us)
    then show thesis using short [of us] full [of "[]"] by (cases "us = []") auto
  qed
qed

end
