(* ===== verification/Payload.thy ===== *)
theory Payload
  imports Relay_Prelude
begin

text \<open>
  The byte container of the relay, \<^verbatim>\<open>crates/util/src/payload.rs\<close>: one enum over an owned mutable
  buffer, a vector and a shared immutable buffer. A buffer is the list of its bytes; the two arms
  of \<^verbatim>\<open>try_into_mut().unwrap_or_else(copy)\<close> hold the same bytes, so sharing of storage is not
  observable here. The arms the code marks \<^verbatim>\<open>unreachable!()\<close> are \<^const>\<open>Panic\<close> and are shown
  never to be taken.
\<close>

datatype payload = PBytesMut bytes | PVec bytes | PBytes bytes

fun payload_as_ref :: "payload \<Rightarrow> bytes" where
  "payload_as_ref (PBytesMut b) = b"
| "payload_as_ref (PVec b) = b"
| "payload_as_ref (PBytes b) = b"

fun payload_len :: "payload \<Rightarrow> nat" where
  "payload_len (PBytesMut b) = length b"
| "payload_len (PVec b) = length b"
| "payload_len (PBytes b) = length b"

fun payload_is_empty :: "payload \<Rightarrow> bool" where
  "payload_is_empty (PBytesMut b) = (b = [])"
| "payload_is_empty (PVec b) = (b = [])"
| "payload_is_empty (PBytes b) = (b = [])"

fun make_mutable :: "payload \<Rightarrow> payload" where
  "make_mutable (PBytes b) = PBytesMut b"
| "make_mutable p = p"

text \<open>Reserving capacity leaves the contents alone; capacity is not part of the model.\<close>

definition payload_reserve :: "payload \<Rightarrow> nat \<Rightarrow> (payload, unit) result" where
  "payload_reserve p additional =
     (case make_mutable p of
        PBytesMut b \<Rightarrow> Ok (PBytesMut b)
      | PVec b \<Rightarrow> Ok (PVec b)
      | PBytes b \<Rightarrow> Panic)"

fun payload_extend :: "payload \<Rightarrow> bytes \<Rightarrow> payload" where
  "payload_extend (PBytesMut b) bytes = PBytesMut (b @ bytes)"
| "payload_extend (PVec v) bytes = PVec (v @ bytes)"
| "payload_extend (PBytes b) bytes = PBytesMut (b @ bytes)"

text \<open>
  The in-place shift of \<open>prepend\<close>: \<open>prepend_loop k\<close> runs the loop body for the indices
  \<open>k - 1, \<dots>, 0\<close>; each read and write is bounds-checked.
\<close>

primrec prepend_loop :: "nat \<Rightarrow> bytes \<Rightarrow> bytes \<Rightarrow> (bytes, unit) result" where
  "prepend_loop 0 with_bytes b = Ok b"
| "prepend_loop (Suc i) with_bytes b =
     rbind (if i \<ge> length with_bytes then idx b (i - length with_bytes) else idx with_bytes i)
       (\<lambda>v. rbind (idx_set b i v) (\<lambda>b'. prepend_loop i with_bytes b'))"

definition payload_prepend :: "payload \<Rightarrow> bytes \<Rightarrow> (payload, unit) result" where
  "payload_prepend p with_bytes =
     (if with_bytes = [] then Ok p
      else case make_mutable p of
        PBytesMut b \<Rightarrow>
          (if b = [] then Ok (PBytesMut (b @ with_bytes))
           else let b' = b @ replicate (length with_bytes) 0 in
             rbind (prepend_loop (length b') with_bytes b') (\<lambda>b''. Ok (PBytesMut b'')))
      | PVec b \<Rightarrow> Ok (PVec (with_bytes @ b))
      | PBytes b \<Rightarrow> Panic)"

fun payload_into_vec :: "payload \<Rightarrow> bytes" where
  "payload_into_vec (PBytesMut b) = b"
| "payload_into_vec (PVec b) = b"
| "payload_into_vec (PBytes b) = b"

fun payload_into_bytes :: "payload \<Rightarrow> bytes" where
  "payload_into_bytes (PBytesMut b) = b"
| "payload_into_bytes (PVec b) = b"
| "payload_into_bytes (PBytes b) = b"

definition payload_default :: payload where
  "payload_default = PVec []"

definition payload_from_box :: "bytes \<Rightarrow> payload" where
  "payload_from_box b = PVec b"

text \<open>\<open>as_mut\<close>: the container the slice borrows from, and the slice.\<close>

definition payload_as_mut :: "payload \<Rightarrow> (payload \<times> bytes, unit) result" where
  "payload_as_mut p =
     (case make_mutable p of
        PBytesMut b \<Rightarrow> Ok (PBytesMut b, b)
      | PVec b \<Rightarrow> Ok (PVec b, b)
      | PBytes b \<Rightarrow> Panic)"

definition payload_from_iter :: "bytes \<Rightarrow> payload" where
  "payload_from_iter xs = PVec xs"

definition payload_eq :: "payload \<Rightarrow> payload \<Rightarrow> bool" where
  "payload_eq p q = (payload_as_ref p = payload_as_ref q)"

datatype into_iter = IterBytesMut bytes | IterVec bytes | IterBytes bytes

fun payload_into_iter :: "payload \<Rightarrow> into_iter" where
  "payload_into_iter (PBytesMut b) = IterBytesMut b"
| "payload_into_iter (PVec v) = IterVec v"
| "payload_into_iter (PBytes b) = IterBytes b"

fun iter_next :: "into_iter \<Rightarrow> u8 option \<times> into_iter" where
  "iter_next (IterBytesMut []) = (None, IterBytesMut [])"
| "iter_next (IterBytesMut (b # bs)) = (Some b, IterBytesMut bs)"
| "iter_next (IterVec []) = (None, IterVec [])"
| "iter_next (IterVec (b # bs)) = (Some b, IterVec bs)"
| "iter_next (IterBytes []) = (None, IterBytes [])"
| "iter_next (IterBytes (b # bs)) = (Some b, IterBytes bs)"

section \<open>Facts\<close>

lemma payload_len_as_ref [simp]: "payload_len p = length (payload_as_ref p)"
  by (cases p) auto

lemma payload_is_empty_as_ref [simp]: "payload_is_empty p \<longleftrightarrow> payload_as_ref p = []"
  by (cases p) auto

lemma make_mutable_as_ref [simp]: "payload_as_ref (make_mutable p) = payload_as_ref p"
  by (cases p) auto

lemma make_mutable_not_PBytes [simp]: "make_mutable p \<noteq> PBytes b"
  by (cases p) auto

lemma payload_into_vec_as_ref [simp]: "payload_into_vec p = payload_as_ref p"
  by (cases p) auto

lemma payload_into_bytes_as_ref [simp]: "payload_into_bytes p = payload_as_ref p"
  by (cases p) auto

lemma payload_extend_as_ref [simp]: "payload_as_ref (payload_extend p bs) = payload_as_ref p @ bs"
  by (cases p) auto

lemma payload_reserve_ok: "\<exists>q. payload_reserve p n = Ok q \<and> payload_as_ref q = payload_as_ref p"
  by (cases p) (auto simp: payload_reserve_def)

lemma payload_as_mut_ok:
  "\<exists>q. payload_as_mut p = Ok (q, payload_as_ref p) \<and> payload_as_ref q = payload_as_ref p"
  by (cases p) (auto simp: payload_as_mut_def)

text \<open>
  The loop invariant of \<open>prepend\<close>: when the indices below \<open>k\<close> are still to be written, the
  buffer holds the old contents up to \<open>k\<close> and the shifted contents from \<open>k\<close> on.
\<close>

lemma prepend_loop_inv:
  assumes "k \<le> length b" "length target = length b"
    and "drop k b = drop k target"
    and "\<And>i. i < k \<Longrightarrow> target ! i = (if i \<ge> length w then b ! (i - length w) else w ! i)"
    and "w \<noteq> []"
  shows "prepend_loop k w b = Ok target"
  using assms
proof (induction k arbitrary: b)
  case 0
  then show ?case by simp
next
  case (Suc i)
  let ?b = "b[i := target ! i]"
  have step: "prepend_loop (Suc i) w b = prepend_loop i w ?b"
    using Suc.prems(1) Suc.prems(4) [of i] by (auto simp: slice_defs)
  have "drop i ?b = drop i target"
    using Suc.prems(1-3) by (simp add: Cons_nth_drop_Suc [symmetric])
  moreover have "target ! j = (if j \<ge> length w then ?b ! (j - length w) else w ! j)" if "j < i" for j
    using Suc.prems(4) [of j] Suc.prems(5) that by auto
  ultimately have "prepend_loop i w ?b = Ok target"
    using Suc.prems by (intro Suc.IH) auto
  with step show ?case by simp
qed

lemma prepend_loop_shift:
  assumes "w \<noteq> []"
  shows "prepend_loop (length b + length w) w (b @ replicate (length w) 0) = Ok (w @ b)"
  using assms by (intro prepend_loop_inv) (auto simp: nth_append)

lemma payload_prepend_ok:
  "\<exists>q. payload_prepend p w = Ok q \<and> payload_as_ref q = w @ payload_as_ref p"
  by (cases p) (auto simp: payload_prepend_def Let_def prepend_loop_shift)

text \<open>Iterating to the end yields the bytes in order.\<close>

fun iter_rest :: "into_iter \<Rightarrow> bytes" where
  "iter_rest (IterBytesMut b) = b"
| "iter_rest (IterVec b) = b"
| "iter_rest (IterBytes b) = b"

lemma iter_next_rest:
  "iter_next it = (case iter_rest it of [] \<Rightarrow> (None, it) | b # bs \<Rightarrow> (Some b, snd (iter_next it)))"
  "iter_rest (snd (iter_next it)) = tl (iter_rest it)"
  by (induction it rule: iter_next.induct) auto

lemma iter_rest_into_iter [simp]: "iter_rest (payload_into_iter p) = payload_as_ref p"
  by (cases p) auto

text \<open>
  Interface: a growable byte container with a view of its contents, as the codecs use it.
\<close>

locale byte_buffer =
  fixes view :: "'b \<Rightarrow> bytes"
    and extend :: "'b \<Rightarrow> bytes \<Rightarrow> 'b"
    and prepend :: "'b \<Rightarrow> bytes \<Rightarrow> ('b, unit) result"
  assumes view_extend: "view (extend p bs) = view p @ bs"
    and view_prepend: "\<exists>q. prepend p bs = Ok q \<and> view q = bs @ view p"
begin

lemma prepend_no_panic: "prepend p bs \<noteq> Panic"
  using view_prepend [of p bs] by auto

text \<open>A header put in front and a trailer put behind commute.\<close>

lemma frame_commute:
  "\<exists>q r. prepend (extend p t) h = Ok q \<and> prepend p h = Ok r \<and> view q = view (extend r t)"
  using view_prepend [of "extend p t" h] view_prepend [of p h] by (auto simp: view_extend)

end

interpretation pb: byte_buffer payload_as_ref payload_extend payload_prepend
  by unfold_locales (simp_all add: payload_prepend_ok)

section \<open>Properties\<close>

text \<open>
  prepending never panics on any variant and any header: the in-place shifting loop of the
  mutable buffer computes the concatenation of the header and the old contents, as the splice of
  the vector variant does.
\<close>

theorem prepend_is_append:
  "\<exists>q. payload_prepend p h = Ok q \<and> payload_as_ref q = h @ payload_as_ref p"
  by (rule pb.view_prepend)

end
