(* ===== verification/Proto.thy ===== *)
theory Proto
  imports Payload
begin

text \<open>
  The wire messages: the protobuf messages of \<^verbatim>\<open>crates/proto/protobuf/ya_relay.proto\<close>, the custom
  \<open>Forward\<close> frame and the packet constructors of \<^verbatim>\<open>crates/proto/src/proto.rs\<close>, and the codec
  errors of \<^verbatim>\<open>crates/proto/src/codec/error.rs\<close>. The protobuf runtime (\<^verbatim>\<open>prost\<close>) is not part of
  the repository: it is the record argument \<open>prost\<close>, and what the code relies on is stated by
  \<open>prost_keys_ok\<close>, \<open>prost_varint_ok\<close> and \<open>prost_packet_ok\<close>.
\<close>

section \<open>Protobuf messages\<close>

text \<open>Enum-typed protobuf fields are \<^verbatim>\<open>i32\<close> in the generated code and \<^typ>\<open>int\<close> here.\<close>

type_synonym slot_id = u32
type_synonym request_id = u64

definition STATUS_OK :: int where "STATUS_OK = 200"
definition STATUS_BAD_REQUEST :: int where "STATUS_BAD_REQUEST = 400"
definition STATUS_UNAUTHORIZED :: int where "STATUS_UNAUTHORIZED = 401"
definition STATUS_NOT_FOUND :: int where "STATUS_NOT_FOUND = 404"
definition STATUS_TIMEOUT :: int where "STATUS_TIMEOUT = 408"
definition STATUS_CONFLICT :: int where "STATUS_CONFLICT = 409"
definition STATUS_SERVER_ERROR :: int where "STATUS_SERVER_ERROR = 500"

lemmas status_defs = STATUS_OK_def STATUS_BAD_REQUEST_def STATUS_UNAUTHORIZED_def
  STATUS_NOT_FOUND_def STATUS_TIMEOUT_def STATUS_CONFLICT_def STATUS_SERVER_ERROR_def

definition PROTOCOL_UNSUPPORTED :: int where "PROTOCOL_UNSUPPORTED = 0"
definition PROTOCOL_TCP :: int where "PROTOCOL_TCP = 6"
definition PROTOCOL_UDP :: int where "PROTOCOL_UDP = 17"

lemmas protocol_defs = PROTOCOL_UNSUPPORTED_def PROTOCOL_TCP_def PROTOCOL_UDP_def

definition CHALLENGE_UNDEFINED :: int where "CHALLENGE_UNDEFINED = 0"
definition CHALLENGE_SHA3_512_LEADING_ZEROS :: int where "CHALLENGE_SHA3_512_LEADING_ZEROS = 10"

record identity_msg =
  im_public_key :: bytes
  im_node_id :: bytes

record endpoint_msg =
  em_protocol :: int
  em_address :: string
  em_port :: u32

record challenge_request =
  cq_version :: string
  cq_caps :: u64
  cq_kind :: int
  cq_difficulty :: u64
  cq_challenge :: bytes

record challenge_response =
  cr_solution :: bytes
  cr_signatures :: "bytes list"
  cr_session_sign :: "bytes list"
  cr_session_pub_key :: bytes

record req_session =
  qs_challenge_req :: "challenge_request option"
  qs_challenge_resp :: "challenge_response option"
  qs_supported_encryptions :: "string list"
  qs_identities :: "identity_msg list"
  qs_client_version :: string

datatype request_kind =
    ReqSession req_session
  | ReqRegister "endpoint_msg list"
  | ReqNode bytes bool
  | ReqSlot u32 bool
  | ReqNeighbours u32 bool
  | ReqReverseConnection bytes
  | ReqPing

record request =
  rq_request_id :: request_id
  rq_kind :: "request_kind option"

record resp_session =
  rs_challenge_req :: "challenge_request option"
  rs_challenge_resp :: "challenge_response option"
  rs_supported_encryptions :: "string list"
  rs_identities :: "identity_msg list"

record resp_node =
  rn_identities :: "identity_msg list"
  rn_endpoints :: "endpoint_msg list"
  rn_seen_ts :: u64
  rn_slot :: u32
  rn_supported_encryptions :: "string list"
  rn_session_pub_key :: bytes
  rn_session_key_proof :: bytes
  rn_session_key_proofs :: "bytes list"

datatype response_kind =
    RespSession resp_session
  | RespRegister "endpoint_msg list"
  | RespNode resp_node
  | RespNeighbours "resp_node list"
  | RespReverseConnection
  | RespPong

record response =
  rp_request_id :: request_id
  rp_code :: int
  rp_kind :: "response_kind option"

datatype disconnected_by = BySlot u32 | ByNodeId bytes | BySessionId bytes

datatype control_kind =
    CtlReverseConnection bytes "endpoint_msg list"
  | CtlPauseForwarding u32
  | CtlResumeForwarding u32
  | CtlStopForwarding u32 int
  | CtlDisconnected "disconnected_by option"

datatype packet_body =
    KRequest request
  | KResponse response
  | KControl "control_kind option"

record packet =
  pk_session_id :: bytes
  pk_kind :: "packet_body option"

section \<open>Packet constructors\<close>

text \<open>\<^verbatim>\<open>Request::from\<close> draws the id from the global atomic counter, which is threaded here.\<close>

definition request_from :: "u64 \<Rightarrow> request_kind \<Rightarrow> request \<times> u64" where
  "request_from REQUEST_ID kind =
     (\<lparr> rq_request_id = REQUEST_ID, rq_kind = Some kind \<rparr>, REQUEST_ID + 1)"

definition packet_request :: "u64 \<Rightarrow> bytes \<Rightarrow> request_kind \<Rightarrow> packet \<times> u64" where
  "packet_request REQUEST_ID session_id kind =
     (let (r, n) = request_from REQUEST_ID kind in
      (\<lparr> pk_session_id = session_id, pk_kind = Some (KRequest r) \<rparr>, n))"

definition packet_response :: "request_id \<Rightarrow> bytes \<Rightarrow> int \<Rightarrow> response_kind \<Rightarrow> packet" where
  "packet_response request_id session_id code kind =
     \<lparr> pk_session_id = session_id,
       pk_kind = Some (KResponse
         \<lparr> rp_request_id = request_id, rp_code = code, rp_kind = Some kind \<rparr>) \<rparr>"

definition packet_error :: "request_id \<Rightarrow> bytes \<Rightarrow> int \<Rightarrow> packet" where
  "packet_error request_id session_id code =
     \<lparr> pk_session_id = session_id,
       pk_kind = Some (KResponse
         \<lparr> rp_request_id = request_id, rp_code = code, rp_kind = Some RespPong \<rparr>) \<rparr>"

definition packet_control :: "bytes \<Rightarrow> control_kind \<Rightarrow> packet" where
  "packet_control session_id kind =
     \<lparr> pk_session_id = session_id, pk_kind = Some (KControl (Some kind)) \<rparr>"

section \<open>Codec errors\<close>

datatype encode_error = PacketTooLong nat | PacketNotSupported | NoData

datatype decode_error =
    PacketFormatInvalid
  | PacketTooShort
  | PrefixTooShort
  | PrefixTooLong
  | PrefixFormatInvalid
  | PayloadTooShort nat
  | PayloadTooLong nat
  | PayloadInvalid nat
  | DecForward nat bytes

datatype codec_error =
    ErrEncode encode_error
  | ErrDecode decode_error
  | ErrProtobufEncode
  | ErrProtobufDecode
  | ErrIo
  | ErrSend

section \<open>The protobuf runtime\<close>

datatype wire_type =
  Varint | SixtyFourBit | LengthDelimited | StartGroup | EndGroup | ThirtyTwoBit

fun wire_number :: "wire_type \<Rightarrow> nat" where
  "wire_number Varint = 0"
| "wire_number SixtyFourBit = 1"
| "wire_number LengthDelimited = 2"
| "wire_number StartGroup = 3"
| "wire_number EndGroup = 4"
| "wire_number ThirtyTwoBit = 5"

definition wire_of :: "nat \<Rightarrow> wire_type option" where
  "wire_of n = List.find (\<lambda>w. wire_number w = n)
     [Varint, SixtyFourBit, LengthDelimited, StartGroup, EndGroup, ThirtyTwoBit]"

record prost =
  encode_varint :: "u64 \<Rightarrow> bytes"
  encode_key :: "u32 \<Rightarrow> wire_type \<Rightarrow> bytes"
  decode_key :: "bytes \<Rightarrow> ((u32 \<times> wire_type) \<times> bytes) option"
  packet_encode :: "packet \<Rightarrow> bytes"
  packet_decode :: "bytes \<Rightarrow> packet option"

text \<open>The base-128 variable-length integers of the protobuf encoding.\<close>

fun leb128 :: "nat \<Rightarrow> bytes" where
  "leb128 n = (if n < 128 then [of_nat n] else of_nat (n mod 128 + 128) # leb128 (n div 128))"

declare leb128.simps [simp del]

definition prost_varint_ok :: "prost \<Rightarrow> bool" where
  "prost_varint_ok P \<longleftrightarrow> (\<forall>v. encode_varint P v = leb128 (unat v))"

text \<open>
  Field keys: a key is the varint of \<open>8 \<cdot> tag + wire type\<close>; a key that fits one byte is decoded
  by splitting it, and refused when the tag is 0 or the wire type is not one of the six.
\<close>

definition decode_short_key :: "u8 \<Rightarrow> bytes \<Rightarrow> ((u32 \<times> wire_type) \<times> bytes) option" where
  "decode_short_key b rest =
     (case wire_of (unat b mod 8) of
        None \<Rightarrow> None
      | Some w \<Rightarrow> if unat b div 8 = 0 then None else Some ((of_nat (unat b div 8), w), rest))"

definition prost_keys_ok :: "prost \<Rightarrow> bool" where
  "prost_keys_ok P \<longleftrightarrow>
     (\<forall>tag w. encode_key P tag w = leb128 (8 * unat tag + wire_number w)) \<and>
     (\<forall>b rest. b < 0x80 \<longrightarrow> decode_key P (b # rest) = decode_short_key b rest)"

text \<open>
  A packet survives its own encoding, and an encoding that is not empty starts with the key of one
  of the fields of \<open>Packet\<close>, whose tags are 2 to 5, all length-delimited.
\<close>

definition prost_packet_ok :: "prost \<Rightarrow> packet \<Rightarrow> bool" where
  "prost_packet_ok P pk \<longleftrightarrow>
     packet_decode P (packet_encode P pk) = Some pk \<and>
     (packet_encode P pk \<noteq> [] \<longrightarrow> hd (packet_encode P pk) \<in> {0x12, 0x1A, 0x22, 0x2A})"

section \<open>Forward frames\<close>

definition FORWARD_SLOT_ID :: u32 where "FORWARD_SLOT_ID = 0"
definition FORWARD_TAG :: u32 where "FORWARD_TAG = 1"
definition SESSION_ID_SIZE :: nat where "SESSION_ID_SIZE = 16"
definition KEY_SIZE :: nat where "KEY_SIZE = 1"
definition UNRELIABLE_FLAG :: u16 where "UNRELIABLE_FLAG = 1"
definition ENCRYPTED_FLAG :: u16 where "ENCRYPTED_FLAG = 2"
definition ENCRYPTION_SYNC_FLAG :: u16 where "ENCRYPTION_SYNC_FLAG = 4"

lemmas forward_consts [relay_defs] = FORWARD_SLOT_ID_def FORWARD_TAG_def SESSION_ID_SIZE_def
  KEY_SIZE_def UNRELIABLE_FLAG_def ENCRYPTED_FLAG_def ENCRYPTION_SYNC_FLAG_def

definition is_direct_message :: "slot_id \<Rightarrow> bool" where
  "is_direct_message slot = (slot = FORWARD_SLOT_ID)"

record forward =
  fw_session_id :: bytes
  fw_slot :: u32
  fw_flags :: u16
  fw_payload :: payload

text \<open>The session id is a 16-byte array in the code.\<close>

definition forward_wf :: "forward \<Rightarrow> bool" where
  "forward_wf f \<longleftrightarrow> length (fw_session_id f) = SESSION_ID_SIZE"

definition header_size :: nat where
  "header_size = KEY_SIZE + SESSION_ID_SIZE + 4 + 2"

definition forward_new :: "bytes \<Rightarrow> u32 \<Rightarrow> payload \<Rightarrow> forward" where
  "forward_new session_id slot payload =
     \<lparr> fw_session_id = session_id, fw_slot = slot, fw_flags = 0, fw_payload = payload \<rparr>"

definition forward_unreliable :: "bytes \<Rightarrow> u32 \<Rightarrow> payload \<Rightarrow> forward" where
  "forward_unreliable session_id slot payload =
     \<lparr> fw_session_id = session_id, fw_slot = slot, fw_flags = UNRELIABLE_FLAG,
       fw_payload = payload \<rparr>"

definition is_reliable :: "forward \<Rightarrow> bool" where
  "is_reliable f = (fw_flags f AND UNRELIABLE_FLAG \<noteq> UNRELIABLE_FLAG)"

definition is_encrypted :: "forward \<Rightarrow> bool" where
  "is_encrypted f = (fw_flags f AND ENCRYPTED_FLAG = ENCRYPTED_FLAG)"

definition set_encrypted :: "forward \<Rightarrow> forward" where
  "set_encrypted f = f \<lparr> fw_flags := fw_flags f OR ENCRYPTED_FLAG \<rparr>"

definition is_encryption_sync :: "forward \<Rightarrow> bool" where
  "is_encryption_sync f = (fw_flags f AND ENCRYPTION_SYNC_FLAG = ENCRYPTION_SYNC_FLAG)"

definition set_encryption_sync :: "forward \<Rightarrow> forward" where
  "set_encryption_sync f = f \<lparr> fw_flags := fw_flags f OR ENCRYPTION_SYNC_FLAG \<rparr>"

definition forward_encoded_len :: "forward \<Rightarrow> nat" where
  "forward_encoded_len f = header_size + payload_len (fw_payload f)"

text \<open>\<open>encode\<close> appends the frame to the buffer.\<close>

definition forward_encode :: "prost \<Rightarrow> forward \<Rightarrow> bytes \<Rightarrow> bytes" where
  "forward_encode P f buf =
     buf @ encode_key P FORWARD_TAG LengthDelimited
         @ fw_session_id f
         @ u32_to_be (fw_slot f)
         @ u16_to_be (fw_flags f)
         @ payload_as_ref (fw_payload f)"

definition forward_decode :: "prost \<Rightarrow> bytes \<Rightarrow> (forward, decode_error) result" where
  "forward_decode P buf =
     (if length buf < header_size then Err PacketTooShort
      else case decode_key P buf of
        None \<Rightarrow> Err PacketFormatInvalid
      | Some ((tag, _), buf) \<Rightarrow>
          if tag \<noteq> FORWARD_TAG then Err PacketFormatInvalid
          else
            rbind (split_to SESSION_ID_SIZE buf) (\<lambda>(session_id, buf).
            rbind (split_to 4 buf) (\<lambda>(slot, buf).
            rbind (split_to 2 buf) (\<lambda>(flags, buf).
              Ok \<lparr> fw_session_id = session_id, fw_slot = from_be slot, fw_flags = from_be flags,
                   fw_payload = PBytesMut buf \<rparr>))))"

text \<open>The derived equality of \<open>Forward\<close> compares payloads by content.\<close>

definition forward_eq :: "forward \<Rightarrow> forward \<Rightarrow> bool" where
  "forward_eq f g \<longleftrightarrow> fw_session_id f = fw_session_id g \<and> fw_slot f = fw_slot g \<and>
     fw_flags f = fw_flags g \<and> payload_eq (fw_payload f) (fw_payload g)"

section \<open>Facts on keys and varints\<close>

lemma leb128_small: "n < 128 \<Longrightarrow> leb128 n = [of_nat n]"
  by (subst leb128.simps) simp

lemma leb128_neq_Nil [simp]: "leb128 n \<noteq> []"
  by (subst leb128.simps) simp

lemma header_size_eq [simp]: "header_size = 23"
  by (simp add: header_size_def forward_consts)

lemma forward_key: "prost_keys_ok P \<Longrightarrow> encode_key P FORWARD_TAG LengthDelimited = [0x0A]"
  by (simp add: prost_keys_ok_def forward_consts leb128_small)

lemma wire_of_simps [simp]:
  "wire_of 0 = Some Varint" "wire_of (Suc 0) = Some SixtyFourBit" "wire_of 2 = Some LengthDelimited"
  "wire_of 3 = Some StartGroup" "wire_of 4 = Some EndGroup" "wire_of 5 = Some ThirtyTwoBit"
  "wire_of 6 = None" "wire_of 7 = None"
  by (simp_all add: wire_of_def)

lemma decode_forward_key:
  "prost_keys_ok P \<Longrightarrow> decode_key P (0x0A # rest) = Some ((FORWARD_TAG, LengthDelimited), rest)"
  by (simp add: prost_keys_ok_def decode_short_key_def FORWARD_TAG_def)

lemma forward_decode_encoded:
  assumes "prost_keys_ok P" "forward_wf f"
  shows "forward_decode P (forward_encode P f []) =
           Ok (f \<lparr> fw_payload := PBytesMut (payload_as_ref (fw_payload f)) \<rparr>)"
  using assms
  by (simp add: forward_decode_def forward_encode_def forward_key decode_forward_key
      forward_wf_def SESSION_ID_SIZE_def)

lemma length_forward_encode:
  assumes "prost_keys_ok P" "forward_wf f"
  shows "length (forward_encode P f buf) = length buf + forward_encoded_len f"
  using assms
  by (simp add: forward_encode_def forward_key forward_wf_def SESSION_ID_SIZE_def
      forward_encoded_len_def)

text \<open>
  A frame whose key is a single byte is decoded without a panic; a longer key leaves fewer than 22
  bytes for the fixed fields, and a \<open>split_to\<close> fails.
\<close>

lemma forward_decode_short_key_no_panic:
  assumes "prost_keys_ok P" "b < 0x80"
  shows "forward_decode P (b # buf) \<noteq> Panic"
  using assms
  by (auto simp: forward_decode_def prost_keys_ok_def decode_short_key_def split_to_def
      SESSION_ID_SIZE_def split: option.splits)

lemma forward_decode_wf:
  "forward_decode P buf = Ok f \<Longrightarrow> forward_wf f"
  by (auto simp: forward_decode_def forward_wf_def split_to_def rbind_eq_Ok_iff
      split: option.splits if_splits prod.splits)

section \<open>Instances for the witnesses\<close>

text \<open>A protobuf runtime restricted to one packet: its session id is two bytes long.\<close>

definition sample_packet :: packet where
  "sample_packet = \<lparr> pk_session_id = [1, 2], pk_kind = None \<rparr>"

definition sample_prost :: prost where
  "sample_prost =
     \<lparr> encode_varint = (\<lambda>v. leb128 (unat v)),
       encode_key = (\<lambda>tag w. leb128 (8 * unat tag + wire_number w)),
       decode_key = (\<lambda>bs. case bs of [] \<Rightarrow> None
         | b # rest \<Rightarrow> if b < 0x80 then decode_short_key b rest
             else (case rest of [] \<Rightarrow> None | c # rest' \<Rightarrow>
               if c < 0x80 \<and> b = 0x8A \<and> c = 0 then Some ((1, LengthDelimited), rest') else None)),
       packet_encode = (\<lambda>p. if p = sample_packet then [0x12, 2, 1, 2] else []),
       packet_decode = (\<lambda>bs. if bs = [0x12, 2, 1, 2] then Some sample_packet else None) \<rparr>"

definition sample_forward :: forward where
  "sample_forward = \<lparr> fw_session_id = replicate 16 7, fw_slot = 42, fw_flags = 1,
     fw_payload = PVec [9, 8, 7, 6] \<rparr>"

lemma sample_prost_ok [simp]:
  "prost_varint_ok sample_prost" "prost_keys_ok sample_prost" "prost_packet_ok sample_prost sample_packet"
  by (simp_all add: sample_prost_def prost_varint_ok_def prost_keys_ok_def prost_packet_ok_def)

lemma sample_forward_wf [simp]: "forward_wf sample_forward"
  by (simp add: sample_forward_def forward_wf_def SESSION_ID_SIZE_def)

section \<open>Properties\<close>

text \<open>
  C23: a forward frame is recovered from its encoding: the encoding is as long as \<open>encoded_len\<close>
  says, and decoding it yields a frame equal to the original (equality of payloads is by content).
\<close>

theorem forward_roundtrip:
  assumes "prost_keys_ok P" "forward_wf f"
  shows "length (forward_encode P f []) = forward_encoded_len f
    \<and> (\<exists>g. forward_decode P (forward_encode P f []) = Ok g \<and> forward_eq g f)"
  using forward_decode_encoded [OF assms] length_forward_encode [OF assms, of "[]"]
  by (simp add: forward_eq_def payload_eq_def)

theorem forward_roundtrip_witness:
  "length (forward_encode sample_prost sample_forward []) = forward_encoded_len sample_forward
    \<and> (\<exists>g. forward_decode sample_prost (forward_encode sample_prost sample_forward []) = Ok g
           \<and> forward_eq g sample_forward)"
  by (rule forward_roundtrip) simp_all

text \<open>
  the flag setters and readers agree: setting the encrypted or the synchronisation flag makes it
  readable, and leaves the reliability and the other flag as they were.
\<close>

theorem forward_flags:
  "is_encrypted (set_encrypted f) \<and> is_encryption_sync (set_encryption_sync f)
   \<and> is_encryption_sync (set_encrypted f) = is_encryption_sync f
   \<and> is_encrypted (set_encryption_sync f) = is_encrypted f
   \<and> is_reliable (set_encrypted f) = is_reliable f
   \<and> is_reliable (set_encryption_sync f) = is_reliable f
   \<and> is_reliable (forward_new s sl p) \<and> \<not> is_reliable (forward_unreliable s sl p)"
proof -
  have a: "(w OR a) AND b = w AND b" if "a AND b = 0" for w a b :: u16
    using that by (simp add: bit.conj_disj_distrib2)
  have b: "(w OR a) AND a = a" for w a :: u16
    by (simp add: bit.conj_disj_distrib2)
  show ?thesis
    by (simp add: is_encrypted_def set_encrypted_def is_encryption_sync_def set_encryption_sync_def
        is_reliable_def forward_new_def forward_unreliable_def forward_consts a b)
qed

text \<open>
  \<open>Forward::decode\<close> checks the length before it reads the key, so a key that takes two bytes
  leaves too few bytes for the fixed fields: for such a runtime a 23-byte frame makes it panic. A
  key of one byte never does.
\<close>

theorem forward_decode_long_key:
  assumes "prost_keys_ok P"
    and "decode_key P (0x8A # 0 # rest) = Some ((1, LengthDelimited), rest)" "length rest = 21"
  shows "forward_decode P (0x8A # 0 # rest) = Panic
    \<and> (\<forall>b buf. b < 0x80 \<longrightarrow> forward_decode P (b # buf) \<noteq> Panic)"
  using assms forward_decode_short_key_no_panic [OF assms(1)]
  by (simp add: forward_decode_def forward_consts split_to_def)

theorem forward_decode_long_key_witness:
  "forward_decode sample_prost (0x8A # 0 # replicate 21 0) = Panic
    \<and> forward_decode sample_prost (0x0A # [1]) \<noteq> Panic"
proof -
  have "forward_decode sample_prost (0x8A # 0 # replicate 21 0) = Panic
    \<and> (\<forall>b buf. b < 0x80 \<longrightarrow> forward_decode sample_prost (b # buf) \<noteq> Panic)"
    by (rule forward_decode_long_key) (simp_all add: sample_prost_def prost_keys_ok_def)
  then show ?thesis by simp
qed

end
