(* ===== verification/Codec.thy ===== *)
theory Codec
  imports Proto
begin

text \<open>
  The framing primitives of \<^verbatim>\<open>crates/proto/src/codec.rs\<close> and the datagram codec of
  \<^verbatim>\<open>crates/proto/src/codec/datagram.rs\<close>. A function that reads from a buffer returns its outcome
  together with the buffer it leaves, since several error paths consume input.
\<close>

definition MAX_PACKET_SIZE :: u32 where "MAX_PACKET_SIZE = 2097151"
definition MAX_PARSE_MESSAGE_SIZE :: nat where "MAX_PARSE_MESSAGE_SIZE = 600"

datatype packet_kind =
    PKPacket packet
  | PKForward forward
  | PKForwardCtd bytes

fun kind_request_id :: "packet_kind \<Rightarrow> u64 option" where
  "kind_request_id (PKPacket p) =
     (case pk_kind p of
        Some (KResponse r) \<Rightarrow> Some (rp_request_id r)
      | Some (KRequest r) \<Rightarrow> Some (rq_request_id r)
      | _ \<Rightarrow> None)"
| "kind_request_id _ = None"

fun kind_session_id :: "packet_kind \<Rightarrow> bytes" where
  "kind_session_id (PKPacket p) = pk_session_id p"
| "kind_session_id (PKForward f) = fw_session_id f"
| "kind_session_id (PKForwardCtd _) = []"

fun is_forward :: "packet_kind \<Rightarrow> bool" where
  "is_forward (PKPacket _) = False"
| "is_forward (PKForward _) = True"
| "is_forward (PKForwardCtd _) = True"

definition is_protocol_packet :: "packet_kind \<Rightarrow> bool" where
  "is_protocol_packet k = (\<not> is_forward k)"

section \<open>Length prefixes\<close>

definition peek_tag :: "bytes \<Rightarrow> (u32 option, decode_error) result" where
  "peek_tag buf =
     (case buf of
        [] \<Rightarrow> Ok None
      | tag # _ \<Rightarrow>
          if tag < 0x80 then Ok (Some (drop_bit 3 (ucast tag :: u32)))
          else Err PrefixTooLong)"

definition peek_size :: "bytes \<Rightarrow> (nat \<times> nat, decode_error) result" where
  "peek_size buf =
     rbind (if buf = [] then Err PrefixTooShort else Ok (buf ! 0)) (\<lambda>b0.
     let part0 = (ucast b0 :: u32) in
     if b0 < 0x80 then Ok (unat part0, 1)
     else
     rbind (sub_panic part0 0x80) (\<lambda>part0.
     rbind (if length buf \<le> 1 then Err PrefixTooShort else Ok (buf ! 1)) (\<lambda>b1.
     rbind (add_panic part0 (push_bit 7 (ucast b1))) (\<lambda>part0.
     if b1 < 0x80 then Ok (unat part0, 2)
     else
     rbind (sub_panic part0 (push_bit 7 0x80)) (\<lambda>part0.
     rbind (if length buf \<le> 2 then Err PrefixTooShort else Ok (buf ! 2)) (\<lambda>b2.
     rbind (add_panic part0 (push_bit 14 (ucast b2))) (\<lambda>part0.
     if b2 < 0x80 then Ok (unat part0, 3)
     else Err PrefixTooLong)))))))"

definition write_size :: "prost \<Rightarrow> u32 \<Rightarrow> bytes \<Rightarrow> (bytes, encode_error) result" where
  "write_size P sz buf =
     (if sz = 0 then Err NoData
      else if sz > MAX_PACKET_SIZE then Err (PacketTooLong (unat sz))
      else Ok (buf @ encode_varint P (ucast sz)))"

section \<open>Reading a frame\<close>

definition read_bytes_inner ::
    "bytes \<Rightarrow> nat \<Rightarrow> nat \<Rightarrow> nat \<Rightarrow> (bytes option, decode_error) result \<times> bytes" where
  "read_bytes_inner buf tot off lim =
     (case rbind (slice_from buf off) peek_tag of
        Panic \<Rightarrow> (Panic, buf)
      | Err e \<Rightarrow> (Err e, buf)
      | Ok tag \<Rightarrow>
          let available = min tot (length buf - off); left = tot - available in
          (case tag of
             None \<Rightarrow> (Ok None, buf)
           | Some kind \<Rightarrow>
               if kind = 0 then (Err (PayloadInvalid left), drop (off + available) buf)
               else if kind = 1 then
                 (if length buf \<ge> off + header_size then
                    (Err (DecForward left (take available (drop off buf))),
                     drop available (drop off buf))
                  else (Ok None, buf))
               else if tot > lim then (Err (PayloadTooLong left), drop (off + available) buf)
               else if length buf \<ge> off + tot then
                 (Ok (Some (take available (drop off buf))), drop available (drop off buf))
               else (Err (PayloadTooShort left), buf)))"

definition read_bytes :: "bytes \<Rightarrow> nat \<Rightarrow> (bytes option, decode_error) result \<times> bytes" where
  "read_bytes buf lim =
     (case peek_size buf of
        Panic \<Rightarrow> (Panic, buf)
      | Err e \<Rightarrow> (Err e, buf)
      | Ok (tot, off) \<Rightarrow> read_bytes_inner buf tot off lim)"

definition read_datagram :: "bytes \<Rightarrow> (bytes option, decode_error) result \<times> bytes" where
  "read_datagram buf = (let tot = length buf in read_bytes_inner buf tot 0 tot)"

section \<open>The datagram codec\<close>

definition datagram_encode :: "prost \<Rightarrow> packet_kind \<Rightarrow> bytes \<Rightarrow> (bytes, codec_error) result" where
  "datagram_encode P item dst =
     (case item of
        PKPacket pkt \<Rightarrow> Ok (dst @ packet_encode P pkt)
      | PKForward fwd \<Rightarrow> Ok (forward_encode P fwd dst)
      | PKForwardCtd _ \<Rightarrow> Err (ErrEncode PacketNotSupported))"

definition datagram_decode :: "prost \<Rightarrow> bytes \<Rightarrow> (packet_kind, codec_error) result \<times> bytes" where
  "datagram_decode P src =
     (case read_datagram src of
        (Ok (Some bs), rest) \<Rightarrow>
          ((case packet_decode P bs of
              Some pkt \<Rightarrow> Ok (PKPacket pkt)
            | None \<Rightarrow> Err ErrProtobufDecode), rest)
      | (Ok None, rest) \<Rightarrow> (Err (ErrDecode PacketFormatInvalid), rest)
      | (Err (DecForward left bs), rest) \<Rightarrow>
          ((if left = 0
            then rbind (map_err ErrDecode (forward_decode P bs)) (\<lambda>fwd. Ok (PKForward fwd))
            else Err (ErrDecode (PayloadTooShort left))), rest)
      | (Err err, rest) \<Rightarrow> (Err (ErrDecode err), rest)
      | (Panic, rest) \<Rightarrow> (Panic, rest))"

text \<open>Equality of packets as the code derives it: payloads compare by content.\<close>

fun kind_eq :: "packet_kind \<Rightarrow> packet_kind \<Rightarrow> bool" where
  "kind_eq (PKPacket p) (PKPacket q) = (p = q)"
| "kind_eq (PKForward f) (PKForward g) = forward_eq f g"
| "kind_eq (PKForwardCtd b) (PKForwardCtd c) = (b = c)"
| "kind_eq _ _ = False"

section \<open>Facts on length prefixes\<close>

lemma peek_size_Nil: "peek_size [] = Err PrefixTooShort"
  by (simp add: peek_size_def)

lemma peek_size_1: "unat b0 < 128 \<Longrightarrow> peek_size (b0 # r) = Ok (unat b0, 1)"
  by (simp add: peek_size_def byte_lt_0x80)

lemma peek_size_1_short: "128 \<le> unat b0 \<Longrightarrow> peek_size [b0] = Err PrefixTooShort"
  using sub_panic_unat [of "0x80" "ucast b0 :: u32", where 'e = decode_error]
  by (auto simp: peek_size_def byte_lt_0x80 Let_def)

lemma peek_size_tail:
  assumes "128 \<le> unat b0"
  shows "peek_size (b0 # b1 # r) =
    (if unat b1 < 128 then Ok (unat b0 - 128 + unat b1 * 128, 2)
     else case r of [] \<Rightarrow> Err PrefixTooShort
       | b2 # _ \<Rightarrow> if unat b2 < 128
           then Ok (unat b0 - 128 + (unat b1 - 128) * 128 + unat b2 * 16384, 3)
           else Err PrefixTooLong)"
proof -
  have b: "unat b0 < 256" "unat b1 < 256" by (rule unat_u8_lt)+
  obtain c0 where c0: "sub_panic (ucast b0 :: u32) 0x80 = (Ok c0 :: (u32, decode_error) result)"
      "unat c0 = unat b0 - 128"
    using sub_panic_unat [of "0x80" "ucast b0 :: u32", where 'e = decode_error] assms by auto
  have p1: "unat (push_bit 7 (ucast b1 :: u32)) = unat b1 * 128"
    using b unat_push_bit_u8 [of b1 7] by simp
  have "unat b0 - 128 + unat b1 * 128 < 4294967296" using b by linarith
  then obtain c1 where c1: "add_panic c0 (push_bit 7 (ucast b1)) = (Ok c1 :: (u32, decode_error) result)"
      "unat c1 = unat b0 - 128 + unat b1 * 128"
    using add_panic_unat [of c0 "push_bit 7 (ucast b1)", where 'e = decode_error] c0 p1 b by auto
  show ?thesis
  proof (cases "unat b1 < 128")
    case True
    then show ?thesis
      using assms c0 c1 by (simp add: peek_size_def byte_lt_0x80 Let_def)
  next
    case False
    obtain c2 where c2: "sub_panic c1 (push_bit 7 0x80) = (Ok c2 :: (u32, decode_error) result)"
        "unat c2 = unat b0 - 128 + (unat b1 - 128) * 128"
      using sub_panic_unat [of "push_bit 7 0x80" c1, where 'e = decode_error] c1 False by (auto simp: push_bit_eq_mult)
    show ?thesis
    proof (cases r)
      case Nil
      then show ?thesis
        using assms c0 c1 c2 False by (simp add: peek_size_def byte_lt_0x80 Let_def)
    next
      case (Cons b2 r')
      have b2: "unat b2 < 256" by (rule unat_u8_lt)
      have "unat (push_bit 14 (ucast b2 :: u32)) = unat b2 * 16384"
        using b2 unat_push_bit_u8 [of b2 14] by simp
      moreover have "unat b0 - 128 + (unat b1 - 128) * 128 + unat b2 * 16384 < 4294967296"
        using b b2 by linarith
      ultimately obtain c3 where
        "add_panic c2 (push_bit 14 (ucast b2)) = (Ok c3 :: (u32, decode_error) result)"
        "unat c3 = unat b0 - 128 + (unat b1 - 128) * 128 + unat b2 * 16384"
        using add_panic_unat [of c2 "push_bit 14 (ucast b2)", where 'e = decode_error] c2 b b2 by auto
      then show ?thesis
        using assms c0 c1 c2 False Cons by (simp add: peek_size_def byte_lt_0x80 Let_def)
    qed
  qed
qed
lemma leb128_2: "128 \<le> n \<Longrightarrow> n < 16384 \<Longrightarrow>
    leb128 n = [of_nat (n mod 128 + 128), of_nat (n div 128)]"
  by (subst leb128.simps) (simp add: leb128_small)

lemma leb128_3: "16384 \<le> n \<Longrightarrow> n < 2097152 \<Longrightarrow>
    leb128 n = [of_nat (n mod 128 + 128), of_nat (n div 128 mod 128 + 128), of_nat (n div 16384)]"
  using leb128_2 [of "n div 128"] by (subst leb128.simps) (simp add: div_mult2_eq [symmetric])

lemma leb128_cases:
  assumes "n < 2097152"
  obtains "n < 128" "leb128 n = [of_nat n]"
  | "128 \<le> n" "n < 16384" "leb128 n = [of_nat (n mod 128 + 128), of_nat (n div 128)]"
  | "16384 \<le> n" "leb128 n =
       [of_nat (n mod 128 + 128), of_nat (n div 128 mod 128 + 128), of_nat (n div 16384)]"
  using assms leb128_small leb128_2 leb128_3 by (meson not_le)

lemma varint_digits3: "(n :: nat) mod 128 + (n div 128 mod 128) * 128 + n div 16384 * 16384 = n"
proof -
  have "n div 16384 = n div 128 div 128" by (simp add: div_mult2_eq [symmetric])
  moreover have "n div 128 mod 128 + n div 128 div 128 * 128 = n div 128" by (rule mod_div_mult_eq)
  moreover have "n mod 128 + n div 128 * 128 = n" by (rule mod_div_mult_eq)
  ultimately show ?thesis by linarith
qed

lemma peek_size_leb128:
  assumes "n < 2097152"
  shows "peek_size (leb128 n @ r) = Ok (n, length (leb128 n))"
  using assms
proof (cases rule: leb128_cases)
  case 1
  then show ?thesis by (simp add: peek_size_1 unat_of_nat_u8)
next
  case 2
  then have "n div 128 < 128" by simp
  with 2 show ?thesis by (simp add: peek_size_tail unat_of_nat_u8 del: of_nat_add)
next
  case 3
  then have "n div 16384 < 128" using assms by simp
  with 3 show ?thesis by (simp add: peek_size_tail unat_of_nat_u8 varint_digits3 del: of_nat_add)
qed

lemma peek_size_leb128_short:
  assumes "n < 2097152" "k < length (leb128 n)"
  shows "peek_size (take k (leb128 n)) = Err PrefixTooShort"
  using assms(1)
proof (cases rule: leb128_cases)
  case 1
  then show ?thesis using assms(2) by (simp add: peek_size_Nil)
next
  case 2
  then have "k = 0 \<or> k = 1" using assms(2) by auto
  with 2 show ?thesis by (auto simp: peek_size_Nil peek_size_1_short unat_of_nat_u8 simp del: of_nat_add)
next
  case 3
  then have "k = 0 \<or> k = 1 \<or> k = 2" using assms(2) by auto
  with 3 show ?thesis
    by (auto simp: peek_size_Nil peek_size_1_short peek_size_tail unat_of_nat_u8 numeral_2_eq_2 simp del: of_nat_add)
qed

text \<open>The prefix reader: total, and what it accepts is bounded by the largest packet size.\<close>

lemma peek_size_no_panic: "peek_size buf \<noteq> Panic"
proof (cases buf)
  case (Cons b0 r)
  then show ?thesis
    by (cases r; cases "unat b0 < 128")
       (auto simp: peek_size_1 peek_size_1_short peek_size_tail split: list.split)
qed (simp add: peek_size_Nil)

lemma unat_MAX_PACKET_SIZE [simp]: "unat MAX_PACKET_SIZE = 2097151"
  by (simp add: MAX_PACKET_SIZE_def)

lemma peek_size_bounds:
  assumes "peek_size buf = Ok (n, off)"
  shows "n \<le> unat MAX_PACKET_SIZE \<and> 1 \<le> off \<and> off \<le> 3 \<and> off \<le> length buf"
proof (cases buf)
  case Nil
  then show ?thesis using assms by (simp add: peek_size_Nil)
next
  case (Cons b0 r)
  note bounds = unat_u8_lt [of b0]
  show ?thesis
  proof (cases "unat b0 < 128")
    case True
    then show ?thesis using assms Cons by (auto simp: peek_size_1)
  next
    case False
    then show ?thesis
      using assms Cons bounds unat_u8_lt [of "hd r"]
      by (cases r) (auto simp: peek_size_1_short peek_size_tail split: if_splits list.splits)
  qed
qed

section \<open>Facts on frames\<close>

lemma read_bytes_inner_no_panic: "off \<le> length buf \<Longrightarrow> fst (read_bytes_inner buf t off m) \<noteq> Panic"
  by (auto simp: read_bytes_inner_def slice_from_def peek_tag_def Let_def
      split: list.split option.split)

lemma read_bytes_no_panic: "fst (read_bytes buf m) \<noteq> Panic"
  using peek_size_no_panic [of buf] peek_size_bounds [of buf]
  by (auto simp: read_bytes_def read_bytes_inner_no_panic split: result.splits prod.splits)

lemma peek_tag_packet:
  "b \<in> {0x12, 0x1A, 0x22, 0x2A} \<Longrightarrow> \<exists>t. peek_tag (b # r) = Ok (Some t) \<and> t \<noteq> 0 \<and> t \<noteq> 1"
  by (auto simp: peek_tag_def)

lemma peek_tag_forward: "peek_tag (0x0A # r) = Ok (Some 1)"
  by (simp add: peek_tag_def)

text \<open>One frame: the size prefix followed by the body.\<close>

lemma read_bytes_frame:
  assumes "n < 2097152"
  shows "read_bytes (leb128 n @ r) m = read_bytes_inner (leb128 n @ r) n (length (leb128 n)) m"
  by (simp add: read_bytes_def peek_size_leb128 assms)

lemma read_bytes_partial_prefix:
  assumes "n < 2097152" "k < length (leb128 n)"
  shows "read_bytes (take k (leb128 n)) m = (Err PrefixTooShort, take k (leb128 n))"
  by (simp add: read_bytes_def peek_size_leb128_short assms)

lemma read_bytes_prefix_only:
  assumes "n < 2097152"
  shows "read_bytes (leb128 n) m = (Ok None, leb128 n)"
  using read_bytes_frame [OF assms, of "[]"]
  by (simp add: read_bytes_inner_def slice_from_def peek_tag_def Let_def)

lemma read_bytes_packet:
  assumes "n < 2097152" "n \<le> m" "b \<in> {0x12, 0x1A, 0x22, 0x2A}"
  shows "read_bytes (leb128 n @ b # r) m =
    (if n \<le> length (b # r) then (Ok (Some (take n (b # r))), drop n (b # r))
     else (Err (PayloadTooShort (n - length (b # r))), leb128 n @ b # r))"
proof -
  obtain t where "peek_tag (b # r) = Ok (Some t)" "t \<noteq> 0" "t \<noteq> 1"
    using peek_tag_packet [OF assms(3), of r] by blast
  then show ?thesis
    using assms(2) read_bytes_frame [OF assms(1)]
    by (auto simp: read_bytes_inner_def slice_from_def Let_def min_def)
qed

lemma read_bytes_forward:
  assumes "n < 2097152"
  shows "read_bytes (leb128 n @ 0x0A # r) m =
    (if header_size \<le> length (0x0A # r)
     then (Err (DecForward (n - length (0x0A # r)) (take n (0x0A # r))), drop n (0x0A # r))
     else (Ok None, leb128 n @ 0x0A # r))"
  using read_bytes_frame [OF assms]
  by (auto simp: read_bytes_inner_def slice_from_def peek_tag_forward Let_def min_def)

text \<open>Datagrams.\<close>

lemma datagram_decode_packet:
  assumes "prost_packet_ok P pkt" "packet_encode P pkt \<noteq> []"
  shows "datagram_decode P (packet_encode P pkt) = (Ok (PKPacket pkt), [])"
proof -
  obtain b r where e: "packet_encode P pkt = b # r" and b: "b \<in> {0x12, 0x1A, 0x22, 0x2A}"
    using assms by (cases "packet_encode P pkt") (auto simp: prost_packet_ok_def)
  obtain t where "peek_tag (b # r) = Ok (Some t)" "t \<noteq> 0" "t \<noteq> 1"
    using peek_tag_packet [OF b, of r] by blast
  then have "read_datagram (b # r) = (Ok (Some (b # r)), [])"
    by (simp add: read_datagram_def read_bytes_inner_def slice_from_def Let_def)
  then show ?thesis
    using assms by (simp add: e datagram_decode_def prost_packet_ok_def)
qed

lemma datagram_decode_forward:
  assumes "prost_keys_ok P" "forward_wf f"
  shows "datagram_decode P (forward_encode P f []) =
    (Ok (PKForward (f \<lparr> fw_payload := PBytesMut (payload_as_ref (fw_payload f)) \<rparr>)), [])"
proof -
  let ?e = "forward_encode P f []"
  obtain r where r: "?e = 0x0A # r"
    using assms by (simp add: forward_encode_def forward_key)
  have "length ?e \<ge> 23"
    using length_forward_encode [OF assms] by (simp add: forward_encoded_len_def)
  then have "read_datagram ?e = (Err (DecForward 0 ?e), [])"
    by (simp add: r read_datagram_def read_bytes_inner_def slice_from_def peek_tag_forward Let_def)
  then show ?thesis
    using assms by (simp add: datagram_decode_def forward_decode_encoded)
qed

text \<open>
  Any datagram is decoded without a panic: the peeked tag admits single-byte keys only, so the
  panicking branch of \<^const>\<open>forward_decode\<close> is out of reach.
\<close>

lemma datagram_forward_short_key:
  assumes "read_datagram src = (Err (DecForward left bs), rest)"
  shows "\<exists>b r. bs = b # r \<and> b < 0x80"
  using assms
  by (auto simp: read_datagram_def read_bytes_inner_def slice_from_def peek_tag_def Let_def
      split: list.splits if_splits option.splits)

lemma datagram_decode_total:
  assumes "prost_keys_ok P"
  shows "fst (datagram_decode P src) \<noteq> Panic"
proof -
  have np: "fst (read_datagram src) \<noteq> Panic"
    by (simp add: read_datagram_def Let_def read_bytes_inner_no_panic)
  show ?thesis
  proof (cases "read_datagram src")
    case (Pair res rest)
    show ?thesis
    proof (cases "\<exists>left bs. res = Err (DecForward left bs)")
      case True
      then obtain left bs where res: "res = Err (DecForward left bs)" by blast
      then obtain b r where "bs = b # r" "b < 0x80"
        using datagram_forward_short_key Pair by blast
      then have "forward_decode P bs \<noteq> Panic"
        using forward_decode_short_key_no_panic assms by blast
      then show ?thesis
        using Pair res by (cases "forward_decode P bs") (auto simp: datagram_decode_def)
    next
      case False
      then show ?thesis
        using np Pair
        by (auto simp: datagram_decode_def split: result.splits option.splits decode_error.splits)
    qed
  qed
qed

section \<open>Properties\<close>

text \<open>
  the length prefix that \<open>write_size\<close> writes for a size is read back by \<open>peek_size\<close>, with the
  number of bytes it takes, whatever follows it; sizes 0 and beyond the maximum are refused.
\<close>

theorem size_prefix_roundtrip:
  assumes "prost_varint_ok P"
  shows "case write_size P n [] of
      Ok pre \<Rightarrow> 0 < n \<and> n \<le> MAX_PACKET_SIZE \<and> peek_size (pre @ r) = Ok (unat n, length pre)
    | Err e \<Rightarrow> (n = 0 \<and> e = NoData) \<or> (n > MAX_PACKET_SIZE \<and> e = PacketTooLong (unat n))
    | Panic \<Rightarrow> False"
proof -
  have "unat n < 2 ^ 64"
    by (rule less_trans [OF unsigned_less]) simp
  then have "unat (ucast n :: u64) = unat n"
    by (simp add: unsigned_ucast_eq take_bit_nat_eq_self)
  then have v: "encode_varint P (ucast n) = leb128 (unat n)"
    using assms by (simp add: prost_varint_ok_def)
  show ?thesis
  proof (cases "n = 0 \<or> n > MAX_PACKET_SIZE")
    case True
    then show ?thesis by (auto simp: write_size_def)
  next
    case False
    then have "unat n < 2097152" by (simp add: word_less_nat_alt)
    with False v show ?thesis
      by (simp add: write_size_def peek_size_leb128 word_gt_0 not_less)
  qed
qed

theorem size_prefix_roundtrip_witness:
  "case write_size sample_prost 300 [] of
      Ok pre \<Rightarrow> 0 < (300 :: u32) \<and> 300 \<le> MAX_PACKET_SIZE \<and> peek_size (pre @ [5]) = Ok (unat (300 :: u32), length pre)
    | Err e \<Rightarrow> ((300 :: u32) = 0 \<and> e = NoData) \<or> (300 > MAX_PACKET_SIZE \<and> e = PacketTooLong (unat (300 :: u32)))
    | Panic \<Rightarrow> False"
  by (rule size_prefix_roundtrip) simp

text \<open>
  reading a length prefix is total and bounded: no arithmetic step of \<open>peek_size\<close> overflows on
  any buffer, and an accepted size is at most the maximal packet size with a prefix of one to three
  bytes that lie in the buffer.
\<close>

theorem peek_size_safe:
  "case peek_size buf of
     Ok (n, off) \<Rightarrow> n \<le> unat MAX_PACKET_SIZE \<and> 1 \<le> off \<and> off \<le> 3 \<and> off \<le> length buf
   | Err e \<Rightarrow> e = PrefixTooShort \<and> length buf < 3 \<or> e = PrefixTooLong \<and> 3 \<le> length buf
   | Panic \<Rightarrow> False"
proof -
  have "e = PrefixTooShort \<and> length buf < 3 \<or> e = PrefixTooLong \<and> 3 \<le> length buf"
    if e: "peek_size buf = Err e" for e
  proof (cases buf)
    case (Cons b0 r)
    then show ?thesis
      using e by (cases "unat b0 < 128"; cases r)
        (auto simp: peek_size_1 peek_size_1_short peek_size_tail split: if_splits list.splits)
  qed (use e in \<open>simp add: peek_size_Nil\<close>)
  then show ?thesis
    using peek_size_no_panic [of buf] peek_size_bounds [of buf] by (auto split: result.split)
qed

fun datagram_item_ok :: "prost \<Rightarrow> packet_kind \<Rightarrow> bool" where
  "datagram_item_ok P (PKPacket pkt) = (prost_packet_ok P pkt \<and> packet_encode P pkt \<noteq> [])"
| "datagram_item_ok P (PKForward f) = forward_wf f"
| "datagram_item_ok P (PKForwardCtd _) = False"

lemma datagram_item_decoded:
  assumes "prost_keys_ok P" "datagram_item_ok P item"
  shows "\<exists>bs item'. datagram_encode P item [] = Ok bs \<and> datagram_decode P bs = (Ok item', [])
      \<and> kind_eq item' item"
  using assms datagram_decode_packet [of P] datagram_decode_forward [of P]
  by (cases item rule: packet_kind.exhaust)
     (auto simp: datagram_encode_def forward_eq_def payload_eq_def)

text \<open>
  C8: a datagram carries exactly one packet or forward frame, and the codec recovers it: encoding
  succeeds, decoding the bytes yields an equal message and leaves nothing in the buffer.
\<close>

theorem datagram_roundtrip:
  assumes "prost_keys_ok P" "datagram_item_ok P item"
  shows "\<exists>bs item'. datagram_encode P item [] = Ok bs \<and> datagram_decode P bs = (Ok item', [])
      \<and> kind_eq item' item"
  by (rule datagram_item_decoded [OF assms])

theorem datagram_roundtrip_witness:
  "\<exists>bs item'. datagram_encode sample_prost (PKForward sample_forward) [] = Ok bs
      \<and> datagram_decode sample_prost bs = (Ok item', []) \<and> kind_eq item' (PKForward sample_forward)"
  by (rule datagram_roundtrip) simp_all

text \<open>
  no datagram makes the decoder panic: the tag check admits one-byte keys only, which keeps the
  decoder of forward frames away from its panicking case.
\<close>

theorem datagram_decode_no_panic:
  assumes "prost_keys_ok P"
  shows "fst (datagram_decode P src) \<noteq> Panic"
  using assms by (rule datagram_decode_total)

theorem datagram_decode_no_panic_witness: "fst (datagram_decode sample_prost (0x8A # 0 # replicate 21 0)) \<noteq> Panic"
  by (rule datagram_decode_no_panic) simp

end
