(* ===== verification/Stream_Codec.thy ===== *)
theory Stream_Codec
  imports Codec
begin

text \<open>
  The stream codec of \<^verbatim>\<open>crates/proto/src/codec/stream.rs\<close>: frames are a length prefix and a body,
  small packets are buffered until complete, forwarded bytes are passed on as they arrive and
  oversized or malformed bodies are discarded. The byte source under the decoder is the list of the
  outcomes its successive polls give; the decoder's \<open>poll_next\<close> returns its own outcome, the
  polls not yet made and the new state of the decoder.
\<close>

section \<open>Encoder\<close>

definition reserve_and_encode :: "prost \<Rightarrow> bytes \<Rightarrow> nat \<Rightarrow> (bytes, codec_error) result" where
  "reserve_and_encode P dst len = map_err ErrEncode (write_size P (of_nat len) dst)"

text \<open>The bytes \<open>start_send\<close> hands to the inner sink.\<close>

definition encoder_start_send :: "prost \<Rightarrow> packet_kind \<Rightarrow> (bytes, codec_error) result" where
  "encoder_start_send P item =
     (case item of
        PKPacket pkt \<Rightarrow>
          rbind (reserve_and_encode P [] (length (packet_encode P pkt)))
            (\<lambda>dst. Ok (dst @ packet_encode P pkt))
      | PKForward fwd \<Rightarrow>
          rbind (reserve_and_encode P [] (forward_encoded_len fwd))
            (\<lambda>dst. Ok (forward_encode P fwd dst))
      | PKForwardCtd buf \<Rightarrow> Ok buf)"

section \<open>Decoder\<close>

datatype stream_state =
    AwaitingPrefix
  | Buffering nat nat
  | Forwarding nat nat
  | Discarding nat nat
  | Poisoned

fun state_read :: "stream_state \<Rightarrow> nat \<Rightarrow> stream_state" where
  "state_read (Buffering left read) count = Buffering left (min left (read + count))"
| "state_read (Forwarding left read) count = Forwarding left (min left (read + count))"
| "state_read (Discarding left read) count = Discarding left (min left (read + count))"
| "state_read s count = s"

record decoder =
  dc_state :: stream_state
  dc_buf :: bytes
  dc_limit :: nat

definition decoder_with :: "nat \<Rightarrow> decoder" where
  "decoder_with limit = \<lparr> dc_state = AwaitingPrefix, dc_buf = [], dc_limit = limit \<rparr>"

definition decoder_new :: decoder where
  "decoder_new = decoder_with MAX_PARSE_MESSAGE_SIZE"

datatype inner_poll = InChunk bytes | InErr codec_error | InEnd | InPending

datatype poll_out = Item packet_kind | ItemErr codec_error | End | Pending | PollPanic

text \<open>
  What the first half of \<open>poll_next\<close> does with a non-empty buffer: return, poll again, or go on
  to poll the byte source.
\<close>

datatype buffered = Return poll_out decoder | Again decoder | Fall decoder

definition poll_buffered :: "prost \<Rightarrow> decoder \<Rightarrow> buffered" where
  "poll_buffered P d =
     (case dc_state d of
        AwaitingPrefix \<Rightarrow>
          (case read_bytes (dc_buf d) (dc_limit d) of (res, buf) \<Rightarrow>
             let d = d \<lparr> dc_buf := buf \<rparr> in
             (case res of
                Ok (Some bs) \<Rightarrow>
                  (case packet_decode P bs of
                     Some pkt \<Rightarrow> Return (Item (PKPacket pkt)) (d \<lparr> dc_state := AwaitingPrefix \<rparr>)
                   | None \<Rightarrow> Return (ItemErr ErrProtobufDecode) (d \<lparr> dc_state := AwaitingPrefix \<rparr>))
              | Ok None \<Rightarrow> Fall (d \<lparr> dc_state := AwaitingPrefix \<rparr>)
              | Err PrefixTooShort \<Rightarrow> Fall (d \<lparr> dc_state := AwaitingPrefix \<rparr>)
              | Err (PayloadInvalid left) \<Rightarrow> Fall (d \<lparr> dc_state := Discarding left 0 \<rparr>)
              | Err (PayloadTooLong left) \<Rightarrow> Fall (d \<lparr> dc_state := Discarding left 0 \<rparr>)
              | Err (PayloadTooShort left) \<Rightarrow> Fall (d \<lparr> dc_state := Buffering left 0 \<rparr>)
              | Err (DecForward left bs) \<Rightarrow>
                  let d = d \<lparr> dc_state := if left > 0 then Forwarding left 0 else AwaitingPrefix \<rparr> in
                  (case forward_decode P bs of
                     Ok fwd \<Rightarrow> Return (Item (PKForward fwd)) d
                   | _ \<Rightarrow> Return PollPanic d)
              | Err e \<Rightarrow> Return (ItemErr (ErrDecode e)) (d \<lparr> dc_state := AwaitingPrefix \<rparr>)
              | Panic \<Rightarrow> Return PollPanic (d \<lparr> dc_state := Poisoned \<rparr>)))
      | Buffering left read \<Rightarrow>
          if read > left then Return PollPanic (d \<lparr> dc_state := Poisoned \<rparr>)
          else if left - read = 0 then Again (d \<lparr> dc_state := AwaitingPrefix \<rparr>)
          else Fall (d \<lparr> dc_state := Buffering (left - read) 0 \<rparr>)
      | Forwarding left read \<Rightarrow>
          if read > left then Return PollPanic (d \<lparr> dc_state := Poisoned \<rparr>)
          else if read > 0 then
            (if read > length (dc_buf d) then Return PollPanic (d \<lparr> dc_state := Poisoned \<rparr>)
             else Return (Item (PKForwardCtd (take read (dc_buf d))))
               (d \<lparr> dc_buf := drop read (dc_buf d),
                    dc_state := if left - read = 0 then AwaitingPrefix
                                else Forwarding (left - read) 0 \<rparr>))
          else Fall (d \<lparr> dc_state := Forwarding left 0 \<rparr>)
      | Discarding left read \<Rightarrow>
          if read > left then Return PollPanic (d \<lparr> dc_state := Poisoned \<rparr>)
          else if read > 0 then
            (if read > length (dc_buf d) then Return PollPanic (d \<lparr> dc_state := Poisoned \<rparr>)
             else let d = d \<lparr> dc_buf := drop read (dc_buf d) \<rparr> in
               if left - read = 0 then Again (d \<lparr> dc_state := AwaitingPrefix \<rparr>)
               else Fall (d \<lparr> dc_state := Discarding (left - read) 0 \<rparr>))
          else Fall (d \<lparr> dc_state := Discarding left 0 \<rparr>)
      | Poisoned \<Rightarrow> Return PollPanic d)"

definition decoder_push :: "decoder \<Rightarrow> bytes \<Rightarrow> decoder" where
  "decoder_push d bs =
     d \<lparr> dc_state := state_read (dc_state d) (length bs), dc_buf := dc_buf d @ bs \<rparr>"

lemma poll_buffered_Again:
  "poll_buffered P d = Again d' \<Longrightarrow> dc_state d' = AwaitingPrefix \<and> dc_state d \<noteq> AwaitingPrefix"
  by (auto simp: poll_buffered_def Let_def
      split: stream_state.splits prod.splits result.splits option.splits decode_error.splits
        if_splits)

function poll_next ::
    "prost \<Rightarrow> inner_poll list \<Rightarrow> decoder \<Rightarrow> poll_out \<times> inner_poll list \<times> decoder" where
  "poll_next P ins d =
     (case (if dc_buf d \<noteq> [] then poll_buffered P d else Fall d) of
        Return out d' \<Rightarrow> (out, ins, d')
      | Again d' \<Rightarrow> poll_next P ins d'
      | Fall d' \<Rightarrow>
          (case ins of
             [] \<Rightarrow> (Pending, [], d')
           | InChunk bs # ins' \<Rightarrow>
               if bs = [] then (End, ins', d') else poll_next P ins' (decoder_push d' bs)
           | InErr e # ins' \<Rightarrow> (ItemErr e, ins', d')
           | InEnd # ins' \<Rightarrow> (End, ins', d')
           | InPending # ins' \<Rightarrow> (Pending, ins', d')))"
  by pat_completeness auto

termination
  by (relation "measures [\<lambda>(P, ins, d). length ins,
      \<lambda>(P, ins, d). if dc_state d = AwaitingPrefix then 0 else 1]")
     (auto dest: poll_buffered_Again split: if_splits)

declare poll_next.simps [simp del]

text \<open>A consumer that takes items until the first outcome that is not an item.\<close>

fun drain :: "nat \<Rightarrow> prost \<Rightarrow> inner_poll list \<Rightarrow> decoder \<Rightarrow> poll_out list" where
  "drain 0 P ins d = []"
| "drain (Suc n) P ins d =
     (case poll_next P ins d of
        (Item k, ins', d') \<Rightarrow> Item k # drain n P ins' d'
      | (out, ins', d') \<Rightarrow> [out])"

section \<open>Reassembly\<close>

text \<open>
  What a stream may carry: packets that encode to at least one byte and at most the parse limit,
  and forward frames of at most the maximal packet size.
\<close>

fun stream_item_ok :: "prost \<Rightarrow> nat \<Rightarrow> packet_kind \<Rightarrow> bool" where
  "stream_item_ok P lim (PKPacket pkt) \<longleftrightarrow>
     prost_packet_ok P pkt \<and> packet_encode P pkt \<noteq> [] \<and>
     length (packet_encode P pkt) \<le> lim \<and> length (packet_encode P pkt) \<le> unat MAX_PACKET_SIZE"
| "stream_item_ok P lim (PKForward f) \<longleftrightarrow>
     forward_wf f \<and> forward_encoded_len f \<le> unat MAX_PACKET_SIZE"
| "stream_item_ok P lim (PKForwardCtd _) \<longleftrightarrow> False"

text \<open>The consumer's side of a forwarded message that arrives in pieces.\<close>

definition reassemble :: "packet_kind \<Rightarrow> packet_kind list \<Rightarrow> packet_kind list" where
  "reassemble k acc =
     (case k of
        PKForwardCtd bs \<Rightarrow>
          (if acc = [] then acc
           else case last acc of
             PKForward f \<Rightarrow>
               butlast acc @ [PKForward (f \<lparr> fw_payload := payload_extend (fw_payload f) bs \<rparr>)]
           | _ \<Rightarrow> acc)
      | _ \<Rightarrow> acc @ [k])"

text \<open>A decoded item holds its payload in a mutable buffer.\<close>

fun canonical :: "packet_kind \<Rightarrow> packet_kind" where
  "canonical (PKForward f) =
     PKForward (f \<lparr> fw_payload := PBytesMut (payload_as_ref (fw_payload f)) \<rparr>)"
| "canonical k = k"

definition finish :: "packet_kind list \<Rightarrow> bytes \<Rightarrow> packet_kind list" where
  "finish acc fwd = (if fwd = [] then acc else reassemble (PKForwardCtd fwd) acc)"

lemma reassemble_Ctd_append:
  "reassemble (PKForwardCtd b) (reassemble (PKForwardCtd a) acc) = reassemble (PKForwardCtd (a @ b)) acc"
proof (cases "acc = []")
  case False
  then show ?thesis
  proof (cases "last acc")
    case (PKForward f)
    then show ?thesis
      using False by (cases "fw_payload f") (simp_all add: reassemble_def)
  qed (simp_all add: reassemble_def)
qed (simp add: reassemble_def)

lemma finish_Ctd: "b \<noteq> [] \<Longrightarrow> finish (reassemble (PKForwardCtd b) acc) fwd = finish acc (b @ fwd)"
  by (simp add: finish_def reassemble_Ctd_append)

lemma finish_Forward:
  assumes "payload_as_ref (fw_payload f) = p @ fwd"
  shows "finish (reassemble (PKForward (f \<lparr> fw_payload := PBytesMut p \<rparr>)) acc) fwd
           = acc @ [canonical (PKForward f)]"
  using assms by (simp add: finish_def reassemble_def)

section \<open>Frames\<close>

definition frame :: "prost \<Rightarrow> packet_kind \<Rightarrow> bytes" where
  "frame P item = (case encoder_start_send P item of Ok bs \<Rightarrow> bs | _ \<Rightarrow> [])"

lemma write_size_ok:
  assumes "prost_varint_ok P" "0 < n" "n \<le> unat MAX_PACKET_SIZE"
  shows "write_size P (of_nat n) dst = Ok (dst @ leb128 n)"
proof -
  have n: "unat (of_nat n :: u32) = n"
    using assms(3) by (simp add: unsigned_of_nat take_bit_nat_eq_self)
  then have "(of_nat n :: u32) \<noteq> 0" using assms(2) by auto
  moreover have "\<not> (of_nat n :: u32) > MAX_PACKET_SIZE"
    using n assms(3) by (simp add: word_less_nat_alt)
  moreover have "unat (ucast (of_nat n :: u32) :: u64) = n"
    using n assms(3) by (simp add: unsigned_ucast_eq take_bit_nat_eq_self)
  ultimately show ?thesis
    using assms(1) by (simp add: write_size_def prost_varint_ok_def)
qed

lemma encoder_packet:
  assumes "prost_varint_ok P" "stream_item_ok P lim (PKPacket pkt)"
  shows "encoder_start_send P (PKPacket pkt) =
    Ok (leb128 (length (packet_encode P pkt)) @ packet_encode P pkt)"
  using assms write_size_ok [OF assms(1)]
  by (simp add: encoder_start_send_def reserve_and_encode_def)

lemma forward_encode_append: "forward_encode P f dst = dst @ forward_encode P f []"
  by (simp add: forward_encode_def)

lemma forward_encoded_len_pos: "23 \<le> forward_encoded_len f"
  by (simp add: forward_encoded_len_def)

lemma encoder_forward:
  assumes "prost_varint_ok P" "stream_item_ok P lim (PKForward f)"
  shows "encoder_start_send P (PKForward f) =
    Ok (leb128 (forward_encoded_len f) @ forward_encode P f [])"
  using assms write_size_ok [OF assms(1), of "forward_encoded_len f"] forward_encoded_len_pos [of f]
    forward_encode_append [of P f "leb128 (forward_encoded_len f)"]
  by (simp add: encoder_start_send_def reserve_and_encode_def)

lemma frame_packet:
  assumes "prost_varint_ok P" "stream_item_ok P lim (PKPacket pkt)"
  shows "frame P (PKPacket pkt) = leb128 (length (packet_encode P pkt)) @ packet_encode P pkt"
  using encoder_packet [OF assms] by (simp add: frame_def)

lemma frame_forward:
  assumes "prost_varint_ok P" "stream_item_ok P lim (PKForward f)"
  shows "frame P (PKForward f) = leb128 (forward_encoded_len f) @ forward_encode P f []"
  using encoder_forward [OF assms] by (simp add: frame_def)

lemma frame_neq_Nil:
  assumes "prost_varint_ok P" "stream_item_ok P lim k"
  shows "frame P k \<noteq> []"
  using assms frame_packet [OF assms(1)] frame_forward [OF assms(1)] by (cases k) auto

text \<open>A decoder that has a prefix of a frame in its buffer.\<close>

lemma prefix_cases:
  assumes "buf @ src = pre @ body"
  obtains "length buf < length pre" "buf = take (length buf) pre"
  | r where "buf = pre @ r" "r @ src = body"
proof (cases "length buf < length pre")
  case True
  have "take (length buf) (buf @ src) = take (length buf) (pre @ body)" using assms by simp
  then have "buf = take (length buf) pre" using True by simp
  with True that(1) show thesis by blast
next
  case False
  then obtain r where "buf = pre @ r" using assms by (auto simp: append_eq_append_conv2)
  with assms that(2) show thesis by auto
qed

lemma read_packet_frame:
  assumes v: "prost_varint_ok P" and ok: "stream_item_ok P lim (PKPacket pkt)"
    and eq: "buf @ src = frame P (PKPacket pkt) @ rest" and ne: "buf \<noteq> []"
  shows "(length (frame P (PKPacket pkt)) \<le> length buf \<and>
          read_bytes buf lim = (Ok (Some (packet_encode P pkt)), drop (length (frame P (PKPacket pkt))) buf))
       \<or> (length buf < length (frame P (PKPacket pkt)) \<and>
          (read_bytes buf lim = (Err PrefixTooShort, buf) \<or> read_bytes buf lim = (Ok None, buf) \<or>
           read_bytes buf lim = (Err (PayloadTooShort (length (frame P (PKPacket pkt)) - length buf)), buf)))"
proof -
  let ?e = "packet_encode P pkt" let ?n = "length ?e"
  note fr = frame_packet [OF v ok]
  have n: "?n < 2097152" "?n \<le> lim" using ok by auto
  have eq': "buf @ src = leb128 ?n @ (?e @ rest)" using eq by (simp add: fr)
  then show ?thesis
  proof (cases rule: prefix_cases)
    case 1
    then show ?thesis
      using read_bytes_partial_prefix [OF n(1) 1(1), of lim] by (simp add: fr)
  next
    case (2 r)
    show ?thesis
    proof (cases r)
      case Nil
      then show ?thesis
        using 2 ok read_bytes_prefix_only [OF n(1), of lim] by (auto simp: fr)
    next
      case (Cons b r')
      have "hd ?e = b" using 2 Cons ok by (cases ?e) auto
      then have b: "b \<in> {0x12, 0x1A, 0x22, 0x2A}" using ok by (auto simp: prost_packet_ok_def)
      note rd = read_bytes_packet [OF n b, of r']
      from 2(2) show ?thesis
      proof (cases rule: prefix_cases)
        case 1
        then show ?thesis using rd 2(1) Cons by (simp add: fr)
      next
        case (2 r2)
        then show ?thesis using rd \<open>buf = leb128 ?n @ r\<close> Cons by (simp add: fr)
      qed
    qed
  qed
qed

lemma forward_encode_split:
  assumes "prost_keys_ok P" "forward_wf f"
  shows "\<exists>h. forward_encode P f [] = h @ payload_as_ref (fw_payload f) \<and> length h = 23"
  using assms
  by (intro exI [of _ "0x0A # fw_session_id f @ u32_to_be (fw_slot f) @ u16_to_be (fw_flags f)"])
     (simp add: forward_encode_def forward_key forward_wf_def SESSION_ID_SIZE_def)

lemma forward_decode_prefix:
  assumes "prost_keys_ok P" "forward_wf f" "23 \<le> k"
  shows "forward_decode P (take k (forward_encode P f [])) =
    Ok (f \<lparr> fw_payload := PBytesMut (take (k - 23) (payload_as_ref (fw_payload f))) \<rparr>)"
proof -
  let ?p = "payload_as_ref (fw_payload f)"
  let ?g = "f \<lparr> fw_payload := PBytesMut (take (k - 23) ?p) \<rparr>"
  have "take k (forward_encode P f []) = forward_encode P ?g []"
    using assms by (simp add: forward_encode_def forward_key forward_wf_def SESSION_ID_SIZE_def
        take_Cons' take_append)
  moreover have "forward_wf ?g" using assms by (simp add: forward_wf_def)
  ultimately show ?thesis using forward_decode_encoded [OF assms(1), of ?g] by simp
qed

lemma read_forward_frame:
  assumes v: "prost_varint_ok P" and ky: "prost_keys_ok P"
    and ok: "stream_item_ok P lim (PKForward f)"
    and eq: "buf @ src = frame P (PKForward f) @ rest" and ne: "buf \<noteq> []"
  shows "(\<exists>p fwd buf'. read_bytes buf lim =
             (Err (DecForward (length fwd) (take (23 + length p) (forward_encode P f []))), buf')
          \<and> payload_as_ref (fw_payload f) = p @ fwd \<and> buf' @ src = fwd @ rest
          \<and> (fwd \<noteq> [] \<longrightarrow> buf' = []) \<and> length buf' < length buf)
       \<or> (length buf < length (frame P (PKForward f)) \<and>
          (read_bytes buf lim = (Err PrefixTooShort, buf) \<or> read_bytes buf lim = (Ok None, buf)))"
proof -
  let ?e = "forward_encode P f []" let ?n = "forward_encoded_len f"
  let ?p = "payload_as_ref (fw_payload f)"
  note fr = frame_forward [OF v ok]
  have n: "?n < 2097152" using ok by auto
  have le: "length ?e = ?n" using length_forward_encode [OF ky, of f "[]"] ok by simp
  have np: "?n = 23 + length ?p" by (simp add: forward_encoded_len_def)
  obtain t where t: "?e = 0x0A # t" using ky by (simp add: forward_encode_def forward_key)
  have eq': "buf @ src = leb128 ?n @ (?e @ rest)" using eq by (simp add: fr)
  then show ?thesis
  proof (cases rule: prefix_cases)
    case 1
    then show ?thesis
      using read_bytes_partial_prefix [OF n 1(1), of lim] by (simp add: fr)
  next
    case (2 r)
    show ?thesis
    proof (cases r)
      case Nil
      then show ?thesis
        using 2 t read_bytes_prefix_only [OF n, of lim] by (simp add: fr)
    next
      case (Cons b r')
      then have b: "b = 0x0A" using 2 t by simp
      note rd = read_bytes_forward [OF n, of r' lim]
      show ?thesis
      proof (cases "23 \<le> length r")
        case False
        then show ?thesis
          using rd 2(1) Cons b le np by (auto simp: fr)
      next
        case True
        obtain h where h: "?e = h @ ?p" "length h = 23"
          using forward_encode_split [OF ky] ok by auto
        have hd23: "header_size \<le> length (0x0A # r')" using True Cons by simp
        then have rdx: "read_bytes buf lim = (Err (DecForward (?n - length r) (take ?n r)), drop ?n r)"
          using rd 2(1) Cons b by simp
        from 2(2) show ?thesis
        proof (cases rule: prefix_cases)
          case 1
          let ?k = "length r - 23"
          have "length (take ?k ?p) = ?k" using 1(1) le np by simp
          then have tk: "take ?n r = take (23 + length (take ?k ?p)) ?e"
            using 1 True le np by simp
          have "drop (length r) (r @ src) = drop (length r) (?e @ rest)"
            using 2(2) by simp
          then have "src = drop ?k ?p @ rest" using 1(1) h True by simp
          moreover have lf: "?n - length r = length (drop ?k ?p)" using 1(1) le np True by simp
          moreover have dr: "drop ?n r = []" using 1(1) le by simp
          moreover have "read_bytes buf lim =
              (Err (DecForward (length (drop ?k ?p)) (take (23 + length (take ?k ?p)) ?e)), [])"
            by (simp only: rdx tk lf dr)
          ultimately show ?thesis
            using ne by (intro disjI1 exI [of _ "take ?k ?p"] exI [of _ "drop ?k ?p"] exI [of _ "[]"]) simp
        next
          case (2 r2)
          then have tk: "take ?n r = ?e" and dr: "drop ?n r = r2" and "?n \<le> length r"
            using le by auto
          moreover have "read_bytes buf lim = (Err (DecForward 0 ?e), r2)"
            using rdx tk dr \<open>?n \<le> length r\<close> by simp
          ultimately show ?thesis
            using 2 \<open>buf = leb128 ?n @ r\<close> le np
            by (intro disjI1 exI [of _ "?p"] exI [of _ "[]"] exI [of _ "r2"]) simp
        qed
      qed
    qed
  qed
qed

section \<open>Decoding a chunked stream\<close>

text \<open>
  The decoder between two polls: \<open>items\<close> are the messages still to be delivered, \<open>fwd\<close> the bytes
  missing from the forwarded message delivered last, \<open>src\<close> the bytes the source still holds.
\<close>

definition stream_inv ::
    "prost \<Rightarrow> packet_kind list \<Rightarrow> bytes \<Rightarrow> bytes \<Rightarrow> decoder \<Rightarrow> bool" where
  "stream_inv P items fwd src d \<longleftrightarrow>
     (\<forall>k \<in> set items. stream_item_ok P (dc_limit d) k) \<and>
     dc_buf d @ src = fwd @ concat (map (frame P) items) \<and>
     (case dc_state d of
        AwaitingPrefix \<Rightarrow> fwd = []
      | Buffering left read \<Rightarrow>
          fwd = [] \<and> items \<noteq> [] \<and> read \<le> left \<and>
          (read < left \<longrightarrow> length (dc_buf d) + (left - read) \<le> length (frame P (hd items)))
      | Forwarding left read \<Rightarrow> length fwd = left \<and> 0 < left \<and> read = min left (length (dc_buf d))
      | _ \<Rightarrow> False)"

inductive delivered ::
    "packet_kind \<Rightarrow> packet_kind list \<Rightarrow> bytes \<Rightarrow> packet_kind list \<Rightarrow> bytes \<Rightarrow> bool" where
  packet: "delivered (PKPacket p) (PKPacket p # items) [] items []"
| forward: "payload_as_ref (fw_payload f) = p @ fwd \<Longrightarrow>
    delivered (PKForward (f \<lparr> fw_payload := PBytesMut p \<rparr>)) (PKForward f # items) [] items fwd"
| continued: "b \<noteq> [] \<Longrightarrow> delivered (PKForwardCtd b) items (b @ fwd) items fwd"

lemma delivered_finish:
  "delivered k items fwd items' fwd' \<Longrightarrow>
   finish (reassemble k acc) fwd' @ map canonical items' = finish acc fwd @ map canonical items"
  by (induction rule: delivered.induct)
     (simp_all add: finish_Ctd finish_Forward, simp_all add: finish_def reassemble_def)

lemma stream_inv_push:
  "stream_inv P items fwd (b @ src) d \<Longrightarrow> stream_inv P items fwd src (decoder_push d b)"
  by (auto simp: stream_inv_def decoder_push_def split: stream_state.splits)

lemma poll_buffered_packet:
  assumes v: "prost_varint_ok P" and inv: "stream_inv P (PKPacket p # items) fwd src d"
    and st: "dc_state d = AwaitingPrefix" and ne: "dc_buf d \<noteq> []"
  shows "(\<exists>d'. poll_buffered P d = Return (Item (PKPacket p)) d' \<and> stream_inv P items [] src d'
             \<and> length (dc_buf d') < length (dc_buf d))
       \<or> (\<exists>d'. poll_buffered P d = Fall d' \<and> stream_inv P (PKPacket p # items) fwd src d' \<and> src \<noteq> []
             \<and> dc_buf d' = dc_buf d)"
proof -
  have ok: "stream_item_ok P (dc_limit d) (PKPacket p)" and fwd: "fwd = []"
    and eq: "dc_buf d @ src = frame P (PKPacket p) @ concat (map (frame P) items)"
    using inv st by (auto simp: stream_inv_def)
  have pos: "0 < length (frame P (PKPacket p))" using frame_neq_Nil [OF v ok] by simp
  have short: "src \<noteq> []" if "length (dc_buf d) < length (frame P (PKPacket p))"
    using eq that by (metis append.right_neutral length_append not_add_less1)
  show ?thesis
    using read_packet_frame [OF v ok eq ne]
  proof (elim disjE conjE)
    assume len: "length (frame P (PKPacket p)) \<le> length (dc_buf d)"
      and rd: "read_bytes (dc_buf d) (dc_limit d) =
        (Ok (Some (packet_encode P p)), drop (length (frame P (PKPacket p))) (dc_buf d))"
    have "packet_decode P (packet_encode P p) = Some p" using ok by (simp add: prost_packet_ok_def)
    moreover have "drop (length (frame P (PKPacket p))) (dc_buf d) @ src = concat (map (frame P) items)"
      using eq len by (metis append_eq_append_conv_if append_eq_conv_conj drop_append)
    moreover have "length (drop (length (frame P (PKPacket p))) (dc_buf d)) < length (dc_buf d)"
      unfolding length_drop using pos len by linarith
    ultimately show ?thesis
      using rd st inv by (intro disjI1) (auto simp: poll_buffered_def stream_inv_def)
  next
    assume len: "length (dc_buf d) < length (frame P (PKPacket p))"
    moreover assume "read_bytes (dc_buf d) (dc_limit d) = (Err PrefixTooShort, dc_buf d)"
    ultimately show ?thesis using st inv short by (simp add: poll_buffered_def stream_inv_def)
  next
    assume len: "length (dc_buf d) < length (frame P (PKPacket p))"
    moreover assume "read_bytes (dc_buf d) (dc_limit d) = (Ok None, dc_buf d)"
    ultimately show ?thesis using st inv short by (simp add: poll_buffered_def stream_inv_def)
  next
    assume len: "length (dc_buf d) < length (frame P (PKPacket p))"
    moreover assume "read_bytes (dc_buf d) (dc_limit d) =
      (Err (PayloadTooShort (length (frame P (PKPacket p)) - length (dc_buf d))), dc_buf d)"
    ultimately show ?thesis using st inv short by (simp add: poll_buffered_def stream_inv_def)
  qed
qed

lemma poll_buffered_forward:
  assumes v: "prost_varint_ok P" and ky: "prost_keys_ok P"
    and inv: "stream_inv P (PKForward f # items) fwd src d"
    and st: "dc_state d = AwaitingPrefix" and ne: "dc_buf d \<noteq> []"
  shows "(\<exists>k fwd' d'. poll_buffered P d = Return (Item k) d'
             \<and> delivered k (PKForward f # items) fwd items fwd' \<and> stream_inv P items fwd' src d'
             \<and> length (dc_buf d') < length (dc_buf d))
       \<or> (\<exists>d'. poll_buffered P d = Fall d' \<and> stream_inv P (PKForward f # items) fwd src d' \<and> src \<noteq> []
             \<and> dc_buf d' = dc_buf d)"
proof -
  have ok: "stream_item_ok P (dc_limit d) (PKForward f)" and fwd: "fwd = []"
    and eq: "dc_buf d @ src = frame P (PKForward f) @ concat (map (frame P) items)"
    using inv st by (auto simp: stream_inv_def)
  have short: "src \<noteq> []" if "length (dc_buf d) < length (frame P (PKForward f))"
    using eq that by (metis append.right_neutral length_append not_add_less1)
  show ?thesis
    using read_forward_frame [OF v ky ok eq ne]
  proof (elim disjE exE conjE)
    fix p fwd' buf'
    assume rd: "read_bytes (dc_buf d) (dc_limit d) =
        (Err (DecForward (length fwd') (take (23 + length p) (forward_encode P f []))), buf')"
      and p: "payload_as_ref (fw_payload f) = p @ fwd'"
      and b: "buf' @ src = fwd' @ concat (map (frame P) items)" "fwd' \<noteq> [] \<longrightarrow> buf' = []"
        "length buf' < length (dc_buf d)"
    have dec: "forward_decode P (take (23 + length p) (forward_encode P f []))
        = Ok (f \<lparr> fw_payload := PBytesMut p \<rparr>)"
      using forward_decode_prefix [OF ky, of f "23 + length p"] ok p by simp
    let ?d = "d \<lparr> dc_buf := buf', dc_state := if fwd' \<noteq> [] then Forwarding (length fwd') 0
      else AwaitingPrefix \<rparr>"
    have "poll_buffered P d = Return (Item (PKForward (f \<lparr> fw_payload := PBytesMut p \<rparr>))) ?d"
      using rd dec st by (simp add: poll_buffered_def)
    moreover have "stream_inv P items fwd' src ?d"
      using inv b by (auto simp: stream_inv_def)
    ultimately show ?thesis
      using b(3) delivered.forward [OF p, of items] fwd by auto
  next
    assume len: "length (dc_buf d) < length (frame P (PKForward f))"
    moreover assume "read_bytes (dc_buf d) (dc_limit d) = (Err PrefixTooShort, dc_buf d)"
    ultimately show ?thesis using st inv short by (simp add: poll_buffered_def stream_inv_def)
  next
    assume len: "length (dc_buf d) < length (frame P (PKForward f))"
    moreover assume "read_bytes (dc_buf d) (dc_limit d) = (Ok None, dc_buf d)"
    ultimately show ?thesis using st inv short by (simp add: poll_buffered_def stream_inv_def)
  qed
qed

lemma poll_buffered_inv:
  assumes v: "prost_varint_ok P" and ky: "prost_keys_ok P"
    and inv: "stream_inv P items fwd src d" and ne: "dc_buf d \<noteq> []"
  shows "(\<exists>k items' fwd' d'. poll_buffered P d = Return (Item k) d'
             \<and> delivered k items fwd items' fwd' \<and> stream_inv P items' fwd' src d'
             \<and> length (dc_buf d') < length (dc_buf d))
       \<or> (\<exists>d'. poll_buffered P d = Again d' \<and> stream_inv P items fwd src d' \<and> dc_buf d' = dc_buf d)
       \<or> (\<exists>d'. poll_buffered P d = Fall d' \<and> stream_inv P items fwd src d' \<and> src \<noteq> []
             \<and> dc_buf d' = dc_buf d)"
proof (cases "dc_state d")
  case AwaitingPrefix
  have "items \<noteq> []" using inv ne AwaitingPrefix by (auto simp: stream_inv_def)
  then obtain k rest where it: "items = k # rest" by (cases items) auto
  have ok: "stream_item_ok P (dc_limit d) k" using inv it by (auto simp: stream_inv_def)
  show ?thesis
  proof (cases k)
    case (PKPacket p)
    have "fwd = []" using inv AwaitingPrefix by (simp add: stream_inv_def)
    then show ?thesis
      using poll_buffered_packet [OF v inv [unfolded it PKPacket] AwaitingPrefix ne]
        delivered.packet [of p rest] it PKPacket by blast
  next
    case (PKForward f)
    then show ?thesis
      using poll_buffered_forward [OF v ky inv [unfolded it PKForward] AwaitingPrefix ne] it
      by blast
  qed (use ok in simp)
next
  case (Buffering left read)
  then show ?thesis
  proof (cases "read < left")
    case True
    then have "length (dc_buf d) < length (frame P (hd items))"
      using inv Buffering by (auto simp: stream_inv_def)
    moreover have "items \<noteq> []" "fwd = []" "dc_buf d @ src = fwd @ concat (map (frame P) items)"
      using inv Buffering by (auto simp: stream_inv_def)
    ultimately have "src \<noteq> []" by (cases items) (auto dest: arg_cong [of _ _ length])
    then show ?thesis
      using inv Buffering True by (auto simp: poll_buffered_def stream_inv_def)
  next
    case False
    then show ?thesis
      using inv Buffering by (auto simp: poll_buffered_def stream_inv_def)
  qed
next
  case (Forwarding left read)
  let ?b = "dc_buf d"
  have f: "length fwd = left" "0 < left" "read = min left (length ?b)"
    and eq: "?b @ src = fwd @ concat (map (frame P) items)"
    using inv Forwarding by (auto simp: stream_inv_def)
  have rd: "0 < read" "read \<le> left" "read \<le> length ?b" using f ne by auto
  have "take read (?b @ src) = take read (fwd @ concat (map (frame P) items))"
    using eq by simp
  then have t: "take read ?b = take read fwd" using rd f by simp
  have "drop read (?b @ src) = drop read (fwd @ concat (map (frame P) items))"
    using eq by simp
  then have r: "drop read ?b @ src = drop read fwd @ concat (map (frame P) items)"
    using rd f by simp
  let ?d = "d \<lparr> dc_buf := drop read ?b,
    dc_state := if left - read = 0 then AwaitingPrefix else Forwarding (left - read) 0 \<rparr>"
  have "poll_buffered P d = Return (Item (PKForwardCtd (take read fwd))) ?d"
    using Forwarding rd t by (simp add: poll_buffered_def)
  moreover have "stream_inv P items (drop read fwd) src ?d"
    using inv r f rd by (auto simp: stream_inv_def min_def split: if_splits)
  moreover have "delivered (PKForwardCtd (take read fwd)) items fwd items (drop read fwd)"
    using delivered.continued [of "take read fwd" items "drop read fwd"] rd f by auto
  ultimately show ?thesis using rd by fastforce
qed (use inv in \<open>auto simp: stream_inv_def\<close>)

definition chunked :: "bytes list \<Rightarrow> inner_poll list" where
  "chunked cs = map InChunk cs @ [InEnd]"

lemma poll_next_inv:
  assumes "prost_varint_ok P" "prost_keys_ok P" "[] \<notin> set cs"
    "stream_inv P items fwd (concat cs) d"
  shows "(\<exists>k cs' items' fwd' d'. poll_next P (chunked cs) d = (Item k, chunked cs', d') \<and> [] \<notin> set cs'
             \<and> delivered k items fwd items' fwd' \<and> stream_inv P items' fwd' (concat cs') d'
             \<and> length (dc_buf d') + length (concat cs') < length (dc_buf d) + length (concat cs))
       \<or> (\<exists>d'. poll_next P (chunked cs) d = (End, [], d') \<and> items = [] \<and> fwd = [])"
  using assms
proof (induction P "chunked cs" d arbitrary: cs items fwd rule: poll_next.induct)
  case (1 P d)
  let ?s = "if dc_buf d \<noteq> [] then poll_buffered P d else Fall d"
  note inv = "1.prems"(4)
  consider (ret) k items' fwd' d' where "?s = Return (Item k) d'"
      "delivered k items fwd items' fwd'" "stream_inv P items' fwd' (concat cs) d'"
      "length (dc_buf d') < length (dc_buf d)"
    | (again) d' where "?s = Again d'" "stream_inv P items fwd (concat cs) d'" "dc_buf d' = dc_buf d"
    | (fall) d' where "?s = Fall d'" "stream_inv P items fwd (concat cs) d'" "dc_buf d' = dc_buf d"
        "cs = [] \<longrightarrow> dc_buf d = []"
    using poll_buffered_inv [OF "1.prems"(1,2) inv] inv by (cases "dc_buf d = []") fastforce+
  then show ?case
  proof cases
    case ret
    have "poll_next P (chunked cs) d = (Item k, chunked cs, d')"
      using ret(1) by (subst poll_next.simps) simp
    then show ?thesis using ret(2-4) "1.prems"(3)
      by (intro disjI1 exI [of _ k] exI [of _ cs] exI [of _ items'] exI [of _ fwd'] exI [of _ d']) simp
  next
    case again
    have "poll_next P (chunked cs) d = poll_next P (chunked cs) d'"
      using again(1) by (subst poll_next.simps) simp
    then show ?thesis
      using "1.hyps"(1) [OF again(1) refl "1.prems"(1-3) again(2)] by (simp only: again(3))
  next
    case fall
    show ?thesis
    proof (cases cs)
      case Nil
      have "poll_next P (chunked cs) d = (End, [], d')"
        using fall(1) Nil by (subst poll_next.simps) (simp add: chunked_def)
      moreover have "fwd = []" "concat (map (frame P) items) = []"
        using fall(4) Nil inv by (simp_all add: stream_inv_def)
      moreover have "items = []"
        using calculation(3) inv frame_neq_Nil [OF "1.prems"(1)]
        by (cases items) (auto simp: stream_inv_def)
      ultimately show ?thesis by blast
    next
      case (Cons b cs')
      have b: "b \<noteq> []" "[] \<notin> set cs'" using Cons "1.prems"(3) by auto
      have c: "chunked cs = InChunk b # chunked cs'" using Cons by (simp add: chunked_def)
      have "poll_next P (chunked cs) d = poll_next P (chunked cs') (decoder_push d' b)"
        using fall(1) c b by (subst poll_next.simps) simp
      moreover have "stream_inv P items fwd (concat cs') (decoder_push d' b)"
        using fall(2) Cons stream_inv_push [of P items fwd b "concat cs'" d'] by simp
      moreover have "length (dc_buf (decoder_push d' b)) + length (concat cs')
          = length (dc_buf d) + length (concat cs)"
        using fall(3) Cons by (simp add: decoder_push_def)
      ultimately show ?thesis
        using "1.hyps"(2) [OF fall(1) c refl b(1) "1.prems"(1,2) b(2)] by (simp only:)
    qed
  qed
qed

text \<open>
  Any chunking of the encoded messages is drained to the messages themselves, followed by the end
  of the stream.
\<close>

lemma drain_stream:
  assumes "prost_varint_ok P" "prost_keys_ok P" "[] \<notin> set cs"
    "stream_inv P items fwd (concat cs) d" "length (dc_buf d) + length (concat cs) < n"
  shows "\<exists>ks. drain n P (chunked cs) d = map Item ks @ [End]
           \<and> fold reassemble ks acc = finish acc fwd @ map canonical items"
  using assms(3-)
proof (induction n arbitrary: cs items fwd d acc)
  case (Suc n)
  from poll_next_inv [OF assms(1,2) Suc.prems(1,2)] show ?case
  proof (elim disjE exE conjE)
    fix k cs' items' fwd' d'
    assume p: "poll_next P (chunked cs) d = (Item k, chunked cs', d')" and c: "[] \<notin> set cs'"
      and dl: "delivered k items fwd items' fwd'" and i: "stream_inv P items' fwd' (concat cs') d'"
      and l: "length (dc_buf d') + length (concat cs') < length (dc_buf d) + length (concat cs)"
    have "length (dc_buf d') + length (concat cs') < n" using l Suc.prems(3) by linarith
    from Suc.IH [OF c i this, of "reassemble k acc"]
    obtain ks where ks: "drain n P (chunked cs') d' = map Item ks @ [End]"
      "fold reassemble ks (reassemble k acc) = finish (reassemble k acc) fwd' @ map canonical items'"
      by blast
    then show ?thesis
      using p delivered_finish [OF dl, of acc] by (intro exI [of _ "k # ks"]) simp
  next
    fix d'
    assume "poll_next P (chunked cs) d = (End, [], d')" "items = []" "fwd = []"
    then show ?thesis by (intro exI [of _ "[]"]) (simp add: finish_def)
  qed
qed simp

lemma stream_inv_init:
  assumes "\<forall>k \<in> set items. stream_item_ok P lim k"
  shows "stream_inv P items [] (concat (map (frame P) items)) (decoder_with lim)"
  using assms by (simp add: stream_inv_def decoder_with_def)

lemma collect_frames:
  assumes "prost_varint_ok P" "\<forall>k \<in> set items. stream_item_ok P lim k"
  shows "collect_results (encoder_start_send P) items = Ok (map (frame P) items)"
proof -
  have "encoder_start_send P k = Ok (frame P k)" if "k \<in> set items" for k
  proof -
    have "stream_item_ok P lim k" using assms(2) that by blast
    then show ?thesis
      using encoder_packet [OF assms(1), of lim] encoder_forward [OF assms(1), of lim]
      by (cases k rule: packet_kind.exhaust) (auto simp: frame_def)
  qed
  then show ?thesis
    by (simp add: collect_results_Ok_iff list_all2_map2 list_all2_same)
qed

lemma kind_eq_canonical: "stream_item_ok P lim k \<Longrightarrow> kind_eq (canonical k) k"
  by (cases k) (simp_all add: forward_eq_def payload_eq_def)

section \<open>Discarding nothing\<close>

text \<open>
  A body that is refused while it is complete in the buffer leaves nothing to discard; the state
  for discarding zero bytes is then kept whatever arrives.
\<close>

lemma poll_next_discarding_zero:
  assumes "dc_state d = Discarding 0 0" "[] \<notin> set cs"
  shows "\<exists>d'. poll_next P (chunked cs) d = (End, [], d')"
  using assms
proof (induction cs arbitrary: d)
  case Nil
  then show ?case
    by (subst poll_next.simps) (simp add: chunked_def poll_buffered_def)
next
  case (Cons b cs)
  let ?d = "decoder_push d b"
  have e: "d \<lparr> dc_state := Discarding 0 0 \<rparr> = d" using Cons.prems(1) by simp
  have "poll_next P (chunked (b # cs)) d = poll_next P (chunked cs) ?d"
    using Cons.prems by (subst poll_next.simps) (auto simp: chunked_def poll_buffered_def e)
  moreover have "dc_state ?d = Discarding 0 0" using Cons.prems(1) by (simp add: decoder_push_def)
  ultimately show ?case using Cons by (metis list.set_intros(2))
qed

lemma poll_next_fall:
  assumes "dc_buf d \<noteq> []" "poll_buffered P d = Fall e" "poll_buffered P e = Fall e"
  shows "poll_next P ins d = poll_next P ins e"
  using assms poll_next.simps [of P ins d] poll_next.simps [of P ins e]
  by (cases "dc_buf e = []") simp_all

lemma poll_next_refused:
  assumes "read_bytes (b # bs) lim = (Err (PayloadInvalid 0), rest) \<or>
      read_bytes (b # bs) lim = (Err (PayloadTooLong 0), rest)" "[] \<notin> set cs"
  shows "\<exists>d'. poll_next P (chunked ((b # bs) # cs)) (decoder_with lim) = (End, [], d')"
proof -
  let ?d = "\<lparr> dc_state = AwaitingPrefix, dc_buf = b # bs, dc_limit = lim \<rparr>"
  let ?e = "\<lparr> dc_state = Discarding 0 0, dc_buf = rest, dc_limit = lim \<rparr>"
  have "poll_next P (chunked ((b # bs) # cs)) (decoder_with lim) = poll_next P (chunked cs) ?d"
    by (subst poll_next.simps) (simp add: chunked_def decoder_with_def decoder_push_def)
  moreover have "poll_buffered P ?d = Fall ?e"
    using assms(1) by (auto simp: poll_buffered_def)
  moreover have "poll_buffered P ?e = Fall ?e"
    by (simp add: poll_buffered_def)
  ultimately have "poll_next P (chunked ((b # bs) # cs)) (decoder_with lim) = poll_next P (chunked cs) ?e"
    using poll_next_fall [of ?d P ?e] by simp
  then show ?thesis
    using poll_next_discarding_zero [of ?e cs P] assms(2) by simp
qed

text \<open>A forward frame whose length prefix is shorter than the fixed header.\<close>

lemma poll_next_short_forward:
  assumes "prost_keys_ok P" "0 < n" "n < 23" "22 \<le> length r"
  shows "fst (poll_next P [InChunk (of_nat n # 0x0A # r)] (decoder_with lim)) = PollPanic"
proof -
  let ?b = "leb128 n @ 0x0A # r"
  have b: "?b = of_nat n # 0x0A # r" using assms(3) by (simp add: leb128_small)
  have "forward_decode P (take n (0x0A # r)) = Err PacketTooShort"
    using assms by (simp add: forward_decode_def)
  moreover have "read_bytes ?b lim = (Err (DecForward (n - Suc (length r)) (take n (0x0A # r))),
      drop n (0x0A # r))"
    using assms read_bytes_forward [of n r lim] by simp
  ultimately have "\<exists>d'. poll_buffered P \<lparr> dc_state = AwaitingPrefix, dc_buf = ?b, dc_limit = lim \<rparr>
      = Return PollPanic d'"
    by (simp add: poll_buffered_def)
  then obtain d' where "poll_buffered P \<lparr> dc_state = AwaitingPrefix, dc_buf = of_nat n # 0x0A # r,
      dc_limit = lim \<rparr> = Return PollPanic d'"
    unfolding b by blast
  moreover have "poll_next P [InChunk (of_nat n # 0x0A # r)] (decoder_with lim) =
      poll_next P [] \<lparr> dc_state = AwaitingPrefix, dc_buf = of_nat n # 0x0A # r, dc_limit = lim \<rparr>"
    by (subst poll_next.simps) (simp add: decoder_with_def decoder_push_def)
  ultimately show ?thesis
    using poll_next.simps [of P "[]" "\<lparr> dc_state = AwaitingPrefix, dc_buf = of_nat n # 0x0A # r,
      dc_limit = lim \<rparr>"] by simp
qed

section \<open>Properties\<close>

text \<open>
  C7: messages sent through the stream encoder are recovered by the stream decoder from any split of
  the byte stream into non-empty chunks. The messages are packets whose encoding is not empty, fits the decoder's parse
  limit and the maximal packet size and is read back by the protobuf library, and forward frames of at
  most the maximal packet size; a larger packet is dropped by the decoder. Every message is encoded; polling until the end of the
  stream yields items only, then the end, and the items, with the continuations of forwarded messages
  appended to them, are the messages sent, in order. The bound on the number of polls is the number
  of bytes.
\<close>

theorem stream_roundtrip:
  assumes "prost_varint_ok P" "prost_keys_ok P" "\<forall>k \<in> set items. stream_item_ok P lim k"
  shows "\<exists>frames. collect_results (encoder_start_send P) items = Ok frames
    \<and> (\<forall>cs n. concat cs = concat frames \<and> [] \<notin> set cs \<and> length (concat cs) < n \<longrightarrow>
        (\<exists>ks. drain n P (chunked cs) (decoder_with lim) = map Item ks @ [End]
           \<and> list_all2 kind_eq (fold reassemble ks []) items))"
proof -
  have eq: "list_all2 kind_eq (map canonical items) items"
    using assms(3) by (auto simp: list_all2_map1 list.rel_refl_strong kind_eq_canonical intro!: list.rel_refl_strong)
  have "\<exists>ks. drain n P (chunked cs) (decoder_with lim) = map Item ks @ [End]
      \<and> list_all2 kind_eq (fold reassemble ks []) items"
    if "concat cs = concat (map (frame P) items)" "[] \<notin> set cs" "length (concat cs) < n" for cs n
  proof -
    have "stream_inv P items [] (concat cs) (decoder_with lim)"
      using stream_inv_init [OF assms(3)] that(1) by simp
    then show ?thesis
      using drain_stream [OF assms(1,2) that(2), of items "[]" "decoder_with lim" n "[]"] that(3) eq
      by (auto simp: finish_def decoder_with_def)
  qed
  then show ?thesis using collect_frames [OF assms(1,3)] by auto
qed

theorem stream_roundtrip_witness:
  "\<exists>ks. drain 60 sample_prost
      (chunked [[4, 0x12], [2, 1, 2, 27, 0x0A] @ replicate 16 7 @ [0, 0, 0, 42, 0], [1, 9], [8, 7],
        [6, 4, 0x12], [2, 1, 2]]) (decoder_with 600) = map Item ks @ [End]
    \<and> list_all2 kind_eq (fold reassemble ks [])
        [PKPacket sample_packet, PKForward sample_forward, PKPacket sample_packet]"
proof -
  let ?items = "[PKPacket sample_packet, PKForward sample_forward, PKPacket sample_packet]"
  let ?cs = "[[4, 0x12], [2, 1, 2, 27, 0x0A] @ replicate 16 7 @ [0, 0, 0, 42, 0], [1, 9], [8, 7],
        [6, 4, 0x12], [2, 1, 2]] :: bytes list"
  have "stream_item_ok sample_prost 600 (PKPacket sample_packet)"
    by (simp add: sample_prost_def prost_packet_ok_def)
  moreover have "stream_item_ok sample_prost 600 (PKForward sample_forward)"
    by (simp add: forward_encoded_len_def) (simp add: sample_forward_def)
  ultimately have "\<forall>k \<in> set ?items. stream_item_ok sample_prost 600 k" by simp
  from stream_roundtrip [OF sample_prost_ok(1,2) this]
  obtain frames where f: "collect_results (encoder_start_send sample_prost) ?items = Ok frames"
    and r: "\<And>cs n. concat cs = concat frames \<Longrightarrow> [] \<notin> set cs \<Longrightarrow> length (concat cs) < n \<Longrightarrow>
        (\<exists>ks. drain n sample_prost (chunked cs) (decoder_with 600) = map Item ks @ [End]
           \<and> list_all2 kind_eq (fold reassemble ks []) ?items)"
    by blast
  have "collect_results (encoder_start_send sample_prost) ?items =
      Ok [[4, 0x12, 2, 1, 2], [27, 0x0A] @ replicate 16 7 @ [0, 0, 0, 42, 0, 1, 9, 8, 7, 6],
          [4, 0x12, 2, 1, 2]]"
    by code_simp
  with f have "frames = [[4, 0x12, 2, 1, 2],
      [27, 0x0A] @ replicate 16 7 @ [0, 0, 0, 42, 0, 1, 9, 8, 7, 6], [4, 0x12, 2, 1, 2]]"
    by (simp only: result.inject)
  then have "concat ?cs = concat frames" by simp
  then show ?thesis by (rule r) simp_all
qed

text \<open>
  C25: the stream decoder does not recover from a frame it refuses as a whole. When the body with an
  invalid tag, or one over the parse limit, is complete in the buffer there is nothing left to
  discard, and the decoder then swallows everything that follows: whatever non-empty chunks come
  after it, the next outcome is the end of the stream.
\<close>

theorem stream_refused_frame_is_final:
  assumes "read_bytes (b # bs) lim = (Err (PayloadInvalid 0), rest) \<or>
      read_bytes (b # bs) lim = (Err (PayloadTooLong 0), rest)"
    and "[] \<notin> set cs"
  shows "drain (Suc n) P (chunked ((b # bs) # cs)) (decoder_with lim) = [End]"
  using poll_next_refused [OF assms, of P] by auto

theorem stream_refused_frame_is_final_witness:
  "drain (Suc 2) sample_prost (chunked ((1 # [0]) # [[4, 0x12, 2, 1, 2]])) (decoder_with 600) = [End]"
proof (rule stream_refused_frame_is_final)
  show "read_bytes (1 # [0]) 600 = (Err (PayloadInvalid 0), []) \<or>
      read_bytes (1 # [0]) 600 = (Err (PayloadTooLong 0), [])"
    by (simp add: read_bytes_def peek_size_1 read_bytes_inner_def slice_from_def peek_tag_def)
qed simp

text \<open>
  the stream decoder panics on a forward frame whose length prefix is smaller than the fixed
  header, once enough bytes are buffered: the frame is cut to the announced length and the failure to
  decode it is unwrapped.
\<close>

theorem stream_short_forward_panics:
  assumes "prost_keys_ok P" "0 < n" "n < header_size" "header_size \<le> length (0x0A # r)"
  shows "fst (poll_next P [InChunk (of_nat n # 0x0A # r)] (decoder_with lim)) = PollPanic"
  using assms by (intro poll_next_short_forward) simp_all

theorem stream_short_forward_panics_witness:
  "fst (poll_next sample_prost [InChunk (of_nat 1 # 0x0A # replicate 22 0)] (decoder_with 600)) = PollPanic"
  by (rule stream_short_forward_panics) simp_all

end
