(* ===== verification/Prefix_Codec.thy ===== *)
theory Prefix_Codec
  imports Codec
begin

text \<open>
  The length-prefixed messages of \<^verbatim>\<open>crates/proto/src/codec/forward.rs\<close>, used on the reliable
  virtual connections: a four-byte big-endian length and the message. The locale \<open>framing\<close> is the
  contract of a self-delimiting encoding; what a receiver may conclude from a buffer that holds a
  piece of a stream of messages is proved there once.
\<close>

section \<open>Self-delimiting encodings\<close>

locale framing =
  fixes enc :: "'m \<Rightarrow> bytes"
    and dec :: "bytes \<Rightarrow> ('m \<times> bytes) option"
    and ok :: "'m \<Rightarrow> bool"
  assumes dec_enc: "ok m \<Longrightarrow> dec (enc m @ r) = Some (m, r)"
    and dec_partial: "ok m \<Longrightarrow> enc m = buf @ r \<Longrightarrow> r \<noteq> [] \<Longrightarrow> dec buf = None"
    and enc_neq_Nil: "ok m \<Longrightarrow> enc m \<noteq> []"
begin

lemma dec_Nil:
  assumes "ok m"
  shows "dec [] = None"
  using dec_partial [of m "[]"] enc_neq_Nil assms by simp

lemma enc_inj: "ok m \<Longrightarrow> ok m' \<Longrightarrow> enc m @ r = enc m' @ r' \<Longrightarrow> m = m' \<and> r = r'"
  by (metis dec_enc option.inject prod.inject)

lemma dec_progress:
  assumes "ok m" "dec (enc m @ r) = Some (m', r')"
  shows "length r' < length (enc m @ r)"
  using assms dec_enc [of m r] enc_neq_Nil [of m] by simp

text \<open>The buffer and the rest of the source hold the messages \<open>ms\<close>.\<close>

lemma dec_stream:
  assumes "\<forall>m \<in> set ms. ok m" "buf @ src = concat (map enc ms)" "buf \<noteq> []"
  shows "(\<exists>m ms' rest. ms = m # ms' \<and> dec buf = Some (m, rest) \<and> rest @ src = concat (map enc ms')
            \<and> length rest < length buf)
       \<or> (dec buf = None \<and> src \<noteq> [])"
proof -
  obtain m ms' where ms: "ms = m # ms'" using assms(2,3) by (cases ms) auto
  then have m: "ok m" using assms(1) by simp
  have eq: "buf @ src = enc m @ concat (map enc ms')" using assms(2) ms by simp
  from eq show ?thesis
  proof (cases rule: prefix_split)
    case (short r)
    then show ?thesis using dec_partial [OF m] by auto
  next
    case (full r)
    then show ?thesis
      using ms dec_enc [OF m, of r] enc_neq_Nil [OF m] by simp
  qed
qed

end

section \<open>Messages\<close>

definition PREFIX_SIZE :: nat where "PREFIX_SIZE = 4"

definition prefix_encode :: "payload \<Rightarrow> (payload, unit) result" where
  "prefix_encode p =
     (let len = (of_nat (payload_len p) :: u32) in
      rbind (payload_reserve p PREFIX_SIZE) (\<lambda>p. payload_prepend p (u32_to_be len)))"

text \<open>The decoded bytes and the buffer that is left; on \<open>None\<close> (the error) it is unchanged.\<close>

definition prefix_decode :: "bytes \<Rightarrow> (bytes \<times> bytes) option" where
  "prefix_decode buf =
     (if length buf < PREFIX_SIZE then None
      else
        let len = unat (from_be (take PREFIX_SIZE buf) :: u32); prefixed_length = PREFIX_SIZE + len in
        if length buf \<ge> prefixed_length then
          Some (take len (drop PREFIX_SIZE buf), drop len (drop PREFIX_SIZE buf))
        else None)"

text \<open>\<open>SinkKind\<close>: a plain sink passes payloads on, a prefixed one encodes them first.\<close>

datatype sink_kind = PlainSink | PrefixedSink

fun sink_start_send :: "sink_kind \<Rightarrow> payload \<Rightarrow> (payload, unit) result" where
  "sink_start_send PlainSink item = Ok item"
| "sink_start_send PrefixedSink item = prefix_encode item"

datatype payload_poll = InPayload payload | InFinished | InWait

datatype prefixed_out = PItem bytes | PDone | PWait

fun prefixed_poll_next ::
    "payload_poll list \<Rightarrow> bytes \<Rightarrow> prefixed_out \<times> payload_poll list \<times> bytes" where
  "prefixed_poll_next ins buf =
     (case (if buf \<noteq> [] then prefix_decode buf else None) of
        Some (bs, buf') \<Rightarrow> (PItem bs, ins, buf')
      | None \<Rightarrow>
          (case ins of
             [] \<Rightarrow> (PWait, [], buf)
           | InPayload payload # ins' \<Rightarrow>
               if payload_is_empty payload then (PDone, ins', buf)
               else prefixed_poll_next ins' (buf @ payload_into_vec payload)
           | InFinished # ins' \<Rightarrow> (PDone, ins', buf)
           | InWait # ins' \<Rightarrow> (PWait, ins', buf)))"

declare prefixed_poll_next.simps [simp del]

fun prefixed_drain :: "nat \<Rightarrow> payload_poll list \<Rightarrow> bytes \<Rightarrow> prefixed_out list" where
  "prefixed_drain 0 ins buf = []"
| "prefixed_drain (Suc n) ins buf =
     (case prefixed_poll_next ins buf of
        (PItem bs, ins', buf') \<Rightarrow> PItem bs # prefixed_drain n ins' buf'
      | (out, ins', buf') \<Rightarrow> [out])"

section \<open>Facts\<close>

definition prefixed :: "bytes \<Rightarrow> bytes" where
  "prefixed m = u32_to_be (of_nat (length m)) @ m"

definition message_ok :: "bytes \<Rightarrow> bool" where
  "message_ok m \<longleftrightarrow> length m < 2 ^ 32"

lemma prefix_encode_ok:
  "\<exists>q. prefix_encode p = Ok q \<and> payload_as_ref q = prefixed (payload_as_ref p)"
proof -
  obtain q where q: "payload_reserve p PREFIX_SIZE = Ok q" "payload_as_ref q = payload_as_ref p"
    using payload_reserve_ok by blast
  then show ?thesis
    using pb.view_prepend [of q "u32_to_be (of_nat (payload_len p))"]
    by (auto simp: prefix_encode_def prefixed_def)
qed

lemma prefix_decode_header:
  assumes "message_ok m"
  shows "prefix_decode (u32_to_be (of_nat (length m)) @ r) =
    (if length m \<le> length r then Some (take (length m) r, drop (length m) r) else None)"
proof -
  have "unat (of_nat (length m) :: u32) = length m"
    using assms by (simp add: message_ok_def unsigned_of_nat take_bit_nat_eq_self)
  then show ?thesis by (simp add: prefix_decode_def PREFIX_SIZE_def Let_def)
qed

lemma prefix_decode_short: "length buf < 4 \<Longrightarrow> prefix_decode buf = None"
  by (simp add: prefix_decode_def PREFIX_SIZE_def)

lemma prefix_decode_partial:
  assumes "message_ok m" "prefixed m = buf @ r" "r \<noteq> []"
  shows "prefix_decode buf = None"
proof (cases "length buf < 4")
  case False
  have "buf @ r = u32_to_be (of_nat (length m)) @ m" using assms(2) by (simp add: prefixed_def)
  then show ?thesis
  proof (cases rule: prefix_split)
    case (short s)
    have "length (u32_to_be (of_nat (length m))) = length buf + length s" using short(1) by simp
    then show ?thesis using False short(2) by (cases s) simp_all
  next
    case (full s)
    then show ?thesis using prefix_decode_header [OF assms(1), of s] assms(3) by auto
  qed
qed (rule prefix_decode_short)

interpretation pf: framing prefixed prefix_decode message_ok
proof
  show "message_ok m \<Longrightarrow> prefix_decode (prefixed m @ r) = Some (m, r)" for m r
    using prefix_decode_header [of m "m @ r"] by (simp add: prefixed_def)
  show "message_ok m \<Longrightarrow> prefixed m = buf @ r \<Longrightarrow> r \<noteq> [] \<Longrightarrow> prefix_decode buf = None" for m buf r
    by (rule prefix_decode_partial)
  show "message_ok m \<Longrightarrow> prefixed m \<noteq> []" for m
    by (simp add: prefixed_def u32_to_be_def)
qed

text \<open>The payloads a source delivers, all non-empty, and then its end.\<close>

definition payload_source :: "payload list \<Rightarrow> payload_poll list" where
  "payload_source ps = map InPayload ps @ [InFinished]"

definition source_bytes :: "payload list \<Rightarrow> bytes" where
  "source_bytes ps = concat (map payload_as_ref ps)"

lemma prefixed_poll_stream:
  assumes "\<forall>m \<in> set ms. message_ok m" "\<forall>p \<in> set ps. payload_as_ref p \<noteq> []"
    "buf @ source_bytes ps = concat (map prefixed ms)"
  shows "(\<exists>m ms' ps' buf'. ms = m # ms'
            \<and> prefixed_poll_next (payload_source ps) buf = (PItem m, payload_source ps', buf')
            \<and> (\<forall>p \<in> set ps'. payload_as_ref p \<noteq> []) \<and> buf' @ source_bytes ps' = concat (map prefixed ms'))
       \<or> (ms = [] \<and> prefixed_poll_next (payload_source ps) buf = (PDone, [], buf))"
  using assms
proof (induction ps arbitrary: buf)
  case Nil
  show ?case
  proof (cases "buf = []")
    case True
    then have "ms = []" using Nil pf.enc_neq_Nil by (cases ms) (auto simp: source_bytes_def)
    with True show ?thesis
      by (subst prefixed_poll_next.simps) (simp add: payload_source_def)
  next
    case False
    then obtain m ms' rest where "ms = m # ms'" "prefix_decode buf = Some (m, rest)"
        "rest @ source_bytes [] = concat (map prefixed ms')"
      using pf.dec_stream [OF Nil(1,3)] by (auto simp: source_bytes_def)
    with False show ?thesis
      by (intro disjI1 exI [of _ m] exI [of _ ms'] exI [of _ "[]"] exI [of _ rest])
         (subst prefixed_poll_next.simps, simp)
  qed
next
  case (Cons p ps)
  have eq: "buf @ source_bytes (p # ps) = (buf @ payload_as_ref p) @ source_bytes ps"
    by (simp add: source_bytes_def)
  show ?case
  proof (cases "buf \<noteq> [] \<and> prefix_decode buf \<noteq> None")
    case True
    then obtain m ms' rest where "ms = m # ms'" "prefix_decode buf = Some (m, rest)"
        "rest @ source_bytes (p # ps) = concat (map prefixed ms')"
      using pf.dec_stream [OF Cons.prems(1,3)] by auto
    with True Cons.prems(2) show ?thesis
      by (intro disjI1 exI [of _ m] exI [of _ ms'] exI [of _ "p # ps"] exI [of _ rest])
         (subst prefixed_poll_next.simps, simp)
  next
    case False
    then have "(if buf \<noteq> [] then prefix_decode buf else None) = None" by presburger
    then have step: "prefixed_poll_next (payload_source (p # ps)) buf =
        prefixed_poll_next (payload_source ps) (buf @ payload_as_ref p)"
      using Cons.prems(2) by (subst prefixed_poll_next.simps) (simp add: payload_source_def)
    have "ms \<noteq> []" using Cons.prems(2,3) by (auto simp: source_bytes_def)
    then show ?thesis
      using Cons.IH [of "buf @ payload_as_ref p"] Cons.prems eq unfolding step by auto
  qed
qed

lemma prefixed_drain_stream:
  assumes "\<forall>m \<in> set ms. message_ok m" "\<forall>p \<in> set ps. payload_as_ref p \<noteq> []"
    "buf @ source_bytes ps = concat (map prefixed ms)" "length ms < n"
  shows "prefixed_drain n (payload_source ps) buf = map PItem ms @ [PDone]"
  using assms
proof (induction n arbitrary: ms ps buf)
  case (Suc n)
  from prefixed_poll_stream [OF Suc.prems(1-3)] show ?case
  proof (elim disjE exE conjE)
    fix m ms' ps' buf'
    assume ms: "ms = m # ms'" and p: "\<forall>p \<in> set ps'. payload_as_ref p \<noteq> []"
        "buf' @ source_bytes ps' = concat (map prefixed ms')"
      and st: "prefixed_poll_next (payload_source ps) buf = (PItem m, payload_source ps', buf')"
    have "prefixed_drain n (payload_source ps') buf' = map PItem ms' @ [PDone]"
      using Suc.prems ms p by (intro Suc.IH) auto
    then show ?thesis using st ms by simp
  qed simp
qed simp

section \<open>Properties\<close>

text \<open>
  C24: prefixed messages shorter than 4 GiB, sent one after another and delivered in any split into
  non-empty payloads of any variant, are received exactly as sent, in order and followed by the end
  of the stream; encoding them never panics.
\<close>

theorem prefixed_stream_roundtrip:
  assumes "\<forall>m \<in> set ms. length (payload_as_ref m) < 2 ^ 32"
    and "\<forall>p \<in> set ps. \<not> payload_is_empty p"
    and "collect_results prefix_encode ms = Ok qs"
    and "source_bytes ps = source_bytes qs"
    and "length ms < n"
  shows "prefixed_drain n (payload_source ps) [] = map (PItem \<circ> payload_as_ref) ms @ [PDone]"
proof -
  have "map payload_as_ref qs = map (prefixed \<circ> payload_as_ref) ms"
    using assms(3)
  proof (induction ms arbitrary: qs)
    case (Cons m ms)
    then show ?case using prefix_encode_ok [of m] by (auto simp: rbind_eq_Ok_iff)
  qed simp
  then have "source_bytes qs = concat (map prefixed (map payload_as_ref ms))"
    by (simp add: source_bytes_def)
  then show ?thesis
    using assms prefixed_drain_stream [of "map payload_as_ref ms" ps "[]" n]
    by (simp add: message_ok_def)
qed

theorem prefixed_stream_roundtrip_witness:
  "prefixed_drain 3 (payload_source [PVec [0, 0, 0], PBytes [2, 7, 8, 0, 0], PBytesMut [0, 1, 5]]) []
     = map (PItem \<circ> payload_as_ref) [PVec [7, 8], PBytes [5]] @ [PDone]"
proof (rule prefixed_stream_roundtrip)
  show "collect_results prefix_encode [PVec [7, 8], PBytes [5]] =
      Ok [PVec [0, 0, 0, 2, 7, 8], PBytesMut [0, 0, 0, 1, 5]]"
    by code_simp
  show "source_bytes [PVec [0, 0, 0], PBytes [2, 7, 8, 0, 0], PBytesMut [0, 1, 5]] =
      source_bytes [PVec [0, 0, 0, 2, 7, 8], PBytesMut [0, 0, 0, 1, 5]]"
    by (simp add: source_bytes_def)
qed simp_all

end
