(* ===== verification/Net_Packet.thy ===== *)
theory Net_Packet
  imports Relay_Prelude
begin

text \<open>
  The packet views of the virtual network stack, \<^verbatim>\<open>crates/stack/src/packet.rs\<close>, and the protocol
  numbers of \<^verbatim>\<open>crates/stack/src/protocol.rs\<close>. A \<open>peek\<close> function decides whether bytes can be read
  as a packet, a \<open>packet\<close> function reads them with slice and index expressions that panic out of
  range; a field is the pair of its first and past-the-last index, a bit field the index of a byte and
  a range of its bits counted from the most significant one.
\<close>

section \<open>Errors and fields\<close>

datatype stack_error = PacketMalformed string | ProtocolNotSupported string | StackOther string

type_synonym field = "nat \<times> nat"
type_synonym bit_field = "nat \<times> (nat \<times> nat)"

definition field_of :: "bytes \<Rightarrow> field \<Rightarrow> (bytes, 'e) result" where
  "field_of data f = slice data (fst f) (snd f)"

definition range_len :: "nat \<times> nat \<Rightarrow> nat" where
  "range_len r = snd r - fst r"

text \<open>Shifts of a byte panic when the distance reaches the width.\<close>

definition shl8 :: "u8 \<Rightarrow> nat \<Rightarrow> (u8, 'e) result" where
  "shl8 b n = (if n < 8 then Ok (push_bit n b) else Panic)"

definition shr8 :: "u8 \<Rightarrow> nat \<Rightarrow> (u8, 'e) result" where
  "shr8 b n = (if n < 8 then Ok (drop_bit n b) else Panic)"

definition sub_usize :: "nat \<Rightarrow> nat \<Rightarrow> (nat, 'e) result" where
  "sub_usize a b = (if b \<le> a then Ok (a - b) else Panic)"

definition get_bit_field :: "bytes \<Rightarrow> bit_field \<Rightarrow> (u8, 'e) result" where
  "get_bit_field data bf =
     rbind (idx data (fst bf)) (\<lambda>b.
     rbind (shl8 b (fst (snd bf))) (\<lambda>x.
     rbind (sub_usize 8 (range_len (snd bf))) (\<lambda>n.
     shr8 x n)))"

definition set_bit_field :: "bytes \<Rightarrow> bit_field \<Rightarrow> u8 \<Rightarrow> (bytes, 'e) result" where
  "set_bit_field data bf v =
     rbind (sub_usize 8 (range_len (snd bf))) (\<lambda>n.
     rbind (shl8 0xFF n) (\<lambda>m.
     rbind (shr8 m (fst (snd bf))) (\<lambda>mask.
     rbind (idx data (fst bf)) (\<lambda>b.
     rbind (idx_set data (fst bf) (b AND NOT mask)) (\<lambda>data.
     rbind (shl8 v n) (\<lambda>x.
     rbind (shr8 x (fst (snd bf))) (\<lambda>x.
     rbind (idx data (fst bf)) (\<lambda>b.
     idx_set data (fst bf) (b OR x)))))))))"

definition read_bit_field :: "bytes \<Rightarrow> bit_field \<Rightarrow> (u8 option, 'e) result" where
  "read_bit_field data bf =
     (if length data \<ge> fst bf \<and> range_len (snd bf) \<le> 8
      then rbind (get_bit_field data bf) (\<lambda>v. Ok (Some v))
      else Ok None)"

definition write_bit_field :: "bytes \<Rightarrow> bit_field \<Rightarrow> u8 \<Rightarrow> (bool \<times> bytes, 'e) result" where
  "write_bit_field data bf v =
     (if length data \<ge> fst bf \<and> range_len (snd bf) \<le> 8
      then rbind (set_bit_field data bf v) (\<lambda>data. Ok (True, data))
      else Ok (False, data))"

text \<open>\<^verbatim>\<open>copy_from_slice\<close> into a field, which panics on a length mismatch.\<close>

definition copy_into_field :: "bytes \<Rightarrow> field \<Rightarrow> bytes \<Rightarrow> (bytes, 'e) result" where
  "copy_into_field data f v =
     rbind (field_of data f) (\<lambda>old.
       if length old = length v then Ok (take (fst f) data @ v @ drop (snd f) data) else Panic)"

definition write_field :: "bytes \<Rightarrow> field \<Rightarrow> bytes \<Rightarrow> (bool \<times> bytes, 'e) result" where
  "write_field data f v =
     (if length v = range_len f \<and> length data \<ge> snd f
      then rbind (copy_into_field data f v) (\<lambda>data. Ok (True, data))
      else Ok (False, data))"

definition ntoh_u16 :: "bytes \<Rightarrow> u16 option" where
  "ntoh_u16 data = (if length data = 2 then Some (from_be data) else None)"

definition ntoh_u32 :: "bytes \<Rightarrow> u32 option" where
  "ntoh_u32 data = (if length data = 4 then Some (from_be data) else None)"

definition ntoh_u64 :: "bytes \<Rightarrow> u64 option" where
  "ntoh_u64 data = (if length data = 8 then Some (from_be data) else None)"

definition unwrap_opt :: "'a option \<Rightarrow> ('a, 'e) result" where
  "unwrap_opt v = (case v of Some x \<Rightarrow> Ok x | None \<Rightarrow> Panic)"

section \<open>Protocol numbers\<close>

datatype protocol =
    HopByHop | Icmp | Igmp | Tcp | Egp | Igp | Udp | Rdp | Dccp | Ipv6Tun | Sdrp | Ipv6Route
  | Ipv6Frag | Ipv6Icmp | Ipv6NoNxt | Ipv6Opts | Ipcv | IpIp | IpComp | Smp | Sctp | Ethernet
  | NoProtocol

fun protocol_number :: "protocol \<Rightarrow> u8" where
  "protocol_number HopByHop = 0"
| "protocol_number Icmp = 1"
| "protocol_number Igmp = 2"
| "protocol_number Tcp = 6"
| "protocol_number Egp = 8"
| "protocol_number Igp = 9"
| "protocol_number Udp = 17"
| "protocol_number Rdp = 27"
| "protocol_number Dccp = 33"
| "protocol_number Ipv6Tun = 41"
| "protocol_number Sdrp = 42"
| "protocol_number Ipv6Route = 43"
| "protocol_number Ipv6Frag = 44"
| "protocol_number Ipv6Icmp = 58"
| "protocol_number Ipv6NoNxt = 59"
| "protocol_number Ipv6Opts = 60"
| "protocol_number Ipcv = 71"
| "protocol_number IpIp = 94"
| "protocol_number IpComp = 108"
| "protocol_number Smp = 121"
| "protocol_number Sctp = 132"
| "protocol_number Ethernet = 143"
| "protocol_number NoProtocol = 144"

definition all_protocols :: "protocol list" where
  "all_protocols = [HopByHop, Icmp, Igmp, Tcp, Egp, Igp, Udp, Rdp, Dccp, Ipv6Tun, Sdrp, Ipv6Route,
     Ipv6Frag, Ipv6Icmp, Ipv6NoNxt, Ipv6Opts, Ipcv, IpIp, IpComp, Smp, Sctp, Ethernet, NoProtocol]"

text \<open>The derived \<^verbatim>\<open>FromPrimitive\<close>: the variant whose discriminant is the number.\<close>

definition protocol_try_from :: "u8 \<Rightarrow> (protocol, u8) result" where
  "protocol_try_from v =
     (case List.find (\<lambda>p. protocol_number p = v) all_protocols of Some p \<Rightarrow> Ok p | None \<Rightarrow> Err v)"

section \<open>ICMPv6\<close>

datatype icmpv6_message =
    NdpRouterSolicitation
  | NdpRouterAdvertisement
  | NdpNeighborSolicitation bytes
  | NdpNeighborAdvertisement
  | NdpRedirect
  | IcmpOther

record icmpv6_packet =
  icmp_type :: u8
  icmp_message :: icmpv6_message

definition icmpv6_peek :: "bytes \<Rightarrow> (unit, stack_error) result" where
  "icmpv6_peek data =
     (let data_len = length data in
      if data_len < 4 then Err (PacketMalformed ''ICMPv6: packet too short'')
      else rbind (field_of data (0, 1)) (\<lambda>f. rbind (idx f 0) (\<lambda>t.
        if t = 135 then
          (if data_len < 4 + 16 then Err (PacketMalformed ''ICMPv6: payload too short'') else Ok ())
        else
          (if data_len < 4 then Err (PacketMalformed ''ICMPv6: payload too short'') else Ok ()))))"

definition icmpv6_packet_of :: "bytes \<Rightarrow> (icmpv6_packet, 'e) result" where
  "icmpv6_packet_of data =
     rbind (field_of data (0, 1)) (\<lambda>f. rbind (idx f 0) (\<lambda>t.
     rbind (slice_from data 4) (\<lambda>payload.
     rbind
       (if t = 133 then Ok NdpRouterSolicitation
        else if t = 134 then Ok NdpRouterAdvertisement
        else if t = 135 then rbind (field_of payload (4, 20)) (\<lambda>a. Ok (NdpNeighborSolicitation a))
        else if t = 136 then Ok NdpNeighborAdvertisement
        else if t = 137 then Ok NdpRedirect
        else Ok IcmpOther)
       (\<lambda>m. Ok \<lparr> icmp_type = t, icmp_message = m \<rparr>))))"

fun icmpv6_dst_address :: "icmpv6_message \<Rightarrow> bytes option" where
  "icmpv6_dst_address (NdpNeighborSolicitation a) = Some a"
| "icmpv6_dst_address _ = None"

section \<open>IP\<close>

record ipv4_packet =
  v4_src_address :: bytes
  v4_dst_address :: bytes
  v4_protocol :: u8
  v4_payload :: bytes
  v4_payload_off :: nat

datatype ipv6_next_header = NextIcmpV6 icmpv6_packet | NextOther

record ipv6_packet =
  v6_src_address :: bytes
  v6_dst_address :: bytes
  v6_protocol :: u8
  v6_payload :: bytes
  v6_next_header :: ipv6_next_header

datatype ip_packet = IpV4 ipv4_packet | IpV6 ipv6_packet

definition ipv4_read_header_len :: "bytes \<Rightarrow> (nat, 'e) result" where
  "ipv4_read_header_len data =
     rbind (get_bit_field data (0, (4, 8))) (\<lambda>ihl.
       if unat ihl \<ge> 5 then Ok (4 * unat ihl) else Ok 20)"

definition ipv4_peek :: "bytes \<Rightarrow> (unit, stack_error) result" where
  "ipv4_peek data =
     (if length data < 20 then Err (PacketMalformed ''IPv4: header too short'')
      else rbind (field_of data (2, 4)) (\<lambda>f. rbind (unwrap_opt (ntoh_u16 f)) (\<lambda>len.
        rbind (ipv4_read_header_len data) (\<lambda>payload_off.
          if unat len < payload_off then Err (PacketMalformed ''IPv4: payload too short'')
          else Ok ()))))"

definition ipv4_packet_of :: "bytes \<Rightarrow> (ipv4_packet, 'e) result" where
  "ipv4_packet_of data =
     rbind (ipv4_read_header_len data) (\<lambda>payload_off.
     rbind (field_of data (12, 16)) (\<lambda>src.
     rbind (field_of data (16, 20)) (\<lambda>dst.
     rbind (field_of data (9, 10)) (\<lambda>f. rbind (idx f 0) (\<lambda>proto.
     rbind (slice_from data payload_off) (\<lambda>payload.
     Ok \<lparr> v4_src_address = src, v4_dst_address = dst, v4_protocol = proto, v4_payload = payload,
          v4_payload_off = payload_off \<rparr>))))))"

definition ipv6_peek :: "bytes \<Rightarrow> (unit, stack_error) result" where
  "ipv6_peek data =
     (let data_len = length data in
      if data_len < 40 then Err (PacketMalformed ''IPv6: header too short'')
      else rbind (field_of data (4, 6)) (\<lambda>f. rbind (unwrap_opt (ntoh_u16 f)) (\<lambda>n.
        let len = 40 + unat n in
        if data_len < len then Err (PacketMalformed ''IPv6: payload too short'')
        else if len = 40 then Err (ProtocolNotSupported ''IPv6: jumbogram'')
        else
          rbind (field_of data (6, 7)) (\<lambda>f. rbind (idx f 0) (\<lambda>proto.
            if proto = 58 then rbind (slice_from data 40) icmpv6_peek else Ok ())))))"

definition ipv6_packet_of :: "bytes \<Rightarrow> (ipv6_packet, 'e) result" where
  "ipv6_packet_of data =
     rbind (slice_from data 40) (\<lambda>payload.
     rbind (field_of data (6, 7)) (\<lambda>f. rbind (idx f 0) (\<lambda>proto.
     rbind (if proto = 58 then rbind (icmpv6_packet_of payload) (\<lambda>p. Ok (NextIcmpV6 p))
            else Ok NextOther) (\<lambda>next_header.
     rbind (field_of data (8, 24)) (\<lambda>src.
     rbind (field_of data (24, 40)) (\<lambda>dst.
     Ok \<lparr> v6_src_address = src, v6_dst_address = dst, v6_protocol = proto, v6_payload = payload,
          v6_next_header = next_header \<rparr>))))))"

definition inferred_dst_address :: "ipv6_packet \<Rightarrow> bytes" where
  "inferred_dst_address ip =
     (case v6_next_header ip of
        NextIcmpV6 icmp \<Rightarrow>
          (case icmpv6_dst_address (icmp_message icmp) of Some a \<Rightarrow> a | None \<Rightarrow> v6_dst_address ip)
      | NextOther \<Rightarrow> v6_dst_address ip)"

definition ip_peek :: "bytes \<Rightarrow> (unit, stack_error) result" where
  "ip_peek data =
     rbind (idx data 0) (\<lambda>b.
       if drop_bit 4 b = 4 then ipv4_peek data
       else if drop_bit 4 b = 6 then ipv6_peek data
       else Err (PacketMalformed ''IP: invalid version''))"

definition ip_packet_of :: "bytes \<Rightarrow> (ip_packet, 'e) result" where
  "ip_packet_of data =
     rbind (idx data 0) (\<lambda>b.
       if drop_bit 4 b = 4 then rbind (ipv4_packet_of data) (\<lambda>p. Ok (IpV4 p))
       else rbind (ipv6_packet_of data) (\<lambda>p. Ok (IpV6 p)))"

fun ip_protocol :: "ip_packet \<Rightarrow> u8" where
  "ip_protocol (IpV4 ip) = v4_protocol ip"
| "ip_protocol (IpV6 ip) = v6_protocol ip"

fun ip_src_address :: "ip_packet \<Rightarrow> bytes" where
  "ip_src_address (IpV4 ip) = v4_src_address ip"
| "ip_src_address (IpV6 ip) = v6_src_address ip"

fun ip_dst_address :: "ip_packet \<Rightarrow> bytes" where
  "ip_dst_address (IpV4 ip) = v4_dst_address ip"
| "ip_dst_address (IpV6 ip) = inferred_dst_address ip"

fun ip_payload :: "ip_packet \<Rightarrow> bytes" where
  "ip_payload (IpV4 ip) = v4_payload ip"
| "ip_payload (IpV6 ip) = v6_payload ip"

fun ip_payload_off :: "ip_packet \<Rightarrow> nat" where
  "ip_payload_off (IpV4 ip) = v4_payload_off ip"
| "ip_payload_off (IpV6 ip) = 40"

fun ip_is_broadcast :: "ip_packet \<Rightarrow> (bool, 'e) result" where
  "ip_is_broadcast (IpV4 ip) =
     rbind (slice (v4_dst_address ip) 0 4) (\<lambda>a. Ok (a = [255, 255, 255, 255]))"
| "ip_is_broadcast (IpV6 _) = Ok False"

fun ip_is_multicast :: "ip_packet \<Rightarrow> (bool, 'e) result" where
  "ip_is_multicast (IpV4 ip) = rbind (idx (v4_dst_address ip) 0) (\<lambda>b. Ok (b AND 0xF0 = 224))"
| "ip_is_multicast (IpV6 ip) = rbind (idx (v6_dst_address ip) 0) (\<lambda>b. Ok (b = 0xFF))"

section \<open>TCP and UDP\<close>

record tcp_packet =
  tcp_src_port :: bytes
  tcp_dst_port :: bytes
  tcp_payload_off :: nat
  tcp_payload_size :: nat

definition tcp_peek :: "bytes \<Rightarrow> (unit, stack_error) result" where
  "tcp_peek data =
     (if length data < 20 then Err (PacketMalformed ''TCP: packet too short'')
      else rbind (get_bit_field data (12, (0, 4))) (\<lambda>off.
        if length data < unat off then Err (PacketMalformed ''TCP: packet too short'') else Ok ()))"

definition tcp_packet_of :: "bytes \<Rightarrow> (tcp_packet, 'e) result" where
  "tcp_packet_of data =
     rbind (get_bit_field data (12, (0, 4))) (\<lambda>off.
     let payload_size = length data - unat off in
     rbind (field_of data (0, 2)) (\<lambda>s. rbind (field_of data (2, 4)) (\<lambda>d.
     Ok \<lparr> tcp_src_port = s, tcp_dst_port = d, tcp_payload_off = unat off,
          tcp_payload_size = payload_size \<rparr>)))"

definition ip_to_tcp :: "ip_packet \<Rightarrow> (tcp_packet option, 'e) result" where
  "ip_to_tcp ip =
     (if ip_protocol ip = 6 then rbind (tcp_packet_of (ip_payload ip)) (\<lambda>t. Ok (Some t))
      else Ok None)"

record udp_packet =
  udp_src_port :: bytes
  udp_dst_port :: bytes
  udp_payload_size :: nat

definition udp_peek :: "bytes \<Rightarrow> (unit, stack_error) result" where
  "udp_peek data =
     (if length data < 8 then Err (PacketMalformed ''UDP: packet too short'')
      else rbind (field_of data (4, 6)) (\<lambda>f. rbind (unwrap_opt (ntoh_u16 f)) (\<lambda>len.
        if length data < unat len then Err (PacketMalformed ''UDP: packet too short'') else Ok ())))"

definition udp_packet_of :: "bytes \<Rightarrow> (udp_packet, 'e) result" where
  "udp_packet_of data =
     (let payload_size = length data - 8 in
      rbind (field_of data (0, 2)) (\<lambda>s. rbind (field_of data (2, 4)) (\<lambda>d.
      Ok \<lparr> udp_src_port = s, udp_dst_port = d, udp_payload_size = payload_size \<rparr>)))"

definition port_of :: "bytes \<Rightarrow> (u16, 'e) result" where
  "port_of f = unwrap_opt (ntoh_u16 f)"

section \<open>ARP and Ethernet\<close>

definition arp_peek :: "bytes \<Rightarrow> (unit, stack_error) result" where
  "arp_peek data =
     (if length data < 28 then Err (PacketMalformed ''ARP: packet too short'') else Ok ())"

definition arp_get_field :: "bytes \<Rightarrow> field \<Rightarrow> (bytes, 'e) result" where
  "arp_get_field inner f = field_of inner f"

definition arp_set_field :: "bytes \<Rightarrow> field \<Rightarrow> bytes \<Rightarrow> (bytes, 'e) result" where
  "arp_set_field inner f v =
     rbind (slice v 0 (snd f)) (\<lambda>v. copy_into_field inner f v)"

datatype ether_type = EtherIp | EtherArp

datatype ether_frame = FrameIp bytes | FrameArp bytes

definition hex_digit :: "nat \<Rightarrow> char" where
  "hex_digit n = ''0123456789abcdef'' ! (n mod 16)"

definition hex_byte :: "u8 \<Rightarrow> string" where
  "hex_byte b = [hex_digit (unat b div 16), hex_digit (unat b mod 16)]"

fun hex_list :: "bytes \<Rightarrow> string" where
  "hex_list [] = []"
| "hex_list [b] = hex_byte b"
| "hex_list (b # bs) = hex_byte b @ '', '' @ hex_list bs"

definition ether_peek_type :: "bytes \<Rightarrow> (ether_type, stack_error) result" where
  "ether_peek_type data =
     (if length data < 14 then Err (PacketMalformed ''Ethernet: frame too short'')
      else rbind (field_of data (12, 14)) (\<lambda>proto.
        if proto = [0x08, 0x00] \<or> proto = [0x86, 0xDD] then
          rbind (slice_from data 14) (\<lambda>d. rbind (ip_peek d) (\<lambda>_. Ok EtherIp))
        else if proto = [0x08, 0x06] then
          rbind (slice_from data 14) (\<lambda>d. rbind (arp_peek d) (\<lambda>_. Ok EtherArp))
        else Err (ProtocolNotSupported (''0x['' @ hex_list proto @ '']''))))"

definition ether_peek_payload :: "bytes \<Rightarrow> (bytes, stack_error) result" where
  "ether_peek_payload data =
     (if length data < 14 then Err (PacketMalformed ''Ethernet: frame too short'')
      else slice_from data 14)"

definition ether_frame_try_from :: "bytes \<Rightarrow> (ether_frame, stack_error) result" where
  "ether_frame_try_from data =
     rbind (ether_peek_type data) (\<lambda>t.
       case t of EtherIp \<Rightarrow> Ok (FrameIp data) | EtherArp \<Rightarrow> Ok (FrameArp data))"

fun ether_frame_bytes :: "ether_frame \<Rightarrow> bytes" where
  "ether_frame_bytes (FrameIp b) = b"
| "ether_frame_bytes (FrameArp b) = b"

definition ether_frame_payload :: "ether_frame \<Rightarrow> (bytes, 'e) result" where
  "ether_frame_payload f = slice_from (ether_frame_bytes f) 14"

section \<open>Addresses\<close>

text \<open>The stack's addresses (\<^verbatim>\<open>smoltcp::wire::IpAddress\<close>) by their bytes.\<close>

datatype ip_address = AddrV4 bytes | AddrV6 bytes

fun ip_hton :: "ip_address \<Rightarrow> bytes" where
  "ip_hton (AddrV4 b) = b"
| "ip_hton (AddrV6 b) = b"

definition ip_ntoh :: "bytes \<Rightarrow> ip_address option" where
  "ip_ntoh data =
     (if length data = 4 then Some (AddrV4 data)
      else if length data = 16 then Some (AddrV6 data)
      else None)"

section \<open>Bit fields\<close>

text \<open>A bit range of a byte that is not empty.\<close>

definition bit_range_ok :: "nat \<times> nat \<Rightarrow> bool" where
  "bit_range_ok r \<longleftrightarrow> fst r < snd r \<and> snd r \<le> 8"

lemma u8_all_ones: "(0xFF :: u8) = -1"
  by simp

definition updated_byte :: "nat \<times> nat \<Rightarrow> u8 \<Rightarrow> u8 \<Rightarrow> u8" where
  "updated_byte r b v =
     (let n = 8 - range_len r in
      (b AND NOT (drop_bit (fst r) (push_bit n 0xFF))) OR drop_bit (fst r) (push_bit n v))"

lemma set_bit_field_ok:
  assumes "bit_range_ok r" "i < length data"
  shows "set_bit_field data (i, r) v = Ok (data[i := updated_byte r (data ! i) v])"
  using assms
  by (auto simp: set_bit_field_def bit_range_ok_def range_len_def sub_usize_def shl8_def shr8_def
      idx_def idx_set_def updated_byte_def Let_def)

lemma get_bit_field_ok:
  assumes "bit_range_ok r" "i < length data"
  shows "get_bit_field data (i, r) = Ok (drop_bit (8 - range_len r) (push_bit (fst r) (data ! i)))"
  using assms
  by (auto simp: get_bit_field_def bit_range_ok_def range_len_def sub_usize_def shl8_def shr8_def idx_def)

lemma get_updated_byte:
  assumes "bit_range_ok r"
  shows "drop_bit (8 - range_len r) (push_bit (fst r) (updated_byte r b v)) = take_bit (range_len r) v"
proof (rule bit_word_eqI)
  fix k
  assume "k < LENGTH(8)"
  then show "bit (drop_bit (8 - range_len r) (push_bit (fst r) (updated_byte r b v))) k
      = bit (take_bit (range_len r) v) k"
    using assms unfolding updated_byte_def u8_all_ones Let_def
    by (auto simp: bit_simps bit_range_ok_def range_len_def bit_minus_1_iff) 
qed

lemma updated_byte_other_bits:
  assumes "bit_range_ok r" "k < 8" "k < 8 - snd r \<or> 8 - fst r \<le> k"
  shows "bit (updated_byte r b v) k = bit b k"
  using assms unfolding updated_byte_def u8_all_ones Let_def
  by (auto simp: bit_simps bit_range_ok_def range_len_def bit_minus_1_iff)

section \<open>Peeking before reading\<close>

text \<open>
  The contract of the \<open>PeekPacket\<close> trait as its callers use it: \<open>peek\<close> is total, and bytes it
  accepts can be read.
\<close>

locale peek_packet =
  fixes peek :: "bytes \<Rightarrow> (unit, stack_error) result"
    and packet :: "bytes \<Rightarrow> ('p, stack_error) result"
  assumes peek_no_panic: "peek d \<noteq> Panic"
    and packet_after_peek: "peek d = Ok () \<Longrightarrow> \<exists>p. packet d = Ok p"
begin

lemma checked_no_panic: "rbind (peek d) (\<lambda>_. packet d) \<noteq> Panic"
proof (cases "peek d")
  case (Ok u)
  then show ?thesis using packet_after_peek [of d] by auto
next
  case Panic
  then show ?thesis using peek_no_panic by blast
qed simp

end

lemmas packet_reads = field_of_def slice_def slice_from_def idx_def unwrap_opt_def ntoh_u16_def Let_def

lemma get_bit_field_in:
  "i < length data \<Longrightarrow> s < e \<Longrightarrow> e \<le> 8 \<Longrightarrow>
   get_bit_field data (i, (s, e)) = Ok (drop_bit (8 - (e - s)) (push_bit s (data ! i)))"
  using get_bit_field_ok [of "(s, e)" i data] by (simp add: bit_range_ok_def range_len_def)

lemma ipv4_read_header_len_ok:
  assumes "data \<noteq> []"
  shows "\<exists>h. ipv4_read_header_len data = Ok h \<and> 20 \<le> h"
  using assms by (auto simp: ipv4_read_header_len_def get_bit_field_in)

lemma ipv4_peek_no_panic: "ipv4_peek d \<noteq> Panic"
proof (cases "length d < 20")
  case False
  then have "d \<noteq> []" by auto
  then obtain h where "ipv4_read_header_len d = (Ok h :: (nat, stack_error) result)"
    using ipv4_read_header_len_ok by blast
  then show ?thesis by (auto simp: ipv4_peek_def packet_reads)
qed (simp add: ipv4_peek_def)

lemma icmpv6_peek_no_panic: "icmpv6_peek d \<noteq> Panic"
  by (auto simp: icmpv6_peek_def packet_reads)

lemma ipv6_peek_no_panic: "ipv6_peek d \<noteq> Panic"
  by (auto simp: ipv6_peek_def packet_reads icmpv6_peek_no_panic)

lemma ip_peek_panic_iff: "ip_peek d = Panic \<longleftrightarrow> d = []"
  by (auto simp: ip_peek_def idx_def ipv4_peek_no_panic ipv6_peek_no_panic)

lemma arp_peek_no_panic: "arp_peek d \<noteq> Panic"
  by (simp add: arp_peek_def)

interpretation tcp: peek_packet tcp_peek tcp_packet_of
proof
  show "tcp_peek d \<noteq> Panic" for d
    by (auto simp: tcp_peek_def get_bit_field_in)
  show "tcp_peek d = Ok () \<Longrightarrow> \<exists>p. tcp_packet_of d = Ok p" for d
    by (auto simp: tcp_peek_def tcp_packet_of_def get_bit_field_in packet_reads split: if_splits)
qed

interpretation udp: peek_packet udp_peek udp_packet_of
proof
  show "udp_peek d \<noteq> Panic" for d
    by (auto simp: udp_peek_def packet_reads)
  show "udp_peek d = Ok () \<Longrightarrow> \<exists>p. udp_packet_of d = Ok p" for d
    by (auto simp: udp_peek_def udp_packet_of_def packet_reads split: if_splits)
qed

lemma ipv4_packet_of_panic_iff:
  assumes "ipv4_peek d = Ok ()"
  shows "ipv4_packet_of d = Panic \<longleftrightarrow>
    (\<exists>h. ipv4_read_header_len d = (Ok h :: (nat, stack_error) result) \<and> length d < h)"
proof -
  have l: "20 \<le> length d" using assms by (auto simp: ipv4_peek_def split: if_splits)
  then have "d \<noteq> []" by auto
  then show ?thesis
    using l by (auto simp: ipv4_packet_of_def ipv4_read_header_len_def get_bit_field_in packet_reads)
qed

lemma ipv4_packet_of_Ok:
  assumes "ipv4_packet_of d = Ok p"
  shows "v4_src_address p = take 4 (drop 12 d) \<and> v4_dst_address p = take 4 (drop 16 d)
    \<and> v4_protocol p = d ! 9 \<and> v4_payload p = drop (v4_payload_off p) d \<and> 20 \<le> v4_payload_off p"
  using assms
  by (auto simp: ipv4_packet_of_def ipv4_read_header_len_def rbind_eq_Ok_iff packet_reads
      split: if_splits)

lemma icmpv6_packet_of_panic_iff:
  assumes "icmpv6_peek d = Ok ()"
  shows "icmpv6_packet_of d = Panic \<longleftrightarrow> d ! 0 = 135 \<and> length d < 24"
  using assms
  by (auto simp: icmpv6_peek_def icmpv6_packet_of_def packet_reads split: if_splits)

lemma ipv6_packet_of_panic_iff:
  assumes "ipv6_peek d = Ok ()"
  shows "ipv6_packet_of d = Panic \<longleftrightarrow> d ! 6 = 58 \<and> d ! 40 = 135 \<and> length d < 64"
proof -
  have l: "40 < length d" using assms
    by (auto simp: ipv6_peek_def packet_reads split: if_splits)
  show ?thesis
  proof (cases "d ! 6 = 58")
    case True
    then have "icmpv6_peek (drop 40 d) = Ok ()"
      using assms l by (auto simp: ipv6_peek_def packet_reads split: if_splits)
    then show ?thesis
      using True l icmpv6_packet_of_panic_iff [of "drop 40 d"]
      by (auto simp: ipv6_packet_of_def packet_reads rbind_eq_Panic_iff nth_drop)
  next
    case False
    then show ?thesis using l by (auto simp: ipv6_packet_of_def packet_reads)
  qed
qed

interpretation arp: peek_packet arp_peek "\<lambda>d. arp_get_field d (24, 28)"
  by unfold_locales (auto simp: arp_peek_def arp_get_field_def packet_reads split: if_splits)

section \<open>Properties\<close>

text \<open>
  writing a bit field and reading it back yields the value cut to the width of the field; the
  bits outside the field and all other bytes keep their values.
\<close>

theorem bit_field_roundtrip:
  assumes "bit_range_ok r" "i < length data"
  shows "\<exists>data'. set_bit_field data (i, r) v = (Ok data' :: (bytes, stack_error) result)
    \<and> get_bit_field data' (i, r) = (Ok (take_bit (range_len r) v) :: (u8, stack_error) result)
    \<and> length data' = length data \<and> (\<forall>j. j \<noteq> i \<longrightarrow> data' ! j = data ! j)
    \<and> (\<forall>k < 8. k < 8 - snd r \<or> 8 - fst r \<le> k \<longrightarrow> bit (data' ! i) k = bit (data ! i) k)"
  using assms
  by (intro exI [of _ "data[i := updated_byte r (data ! i) v]"])
     (simp add: set_bit_field_ok get_bit_field_ok get_updated_byte updated_byte_other_bits)

theorem bit_field_roundtrip_witness:
  "\<exists>data'. set_bit_field [0xAB, 0xCD] (1, (2, 5)) 0xFF = (Ok data' :: (bytes, stack_error) result)
    \<and> get_bit_field data' (1, (2, 5)) = (Ok 7 :: (u8, stack_error) result)
    \<and> length data' = 2 \<and> data' ! 0 = 0xAB \<and> bit (data' ! 1) 7 \<and> \<not> bit (data' ! 1) 1"
proof -
  have "bit_range_ok (2, 5)" by (simp add: bit_range_ok_def)
  from bit_field_roundtrip [OF this, of 1 "[0xAB, 0xCD]" "0xFF"]
  obtain data' where
    d: "set_bit_field [0xAB, 0xCD] (1, (2, 5)) 0xFF = (Ok data' :: (bytes, stack_error) result)"
      "get_bit_field data' (1, (2, 5)) = (Ok (take_bit (range_len (2, 5)) 0xFF) :: (u8, stack_error) result)"
      "length data' = length [0xAB :: u8, 0xCD]"
    and o: "\<forall>j. j \<noteq> 1 \<longrightarrow> data' ! j = [0xAB, 0xCD] ! j"
    and b: "\<forall>k < 8. k < 8 - snd (2, 5) \<or> 8 - fst (2 :: nat, 5 :: nat) \<le> k \<longrightarrow>
      bit (data' ! 1) k = bit ([0xAB, 0xCD :: u8] ! 1) k"
    by auto
  have "bit (0xCD :: u8) 7" "\<not> bit (0xCD :: u8) 1" by simp_all
  then show ?thesis
    using d o [rule_format, of 0] b [rule_format, of 7] b [rule_format, of 1]
    by (intro exI [of _ data']) (simp add: range_len_def)
qed

text \<open>
  classifying an Ethernet frame panics on exactly one kind of input, a frame with an IP ether
  type and no payload, where the first byte of the missing packet is read.
\<close>

theorem ether_peek_type_panics_iff:
  "ether_peek_type data = Panic \<longleftrightarrow>
     length data = 14 \<and> (drop 12 data = [0x08, 0x00] \<or> drop 12 data = [0x86, 0xDD])"
  by (auto simp: ether_peek_type_def field_of_def slice_def slice_from_def rbind_eq_Panic_iff
      ip_peek_panic_iff arp_peek_no_panic split: if_splits)

text \<open>
  C30: reading an IP packet that \<open>peek\<close> has accepted panics in exactly two cases: an IPv4 header
  length beyond the data, which \<open>peek\<close> compares with the announced length only, and an ICMPv6
  neighbour solicitation shorter than its fixed part, for which \<open>peek\<close> asks for four bytes too few.
\<close>

theorem ip_packet_after_peek:
  assumes "ip_peek data = Ok ()"
  shows "(ip_packet_of data :: (ip_packet, stack_error) result) = Panic \<longleftrightarrow>
     drop_bit 4 (data ! 0) = 4 \<and>
       (\<exists>h. ipv4_read_header_len data = (Ok h :: (nat, stack_error) result) \<and> length data < h)
   \<or> drop_bit 4 (data ! 0) \<noteq> 4 \<and> data ! 6 = 58 \<and> data ! 40 = 135 \<and> length data < 64"
proof -
  have ne: "data \<noteq> []" using assms by (auto simp: ip_peek_def idx_def)
  have s: "rbind m (\<lambda>p. Ok (c p)) = Panic \<longleftrightarrow> m = Panic" for m :: "('x, stack_error) result"
    and c :: "'x \<Rightarrow> ip_packet"
    by (cases m) auto
  show ?thesis
  proof (cases "drop_bit 4 (data ! 0) = 4")
    case True
    then have "ipv4_peek data = Ok ()" using assms ne by (simp add: ip_peek_def idx_def)
    then show ?thesis
      using True ne ipv4_packet_of_panic_iff [of data] by (simp add: ip_packet_of_def idx_def s)
  next
    case False
    then have "ipv6_peek data = Ok ()"
      using assms ne by (auto simp: ip_peek_def idx_def split: if_splits)
    then show ?thesis
      using False ne ipv6_packet_of_panic_iff [of data] by (simp add: ip_packet_of_def idx_def s)
  qed
qed

definition truncated_ipv4 :: bytes where
  "truncated_ipv4 = [0x46, 0, 0, 24] @ replicate 16 0"

theorem ip_packet_after_peek_witness:
  "ip_peek truncated_ipv4 = Ok ()
   \<and> (ip_packet_of truncated_ipv4 :: (ip_packet, stack_error) result) = Panic"
proof -
  have p: "ip_peek truncated_ipv4 = Ok ()" by code_simp
  have "drop_bit 4 (truncated_ipv4 ! 0) = 4" by code_simp
  moreover have "ipv4_read_header_len truncated_ipv4 = (Ok 24 :: (nat, stack_error) result)"
    by code_simp
  moreover have "length truncated_ipv4 < 24" by (simp add: truncated_ipv4_def)
  ultimately show ?thesis using ip_packet_after_peek [OF p] p by blast
qed

text \<open>
  for TCP and UDP the check is enough: after a successful \<open>peek\<close> the packet is read without a
  panic and the ports are the first two and the next two bytes, in network order.
\<close>

theorem transport_ports_after_peek:
  assumes "tcp_peek t = Ok ()" "udp_peek u = Ok ()"
  shows "\<exists>p q. tcp_packet_of t = (Ok p :: (tcp_packet, stack_error) result)
    \<and> udp_packet_of u = (Ok q :: (udp_packet, stack_error) result)
    \<and> port_of (tcp_src_port p) = (Ok (from_be (take 2 t)) :: (u16, stack_error) result)
    \<and> port_of (tcp_dst_port p) = (Ok (from_be (take 2 (drop 2 t))) :: (u16, stack_error) result)
    \<and> port_of (udp_src_port q) = (Ok (from_be (take 2 u)) :: (u16, stack_error) result)
    \<and> port_of (udp_dst_port q) = (Ok (from_be (take 2 (drop 2 u))) :: (u16, stack_error) result)
    \<and> tcp_payload_off p + tcp_payload_size p = length t \<and> udp_payload_size q + 8 = length u"
proof -
  obtain p q where "tcp_packet_of t = (Ok p :: (tcp_packet, stack_error) result)"
      "udp_packet_of u = (Ok q :: (udp_packet, stack_error) result)"
    using tcp.packet_after_peek [OF assms(1)] udp.packet_after_peek [OF assms(2)] by blast
  then show ?thesis
    using assms by (intro exI [of _ p] exI [of _ q])
      (auto simp: tcp_peek_def udp_peek_def tcp_packet_of_def udp_packet_of_def get_bit_field_in
        port_of_def packet_reads split: if_splits)
qed

theorem transport_ports_after_peek_witness:
  "\<exists>p q. tcp_packet_of ([0x1F, 0x90, 0, 80] @ replicate 8 0 @ [0x50] @ replicate 7 0)
        = (Ok p :: (tcp_packet, stack_error) result)
    \<and> udp_packet_of [0, 53, 4, 210, 0, 8, 0, 0] = (Ok q :: (udp_packet, stack_error) result)
    \<and> port_of (tcp_src_port p) = (Ok 8080 :: (u16, stack_error) result)
    \<and> port_of (udp_dst_port q) = (Ok 1234 :: (u16, stack_error) result)"
proof -
  let ?t = "[0x1F, 0x90, 0, 80] @ replicate 8 0 @ [0x50] @ replicate 7 0 :: bytes"
  let ?u = "[0, 53, 4, 210, 0, 8, 0, 0] :: bytes"
  have "tcp_peek ?t = Ok ()" "udp_peek ?u = Ok ()" by code_simp+
  from transport_ports_after_peek [OF this] show ?thesis
    by (elim exE conjE) (intro exI conjI, assumption+, simp_all add: from_be_def)
qed

text \<open>
  \<open>ArpPacketMut::set_field\<close> cannot set any field but the first: it cuts the value to the end of the
  field's range instead of its length, so for a field that does not start at offset 0 it panics
  whatever the value is.
\<close>

theorem arp_set_field_panics:
  assumes "0 < fst f" "fst f \<le> snd f"
  shows "(arp_set_field inner f v :: (bytes, stack_error) result) = Panic"
  using assms
  by (auto simp: arp_set_field_def copy_into_field_def field_of_def slice_def)

theorem arp_set_field_panics_witness:
  "(arp_set_field (replicate 28 0) (6, 8) [0, 2] :: (bytes, stack_error) result) = Panic"
  by (rule arp_set_field_panics) simp_all

text \<open>
  the guard of the checked bit-field accessors is off by one: a field in the byte right after the
  end of the data passes it and the access panics.
\<close>

theorem bit_field_guard_off_by_one:
  assumes "bit_range_ok r"
  shows "(read_bit_field data (length data, r) :: (u8 option, stack_error) result) = Panic
    \<and> (write_bit_field data (length data, r) v :: (bool \<times> bytes, stack_error) result) = Panic"
  using assms
  by (auto simp: read_bit_field_def write_bit_field_def get_bit_field_def set_bit_field_def
      bit_range_ok_def range_len_def sub_usize_def shl8_def shr8_def idx_def)

theorem bit_field_guard_off_by_one_witness:
  "(read_bit_field [] (length ([] :: bytes), (0, 4)) :: (u8 option, stack_error) result) = Panic
    \<and> (write_bit_field [] (length ([] :: bytes), (0, 4)) 1 :: (bool \<times> bytes, stack_error) result) = Panic"
  by (rule bit_field_guard_off_by_one) (simp add: bit_range_ok_def)

end
