(* ===== verification/Ports.thy ===== *)
theory Ports
  imports Net_Packet
begin

text \<open>
  The port allocator of the virtual stack, \<^verbatim>\<open>crates/stack/src/port.rs\<close>: per protocol the set of
  taken ports, a linear search from a random start, reservation and release. The random start is an
  argument; the sampler draws it from the range of allocatable ports.
\<close>

type_synonym allocator = "protocol \<rightharpoonup> u16 set"

definition RANGE_START :: u16 where "RANGE_START = 1000"
definition RANGE_LEN :: nat where "RANGE_LEN = 64536"

definition taken_ports :: "allocator \<Rightarrow> protocol \<Rightarrow> u16 set" where
  "taken_ports a p = (case a p of None \<Rightarrow> {} | Some s \<Rightarrow> s)"

primrec next_loop :: "nat \<Rightarrow> u16 \<Rightarrow> u16 set \<Rightarrow> u16 option" where
  "next_loop 0 port taken = None"
| "next_loop (Suc num) port taken =
     (if port \<notin> taken then Some port
      else next_loop num (max RANGE_START (port + 1)) taken)"

definition port_next :: "u16 \<Rightarrow> allocator \<Rightarrow> protocol \<Rightarrow> (u16, stack_error) result \<times> allocator" where
  "port_next sample a p =
     (let taken = taken_ports a p in
      case next_loop RANGE_LEN sample taken of
        Some port \<Rightarrow> (Ok port, a(p \<mapsto> insert port taken))
      | None \<Rightarrow> (Err (StackOther ''no ports available''), a(p \<mapsto> taken)))"

text \<open>The message carries the port number; it is not kept here.\<close>

definition port_reserve :: "allocator \<Rightarrow> protocol \<Rightarrow> u16 \<Rightarrow> (unit, stack_error) result \<times> allocator" where
  "port_reserve a p port =
     (let entry = taken_ports a p in
      if port \<in> entry then (Err (StackOther ''port is unavailable''), a(p \<mapsto> entry))
      else (Ok (), a(p \<mapsto> insert port entry)))"

definition port_free :: "allocator \<Rightarrow> protocol \<Rightarrow> u16 \<Rightarrow> allocator" where
  "port_free a p port = a(p \<mapsto> taken_ports a p - {port})"

section \<open>The search\<close>

text \<open>
  Counting the search positions from the start of the range turns the wrap-around successor into the
  successor modulo the length of the range.
\<close>

definition in_range :: "u16 \<Rightarrow> bool" where
  "in_range port \<longleftrightarrow> RANGE_START \<le> port"

definition succ_port :: "u16 \<Rightarrow> u16" where
  "succ_port port = max RANGE_START (port + 1)"

definition offset :: "u16 \<Rightarrow> nat" where
  "offset port = unat port - 1000"

lemma in_range_unat: "in_range port \<longleftrightarrow> 1000 \<le> unat port"
  by (simp add: in_range_def RANGE_START_def word_le_nat_alt)

lemma in_range_succ: "in_range (succ_port port)"
  by (simp add: in_range_def succ_port_def)

lemma offset_lt: "offset port < RANGE_LEN"
  using unat_u16_lt [of port] by (simp add: offset_def RANGE_LEN_def)

lemma offset_inj: "in_range a \<Longrightarrow> in_range b \<Longrightarrow> offset a = offset b \<Longrightarrow> a = b"
  by (simp add: in_range_unat offset_def word_unat_eq_iff)

lemma offset_succ:
  assumes "in_range port"
  shows "offset (succ_port port) = Suc (offset port) mod RANGE_LEN"
proof (cases "unat port = 65535")
  case True
  then have "port = 65535" by (simp add: word_unat_eq_iff)
  then show ?thesis
    by (simp add: succ_port_def RANGE_START_def RANGE_LEN_def offset_def)
next
  case False
  then have lt: "unat port < 65535" using unat_u16_lt [of port] by simp
  then have u: "unat (port + 1) = Suc (unat port)"
    by (simp add: unat_word_ariths)
  then have "max RANGE_START (port + 1) = port + 1"
    using assms by (simp add: RANGE_START_def in_range_unat max_def word_le_nat_alt)
  then show ?thesis
    using u lt assms by (simp add: succ_port_def offset_def RANGE_LEN_def in_range_unat)
qed

lemma next_loop_Some:
  assumes "next_loop n port taken = Some q" "in_range port"
  shows "q \<notin> taken \<and> in_range q"
  using assms in_range_succ
  by (induction n arbitrary: port) (auto simp: succ_port_def split: if_splits)

lemma next_loop_None:
  assumes "next_loop n port taken = None" "in_range port"
    and "in_range q" "(offset q + RANGE_LEN - offset port) mod RANGE_LEN < n"
  shows "q \<in> taken"
  using assms
proof (induction n arbitrary: port)
  case (Suc n)
  show ?case
  proof (cases "q = port")
    case True
    then show ?thesis using Suc.prems(1) by (auto split: if_splits)
  next
    case False
    let ?R = "RANGE_LEN"
    have t: "port \<in> taken" "next_loop n (succ_port port) taken = None"
      using Suc.prems(1) by (auto simp: succ_port_def split: if_splits)
    have ne: "offset q \<noteq> offset port" using False offset_inj Suc.prems(2,3) by blast
    have "(offset q + ?R - offset (succ_port port)) mod ?R
        = (offset q + ?R - offset port) mod ?R - 1"
      using ne offset_lt [of q] offset_lt [of port] offset_succ [OF Suc.prems(2)]
      by (cases "Suc (offset port) = ?R"; cases "offset port < offset q")
         (auto simp: mod_if RANGE_LEN_def)
    moreover have "0 < (offset q + ?R - offset port) mod ?R"
      using ne offset_lt [of q] offset_lt [of port] by (auto simp: mod_if RANGE_LEN_def)
    ultimately have "(offset q + ?R - offset (succ_port port)) mod ?R < n"
      using Suc.prems(4) by linarith
    then show ?thesis using Suc.IH [OF t(2) in_range_succ Suc.prems(3)] by blast
  qed
qed simp

lemma next_loop_complete:
  assumes "in_range port"
  shows "next_loop RANGE_LEN port taken = None \<longleftrightarrow> (\<forall>q. in_range q \<longrightarrow> q \<in> taken)"
proof
  assume "next_loop RANGE_LEN port taken = None"
  then show "\<forall>q. in_range q \<longrightarrow> q \<in> taken"
    using next_loop_None [OF _ assms] by (auto simp: RANGE_LEN_def)
next
  assume all: "\<forall>q. in_range q \<longrightarrow> q \<in> taken"
  show "next_loop RANGE_LEN port taken = None"
  proof (rule ccontr)
    assume "next_loop RANGE_LEN port taken \<noteq> None"
    then obtain q where "next_loop RANGE_LEN port taken = Some q" by blast
    then show False using next_loop_Some assms all by blast
  qed
qed

section \<open>An allocator of numbered resources\<close>

text \<open>The interface the socket layer uses: taken resources, acquisition, release.\<close>

locale resource_pool =
  fixes taken :: "'s \<Rightarrow> 'r set"
    and acquire :: "'s \<Rightarrow> ('r, 'e) result \<times> 's"
    and reserve :: "'s \<Rightarrow> 'r \<Rightarrow> (unit, 'e) result \<times> 's"
    and release :: "'s \<Rightarrow> 'r \<Rightarrow> 's"
  assumes acquire_fresh: "acquire s = (Ok r, s') \<Longrightarrow> r \<notin> taken s \<and> taken s' = insert r (taken s)"
    and acquire_err: "acquire s = (Err e, s') \<Longrightarrow> taken s' = taken s"
    and reserve_iff: "fst (reserve s r) = Ok () \<longleftrightarrow> r \<notin> taken s"
    and taken_reserve: "taken (snd (reserve s r)) = insert r (taken s)"
    and taken_release: "taken (release s r) = taken s - {r}"
begin

lemma acquire_then_reserve_fails:
  "acquire s = (Ok r, s') \<Longrightarrow> fst (reserve s' r) \<noteq> Ok ()"
  using acquire_fresh reserve_iff by blast

lemma release_then_reserve: "fst (reserve (release s r) r) = Ok ()"
  by (simp add: reserve_iff taken_release)

lemma acquire_twice_distinct:
  "acquire s = (Ok r, s') \<Longrightarrow> acquire s' = (Ok q, s'') \<Longrightarrow> q \<noteq> r"
  using acquire_fresh by blast

end

lemma taken_ports_upd [simp]: "taken_ports (a(p \<mapsto> s)) q = (if q = p then s else taken_ports a q)"
  by (simp add: taken_ports_def)

definition clamp_port :: "u16 \<Rightarrow> u16" where
  "clamp_port s = max RANGE_START s"

lemma in_range_clamp [simp]: "in_range (clamp_port s)"
  by (simp add: in_range_def clamp_port_def)

interpretation ports: resource_pool "\<lambda>a. taken_ports a p" "\<lambda>a. port_next (clamp_port s) a p"
    "\<lambda>a. port_reserve a p" "\<lambda>a. port_free a p"
proof
  show "r \<notin> taken_ports a p \<and> taken_ports a' p = insert r (taken_ports a p)"
    if "port_next (clamp_port s) a p = (Ok r, a')" for a r a'
    using that next_loop_Some [of RANGE_LEN "clamp_port s"]
    by (auto simp: port_next_def Let_def split: option.splits)
  show "taken_ports a' p = taken_ports a p" if "port_next (clamp_port s) a p = (Err e, a')" for a e a'
    using that by (auto simp: port_next_def Let_def split: option.splits)
qed (auto simp: port_reserve_def port_free_def Let_def)

section \<open>Properties\<close>

text \<open>
  C29: allocation terminates with a port of the range that was free, marks it taken and touches no other
  protocol; it fails exactly when every port of the range is taken, and then takes nothing.
\<close>

theorem port_next_correct:
  assumes "in_range sample"
  shows "case port_next sample a p of
      (Ok port, a') \<Rightarrow> in_range port \<and> port \<notin> taken_ports a p
        \<and> taken_ports a' p = insert port (taken_ports a p)
        \<and> (\<forall>q. q \<noteq> p \<longrightarrow> taken_ports a' q = taken_ports a q)
    | (Err e, a') \<Rightarrow> (\<forall>port. in_range port \<longrightarrow> port \<in> taken_ports a p)
        \<and> (\<forall>q. taken_ports a' q = taken_ports a q)
    | (Panic, a') \<Rightarrow> False"
proof (cases "next_loop RANGE_LEN sample (taken_ports a p)")
  case None
  then have "\<forall>q. in_range q \<longrightarrow> q \<in> taken_ports a p"
    using next_loop_complete [OF assms] by blast
  with None show ?thesis by (auto simp: port_next_def Let_def)
next
  case (Some port)
  then show ?thesis
    using next_loop_Some [OF Some assms] by (auto simp: port_next_def Let_def)
qed

theorem port_next_correct_witness:
  "\<exists>port a'. port_next 65535 [Tcp \<mapsto> {65535}] Tcp = (Ok port, a') \<and> in_range port \<and> port \<noteq> 65535
     \<and> taken_ports a' Udp = {}"
proof -
  have i: "in_range 65535" by (simp add: in_range_def RANGE_START_def)
  have t: "taken_ports [Tcp \<mapsto> {65535}] Tcp = {65535}" "taken_ports [Tcp \<mapsto> {65535}] Udp = {}"
    by (simp_all add: taken_ports_def)
  have f: "in_range 2000" by (simp add: in_range_def RANGE_START_def)
  show ?thesis
  proof (cases "port_next 65535 [Tcp \<mapsto> {65535}] Tcp")
    case (Pair r a')
    show ?thesis
    proof (cases r)
      case (Ok port)
      then show ?thesis
        using port_next_correct [OF i, of "[Tcp \<mapsto> {65535}]" Tcp] Pair t by auto
    next
      case (Err e)
      then have "(2000 :: u16) \<in> {65535}"
        using port_next_correct [OF i, of "[Tcp \<mapsto> {65535}]" Tcp] Pair t f by auto
      then show ?thesis by simp
    next
      case Panic
      then show ?thesis
        using port_next_correct [OF i, of "[Tcp \<mapsto> {65535}]" Tcp] Pair by simp
    qed
  qed
qed

end
