(* ===== verification/Net_Addr.thy ===== *)
theory Net_Addr
  imports Proto
begin

text \<open>
  IP and socket addresses of the standard library as the relay uses them: the textual forms and their
  parser, and the two conversions of wire endpoints in \<^verbatim>\<open>crates/proto/src/proto.rs\<close> and
  \<^verbatim>\<open>crates/core/src/server_session.rs\<close>. The text of IPv6 addresses is left to the argument \<open>V\<close>
  (printer and parser of the bare address).
\<close>

datatype ip_addr = IpAddrV4 u8 u8 u8 u8 | IpAddrV6 bytes

record socket_addr =
  sa_ip :: ip_addr
  sa_port :: u16

record v6_text =
  v6_show :: "bytes \<Rightarrow> string"
  v6_parse :: "string \<Rightarrow> bytes option"

section \<open>Decimal numbers\<close>

definition digit_char :: "nat \<Rightarrow> char" where
  "digit_char d = char_of (48 + d mod 10)"

definition digit_of :: "char \<Rightarrow> nat" where
  "digit_of c = of_char c - 48"

definition is_digit :: "char \<Rightarrow> bool" where
  "is_digit c \<longleftrightarrow> (48 :: nat) \<le> of_char c \<and> of_char c \<le> (57 :: nat)"

fun show_nat :: "nat \<Rightarrow> string" where
  "show_nat n = (if n < 10 then [digit_char n] else show_nat (n div 10) @ [digit_char (n mod 10)])"

declare show_nat.simps [simp del]

definition digits_value :: "string \<Rightarrow> nat" where
  "digits_value ds = foldl (\<lambda>acc c. acc * 10 + digit_of c) 0 ds"

text \<open>
  The number reader of the address parser: all digits, at most \<open>max_digits\<close> of them, no leading zero
  unless allowed, and a value within the type.
\<close>

definition read_number :: "nat option \<Rightarrow> bool \<Rightarrow> nat \<Rightarrow> string \<Rightarrow> (nat \<times> string) option" where
  "read_number max_digits allow_zero_prefix limit s =
     (let ds = takeWhile is_digit s; rest = dropWhile is_digit s in
      if ds = [] then None
      else if (case max_digits of None \<Rightarrow> False | Some m \<Rightarrow> length ds > m) then None
      else if \<not> allow_zero_prefix \<and> hd ds = CHR ''0'' \<and> length ds > 1 then None
      else if digits_value ds > limit then None
      else Some (digits_value ds, rest))"

definition read_char :: "char \<Rightarrow> string \<Rightarrow> string option" where
  "read_char c s = (case s of [] \<Rightarrow> None | x # rest \<Rightarrow> if x = c then Some rest else None)"

definition read_octet :: "string \<Rightarrow> (u8 \<times> string) option" where
  "read_octet s = map_option (\<lambda>(n, r). (of_nat n, r)) (read_number (Some 3) False 255 s)"

definition read_ipv4 :: "string \<Rightarrow> (ip_addr \<times> string) option" where
  "read_ipv4 s =
     Option.bind (read_octet s) (\<lambda>(a, s). Option.bind (read_char CHR ''.'' s) (\<lambda>s.
     Option.bind (read_octet s) (\<lambda>(b, s). Option.bind (read_char CHR ''.'' s) (\<lambda>s.
     Option.bind (read_octet s) (\<lambda>(c, s). Option.bind (read_char CHR ''.'' s) (\<lambda>s.
     Option.bind (read_octet s) (\<lambda>(d, s). Some (IpAddrV4 a b c d, s))))))))"

definition read_port :: "string \<Rightarrow> (u16 \<times> string) option" where
  "read_port s =
     Option.bind (read_char CHR '':'' s) (\<lambda>s.
       map_option (\<lambda>(n, r). (of_nat n, r)) (read_number None True 65535 s))"

text \<open>
  An address in brackets and a port, the only textual form of an IPv6 socket address here. A scope identifier after
  the address, which the standard library accepts too, is not modelled: text with one is refused, and socket addresses have none.
\<close>

definition parse_v6_socket :: "v6_text \<Rightarrow> string \<Rightarrow> socket_addr option" where
  "parse_v6_socket V s =
     Option.bind (read_char CHR ''['' s) (\<lambda>s.
     let body = takeWhile (\<lambda>c. c \<noteq> CHR '']'') s; rest = dropWhile (\<lambda>c. c \<noteq> CHR '']'') s in
     Option.bind (v6_parse V body) (\<lambda>a.
     Option.bind (read_char CHR '']'' rest) (\<lambda>r.
     Option.bind (read_port r) (\<lambda>(p, r).
       if r = [] then Some \<lparr> sa_ip = IpAddrV6 a, sa_port = p \<rparr> else None))))"

definition parse_v4_socket :: "string \<Rightarrow> socket_addr option" where
  "parse_v4_socket s =
     Option.bind (read_ipv4 s) (\<lambda>(ip, r). Option.bind (read_port r) (\<lambda>(p, r).
       if r = [] then Some \<lparr> sa_ip = ip, sa_port = p \<rparr> else None))"

definition parse_socket_addr :: "v6_text \<Rightarrow> string \<Rightarrow> socket_addr option" where
  "parse_socket_addr V s =
     (case parse_v4_socket s of Some a \<Rightarrow> Some a | None \<Rightarrow> parse_v6_socket V s)"

definition parse_ip_addr :: "v6_text \<Rightarrow> string \<Rightarrow> ip_addr option" where
  "parse_ip_addr V s =
     (case read_ipv4 s of
        Some (ip, []) \<Rightarrow> Some ip
      | _ \<Rightarrow> map_option IpAddrV6 (v6_parse V s))"

fun show_ip :: "v6_text \<Rightarrow> ip_addr \<Rightarrow> string" where
  "show_ip V (IpAddrV4 a b c d) =
     show_nat (unat a) @ ''.'' @ show_nat (unat b) @ ''.'' @ show_nat (unat c) @ ''.'' @ show_nat (unat d)"
| "show_ip V (IpAddrV6 bs) = v6_show V bs"

section \<open>Endpoints\<close>

text \<open>\<^verbatim>\<open>TryFrom<proto::Endpoint> for SocketAddr\<close>: the port is cut to 16 bits.\<close>

definition socket_addr_of_endpoint :: "v6_text \<Rightarrow> endpoint_msg \<Rightarrow> socket_addr option" where
  "socket_addr_of_endpoint V e =
     map_option (\<lambda>ip. \<lparr> sa_ip = ip, sa_port = ucast (em_port e) \<rparr>) (parse_ip_addr V (em_address e))"

text \<open>The core's \<open>Endpoint\<close>; the protocol is one of the wire enum's values.\<close>

record endpoint =
  ep_protocol :: int
  ep_address :: socket_addr

datatype endpoint_error = EndpointAddress | EndpointProtocol int

definition valid_protocol :: "int \<Rightarrow> bool" where
  "valid_protocol p \<longleftrightarrow> p \<in> {PROTOCOL_UNSUPPORTED, PROTOCOL_TCP, PROTOCOL_UDP}"

definition endpoint_try_from :: "v6_text \<Rightarrow> endpoint_msg \<Rightarrow> (endpoint, endpoint_error) result" where
  "endpoint_try_from V e =
     (let address = em_address e @ '':'' @ show_nat (unat (em_port e)) in
      rbind (ok_or EndpointAddress (parse_socket_addr V address)) (\<lambda>address.
      if valid_protocol (em_protocol e)
      then Ok \<lparr> ep_protocol = em_protocol e, ep_address = address \<rparr>
      else Err (EndpointProtocol (em_protocol e))))"

definition endpoint_to_proto :: "v6_text \<Rightarrow> endpoint \<Rightarrow> endpoint_msg" where
  "endpoint_to_proto V e =
     \<lparr> em_protocol = ep_protocol e, em_address = show_ip V (sa_ip (ep_address e)),
       em_port = ucast (sa_port (ep_address e)) \<rparr>"

section \<open>Facts\<close>

lemma of_char_digit [simp]: "(of_char (digit_char d) :: nat) = 48 + d mod 10"
proof -
  have "d mod 10 < 10" by simp
  then have "48 + d mod 10 < 256" by linarith
  then show ?thesis by (simp add: digit_char_def)
qed

lemma is_digit_char [simp]: "is_digit (digit_char d)"
proof -
  have "d mod 10 < 10" by simp
  then show ?thesis unfolding is_digit_def of_char_digit by linarith
qed

lemma digit_of_char [simp]: "digit_of (digit_char d) = d mod 10"
  by (simp add: digit_of_def)

lemma show_nat_digits: "\<forall>c \<in> set (show_nat n). is_digit c"
  by (induction n rule: show_nat.induct) (subst show_nat.simps, auto)

lemma show_nat_neq_Nil [simp]: "show_nat n \<noteq> []"
  by (subst show_nat.simps) simp

lemma digits_value_snoc: "digits_value (ds @ [c]) = digits_value ds * 10 + digit_of c"
  by (simp add: digits_value_def)

lemma digits_value_show [simp]: "digits_value (show_nat n) = n"
proof (induction n rule: show_nat.induct)
  case (1 n)
  show ?case
  proof (cases "n < 10")
    case True
    then show ?thesis by (subst show_nat.simps) (simp add: digits_value_def)
  next
    case False
    then show ?thesis
      using 1 by (subst show_nat.simps) (simp add: digits_value_snoc)
  qed
qed

lemma show_nat_hd: "hd (show_nat n) = CHR ''0'' \<Longrightarrow> n = 0"
proof (induction n rule: show_nat.induct)
  case (1 n)
  show ?case
  proof (cases "n < 10")
    case True
    then have "digit_char n = CHR ''0''" using "1.prems" by (simp add: show_nat.simps [of n])
    then have "digit_of (digit_char n) = digit_of CHR ''0''" by simp
    then show ?thesis using True by (simp add: digit_of_def)
  next
    case False
    then have "hd (show_nat (n div 10)) = CHR ''0''"
      using "1.prems" by (simp add: show_nat.simps [of n])
    then have "n div 10 = 0" using 1 False by blast
    then show ?thesis using False by simp
  qed
qed

lemma show_nat_0: "show_nat 0 = [CHR ''0'']"
proof -
  have "(of_char (digit_char 0) :: nat) = of_char (CHR ''0'')" by (simp add: of_char_digit)
  then have "digit_char 0 = CHR ''0''" by (simp only: of_char_eq_iff)
  then show ?thesis by (simp add: show_nat.simps)
qed

lemma length_show_nat: "n < 10 ^ k \<Longrightarrow> 0 < k \<Longrightarrow> length (show_nat n) \<le> k"
proof (induction k arbitrary: n)
  case (Suc k)
  show ?case
  proof (cases "n < 10")
    case False
    then have "n div 10 < 10 ^ k" "0 < k" using Suc.prems by (auto intro!: Nat.gr0I)
    then have "length (show_nat (n div 10)) \<le> k" by (rule Suc.IH)
    then show ?thesis using False by (simp add: show_nat.simps [of n])
  qed (simp add: show_nat.simps [of n])
qed simp

lemma split_digits:
  assumes "r = [] \<or> \<not> is_digit (hd r)"
  shows "takeWhile is_digit (show_nat n @ r) = show_nat n" "dropWhile is_digit (show_nat n @ r) = r"
proof -
  have "takeWhile is_digit r = []" "dropWhile is_digit r = r" using assms by (cases r; simp)+
  then show "takeWhile is_digit (show_nat n @ r) = show_nat n" "dropWhile is_digit (show_nat n @ r) = r"
    using show_nat_digits [of n] by (simp_all add: takeWhile_append2 dropWhile_append2)
qed

lemma read_number_show:
  assumes "r = [] \<or> \<not> is_digit (hd r)" "n \<le> limit"
    and "case mx of None \<Rightarrow> True | Some m \<Rightarrow> length (show_nat n) \<le> m"
  shows "read_number mx zero limit (show_nat n @ r) = Some (n, r)"
proof -
  have "length (show_nat n) = 1" if "hd (show_nat n) = CHR ''0''"
    using show_nat_hd [OF that] by (simp add: show_nat_0)
  then show ?thesis
    using assms by (auto simp: read_number_def split_digits [OF assms(1)] Let_def split: option.splits)
qed

lemma read_octet_show:
  assumes "r = [] \<or> \<not> is_digit (hd r)"
  shows "read_octet (show_nat (unat a) @ r) = Some (a, r)"
proof -
  have "unat a < 10 ^ 3" using unat_u8_lt [of a] by simp
  then have "length (show_nat (unat a)) \<le> 3" by (rule length_show_nat) simp
  then show ?thesis
    using read_number_show [OF assms, of "unat a" 255 "Some 3"] unat_u8_lt [of a]
    by (simp add: read_octet_def)
qed

lemma not_digit_dot [simp]: "\<not> is_digit CHR ''.''" "\<not> is_digit CHR '':''"
  by (simp_all add: is_digit_def)

lemma read_ipv4_show:
  assumes "r = [] \<or> \<not> is_digit (hd r)"
  shows "read_ipv4 (show_ip V (IpAddrV4 a b c d) @ r) = Some (IpAddrV4 a b c d, r)"
  using assms by (simp add: read_ipv4_def read_octet_show read_char_def)

lemma read_port_show: "read_port (CHR '':'' # show_nat n) = (if n \<le> 65535 then Some (of_nat n, []) else None)"
proof (cases "n \<le> 65535")
  case True
  then show ?thesis
    using read_number_show [of "[]" n 65535 None True] by (simp add: read_port_def read_char_def)
next
  case False
  have "read_number None True 65535 (show_nat n) = None"
    using False split_digits(1) [of "[]" n] by (simp add: read_number_def Let_def del: takeWhile_eq_all_conv)
  then show ?thesis using False by (simp add: read_port_def read_char_def)
qed

lemma parse_v4_socket_show:
  "parse_v4_socket (show_ip V (IpAddrV4 a b c d) @ CHR '':'' # show_nat n) =
     (if n \<le> 65535 then Some \<lparr> sa_ip = IpAddrV4 a b c d, sa_port = of_nat n \<rparr> else None)"
  using read_ipv4_show [of "CHR '':'' # show_nat n" V a b c d] read_port_show [of n]
  by (simp add: parse_v4_socket_def del: show_ip.simps)

lemma show_v4_hd: "hd (show_ip V (IpAddrV4 a b c d) @ r) \<noteq> CHR ''[''"
proof -
  have "is_digit (hd (show_nat (unat a)))" using show_nat_digits [of "unat a"] by simp
  then show ?thesis by (auto simp: is_digit_def)
qed

definition sample_v6 :: v6_text where
  "sample_v6 = \<lparr> v6_show = (\<lambda>bs. ''::1''), v6_parse = (\<lambda>s. if s = ''::1'' then Some (replicate 15 0 @ [1]) else None) \<rparr>"

definition sample_addr :: socket_addr where
  "sample_addr = \<lparr> sa_ip = IpAddrV4 127 0 0 1, sa_port = 7464 \<rparr>"

lemma parse_ip_addr_show: "parse_ip_addr V (show_ip V (IpAddrV4 a b c d)) = Some (IpAddrV4 a b c d)"
  using read_ipv4_show [of "[]" V a b c d] by (simp add: parse_ip_addr_def del: show_ip.simps)

lemma endpoint_roundtrip_v4:
  assumes "sa_ip (ep_address e) = IpAddrV4 a b c d" "valid_protocol (ep_protocol e)"
  shows "endpoint_try_from V (endpoint_to_proto V e) = Ok e"
    and "socket_addr_of_endpoint V (endpoint_to_proto V e) = Some (ep_address e)"
proof -
  have lt: "unat (ucast (sa_port (ep_address e)) :: u32) = unat (sa_port (ep_address e))"
    using unat_u16_lt [of "sa_port (ep_address e)"] by (simp add: unsigned_ucast_eq take_bit_nat_eq_self_iff)
  have port: "of_nat (unat (sa_port (ep_address e))) = sa_port (ep_address e)" by simp
  have down: "(ucast (ucast q :: u32) :: u16) = q" for q by transfer simp
  have le: "unat (sa_port (ep_address e)) \<le> 65535" using unat_u16_lt [of "sa_port (ep_address e)"] by simp
  show "endpoint_try_from V (endpoint_to_proto V e) = Ok e"
    using assms le parse_v4_socket_show [of V a b c d "unat (sa_port (ep_address e))"]
    by (simp add: endpoint_try_from_def endpoint_to_proto_def lt parse_socket_addr_def del: show_ip.simps)
  show "socket_addr_of_endpoint V (endpoint_to_proto V e) = Some (ep_address e)"
    using assms parse_ip_addr_show [of V a b c d]
    by (simp add: socket_addr_of_endpoint_def endpoint_to_proto_def down del: show_ip.simps)
qed

lemma endpoint_big_port:
  assumes "sa_ip (ep_address e) = IpAddrV4 a b c d" "65535 < unat p"
  shows "endpoint_try_from V (endpoint_to_proto V e\<lparr> em_port := p \<rparr>) = Err EndpointAddress"
    and "socket_addr_of_endpoint V (endpoint_to_proto V e\<lparr> em_port := p \<rparr>) =
        Some \<lparr> sa_ip = IpAddrV4 a b c d, sa_port = ucast p \<rparr>"
proof -
  have "parse_v6_socket V (show_ip V (IpAddrV4 a b c d) @ r) = None" for r
    using show_v4_hd [of V a b c d r]
    by (auto simp: parse_v6_socket_def read_char_def split: list.splits simp del: show_ip.simps)
  then show "endpoint_try_from V (endpoint_to_proto V e\<lparr> em_port := p \<rparr>) = Err EndpointAddress"
    using assms parse_v4_socket_show [of V a b c d "unat p"]
    by (simp add: endpoint_try_from_def endpoint_to_proto_def parse_socket_addr_def del: show_ip.simps)
  show "socket_addr_of_endpoint V (endpoint_to_proto V e\<lparr> em_port := p \<rparr>) =
        Some \<lparr> sa_ip = IpAddrV4 a b c d, sa_port = ucast p \<rparr>"
    using assms parse_ip_addr_show [of V a b c d]
    by (simp add: socket_addr_of_endpoint_def endpoint_to_proto_def del: show_ip.simps)
qed

text \<open>an IPv4 endpoint survives the wire: what is announced is read back by the core's conversion and by
  the conversion to a bare socket address, and ports above 65535 in a message are refused by the first and cut to
  16 bits by the second.\<close>
theorem endpoint_roundtrip:
  assumes "sa_ip (ep_address e) = IpAddrV4 a b c d" "valid_protocol (ep_protocol e)" "65535 < unat p"
  shows "endpoint_try_from V (endpoint_to_proto V e) = Ok e
    \<and> socket_addr_of_endpoint V (endpoint_to_proto V e) = Some (ep_address e)
    \<and> endpoint_try_from V (endpoint_to_proto V e\<lparr> em_port := p \<rparr>) = Err EndpointAddress
    \<and> socket_addr_of_endpoint V (endpoint_to_proto V e\<lparr> em_port := p \<rparr>) =
        Some \<lparr> sa_ip = IpAddrV4 a b c d, sa_port = ucast p \<rparr>"
  using assms endpoint_roundtrip_v4 endpoint_big_port by simp

theorem endpoint_roundtrip_witness:
  "endpoint_try_from sample_v6 (endpoint_to_proto sample_v6
     \<lparr> ep_protocol = PROTOCOL_UDP, ep_address = \<lparr> sa_ip = IpAddrV4 10 0 0 7, sa_port = 11500 \<rparr> \<rparr>) =
     Ok \<lparr> ep_protocol = PROTOCOL_UDP, ep_address = \<lparr> sa_ip = IpAddrV4 10 0 0 7, sa_port = 11500 \<rparr> \<rparr> \<and>
   endpoint_try_from sample_v6 ((endpoint_to_proto sample_v6
     \<lparr> ep_protocol = PROTOCOL_UDP, ep_address = \<lparr> sa_ip = IpAddrV4 10 0 0 7, sa_port = 11500 \<rparr> \<rparr>)\<lparr> em_port := 70000 \<rparr>) =
     Err EndpointAddress"
  using endpoint_roundtrip [of "\<lparr> ep_protocol = PROTOCOL_UDP,
      ep_address = \<lparr> sa_ip = IpAddrV4 10 0 0 7, sa_port = 11500 \<rparr> \<rparr>" 10 0 0 7 70000 sample_v6]
  by (simp add: valid_protocol_def)

text \<open>an endpoint with an IPv6 address never survives the wire: its text is announced without brackets, and the
  core's conversion refuses it whatever the port. The parser of IPv6 text only needs to print something that does not
  begin with a digit group of an IPv4 address or a bracket.\<close>
theorem ipv6_endpoint_refused:
  assumes "sa_ip (ep_address e) = IpAddrV6 bs"
    and "hd (v6_show V bs) \<noteq> CHR ''[''" "v6_show V bs \<noteq> []" "\<forall>r. read_ipv4 (v6_show V bs @ r) = None"
  shows "endpoint_try_from V (endpoint_to_proto V e) = Err EndpointAddress"
  using assms by (cases "v6_show V bs")
    (auto simp: endpoint_try_from_def endpoint_to_proto_def parse_socket_addr_def parse_v4_socket_def
      parse_v6_socket_def read_char_def)

theorem ipv6_endpoint_refused_witness:
  "endpoint_try_from sample_v6 (endpoint_to_proto sample_v6
     \<lparr> ep_protocol = PROTOCOL_UDP, ep_address = \<lparr> sa_ip = IpAddrV6 (replicate 15 0 @ [1]), sa_port = 11500 \<rparr> \<rparr>) =
     Err EndpointAddress"
  by (rule ipv6_endpoint_refused [where bs = "replicate 15 0 @ [1]"])
    (simp_all add: sample_v6_def read_ipv4_def read_octet_def read_number_def is_digit_def)

end
