(* ===== verification/Udp_Stream.thy ===== *)
theory Udp_Stream
  imports Codec Net_Addr
begin

text \<open>
  The datagram transport of \<^verbatim>\<open>crates/core/src/udp_stream.rs\<close>: the maximal payload size derived
  from the MTU, the stream of decoded packets over a socket and the sink that encodes packets into
  datagrams. The outcomes of the socket's receive calls are the input, the datagrams handed to its send
  call the output; \<open>usize\<close> is a 64-bit word.
\<close>

section \<open>Payload size\<close>

datatype mtu_error = OverheadTooLarge u64 | MtuBelow u64 u64

definition DEFAULT_MTU :: u64 where "DEFAULT_MTU = 1500"
definition ETHERNET_HDR_SIZE :: u64 where "ETHERNET_HDR_SIZE = 14"
definition IP6_HDR_SIZE :: u64 where "IP6_HDR_SIZE = 40"
definition UDP_HDR_SIZE :: u64 where "UDP_HDR_SIZE = 20"

definition NETWORK_HEADERS_SIZE :: u64 where
  "NETWORK_HEADERS_SIZE = ETHERNET_HDR_SIZE + IP6_HDR_SIZE + UDP_HDR_SIZE"

definition normalize_mtu :: "u64 \<Rightarrow> u64" where
  "normalize_mtu mtu =
     (let minimum = NETWORK_HEADERS_SIZE + 1 in if mtu < minimum then DEFAULT_MTU else mtu)"

text \<open>The environment variable, already parsed, is the argument.\<close>

definition resolve_mtu :: "u64 option \<Rightarrow> u64" where
  "resolve_mtu env = normalize_mtu (case env of None \<Rightarrow> DEFAULT_MTU | Some mtu \<Rightarrow> mtu)"

definition max_payload_size :: "u64 \<Rightarrow> u64 \<Rightarrow> (u64, mtu_error) result" where
  "max_payload_size mtu overhead =
     (case checked_add NETWORK_HEADERS_SIZE overhead of
        None \<Rightarrow> Err (OverheadTooLarge overhead)
      | Some total_overhead \<Rightarrow>
          (case checked_add total_overhead 1 of
             None \<Rightarrow> Err (OverheadTooLarge overhead)
           | Some minimum \<Rightarrow>
               if mtu < minimum then Err (MtuBelow mtu minimum) else sub_panic mtu total_overhead))"

definition resolve_max_payload_overhead_size :: "u64 option \<Rightarrow> u64 \<Rightarrow> (u64, mtu_error) result" where
  "resolve_max_payload_overhead_size env overhead = max_payload_size (resolve_mtu env) overhead"

definition resolve_max_payload_size :: "u64 option \<Rightarrow> (u64, mtu_error) result" where
  "resolve_max_payload_size env = resolve_max_payload_overhead_size env 0"

section \<open>Stream and sink\<close>

text \<open>
  A receive call yields a datagram, cut by the socket to the size of the buffer, or an error. The loop
  goes on until a datagram decodes; it ends only with the inputs, where the code would wait.
\<close>

type_synonym received = "(bytes \<times> socket_addr) option"

fun udp_stream_next :: "prost \<Rightarrow> received list \<Rightarrow> ((packet_kind \<times> socket_addr) \<times> received list) option" where
  "udp_stream_next P [] = None"
| "udp_stream_next P (None # rest) = udp_stream_next P rest"
| "udp_stream_next P (Some (datagram, addr) # rest) =
     (let buf = take (unat MAX_PACKET_SIZE) datagram in
      case fst (datagram_decode P buf) of
        Ok item \<Rightarrow> Some ((item, addr), rest)
      | _ \<Rightarrow> udp_stream_next P rest)"

lemma udp_stream_next_shorter:
  "udp_stream_next P rs = Some (x, rest) \<Longrightarrow> length rest < length rs"
  by (induction P rs rule: udp_stream_next.induct)
     (auto simp: Let_def split: result.splits intro: less_SucI)

function udp_stream :: "prost \<Rightarrow> received list \<Rightarrow> (packet_kind \<times> socket_addr) list" where
  "udp_stream P rs =
     (case udp_stream_next P rs of None \<Rightarrow> [] | Some (x, rest) \<Rightarrow> x # udp_stream P rest)"
  by pat_completeness auto

termination
  by (relation "measure (\<lambda>(P, rs). length rs)") (auto dest: udp_stream_next_shorter)

declare udp_stream.simps [simp del]

text \<open>
  The sink resolves the maximal payload size first and only warns about larger packets; a packet that
  does not encode is dropped. Send errors are logged and ignored.
\<close>

fun udp_sink_loop :: "prost \<Rightarrow> (packet_kind \<times> socket_addr) list \<Rightarrow> (bytes \<times> socket_addr) list" where
  "udp_sink_loop P [] = []"
| "udp_sink_loop P ((pkt, target) # rest) =
     (case datagram_encode P pkt [] of
        Ok buf \<Rightarrow> (buf, target) # udp_sink_loop P rest
      | _ \<Rightarrow> udp_sink_loop P rest)"

definition udp_sink :: "prost \<Rightarrow> u64 option \<Rightarrow> (packet_kind \<times> socket_addr) list \<Rightarrow>
    ((bytes \<times> socket_addr) list, mtu_error) result" where
  "udp_sink P env packets =
     rbind (unwrap (resolve_max_payload_size env)) (\<lambda>max_size. Ok (udp_sink_loop P packets))"

section \<open>Facts\<close>

lemma NETWORK_HEADERS_SIZE_eq: "NETWORK_HEADERS_SIZE = 74"
  by (simp add: NETWORK_HEADERS_SIZE_def ETHERNET_HDR_SIZE_def IP6_HDR_SIZE_def UDP_HDR_SIZE_def)

lemma max_payload_size_eq:
  "max_payload_size mtu overhead =
     (if unat overhead + 75 < 2 ^ 64 then
        if unat mtu < unat overhead + 75 then Err (MtuBelow mtu (75 + overhead))
        else Ok (mtu - (74 + overhead))
      else Err (OverheadTooLarge overhead))"
proof (cases "74 + unat overhead < 2 ^ 64")
  case True
  then have t: "checked_add 74 overhead = Some (74 + overhead)" by (simp add: checked_add_def)
  have u: "unat (74 + overhead) = 74 + unat overhead" using checked_add_Some_unat [OF t] by simp
  show ?thesis
  proof (cases "unat overhead + 75 < 2 ^ 64")
    case True
    then have t': "checked_add (74 + overhead) 1 = Some (75 + overhead)" by (simp add: checked_add_def u)
    have u': "unat (75 + overhead) = 75 + unat overhead" using checked_add_Some_unat [OF t'] by (simp add: u)
    show ?thesis
      using t t' True unfolding max_payload_size_def NETWORK_HEADERS_SIZE_eq
      by (simp add: word_less_nat_alt u' sub_panic_def word_le_nat_alt u del: unat_add_lem)
  next
    case False
    then have "checked_add (74 + overhead) 1 = None" by (simp add: checked_add_def u)
    then show ?thesis using t False by (simp add: max_payload_size_def NETWORK_HEADERS_SIZE_eq)
  qed
next
  case False
  then show ?thesis by (simp add: max_payload_size_def NETWORK_HEADERS_SIZE_eq checked_add_def)
qed

lemma max_payload_size_Ok_iff:
  "max_payload_size mtu overhead = Ok n \<longleftrightarrow> unat n + unat overhead + 74 = unat mtu \<and> 0 < unat n"
proof -
  have lt: "unat (w :: u64) < 2 ^ 64" for w by (rule order_less_le_trans [OF unsigned_less]) simp
  have u: "unat (mtu - (74 + overhead)) = unat mtu - (74 + unat overhead)"
    if "unat overhead + 75 < 2 ^ 64" "\<not> unat mtu < unat overhead + 75"
  proof -
    have "unat (74 + overhead) = 74 + unat overhead" using that by (simp add: unat_word_ariths)
    then show ?thesis using that by (simp add: unat_sub word_le_nat_alt)
  qed
  show ?thesis
  proof (cases "unat overhead + 75 < 2 ^ 64 \<and> \<not> unat mtu < unat overhead + 75")
    case True
    then have "max_payload_size mtu overhead = Ok (mtu - (74 + overhead))" by (simp add: max_payload_size_eq)
    moreover have "mtu - (74 + overhead) = n \<longleftrightarrow> unat mtu - (74 + unat overhead) = unat n"
      using u True by (metis word_unat_eq_iff)
    ultimately show ?thesis using True by auto
  next
    case False
    then show ?thesis using lt [of mtu] by (auto simp: max_payload_size_eq)
  qed
qed

lemma max_payload_size_no_panic: "max_payload_size mtu overhead \<noteq> Panic"
  by (simp add: max_payload_size_eq)

lemma normalize_mtu_ge: "75 \<le> unat (normalize_mtu mtu)"
  by (simp add: normalize_mtu_def NETWORK_HEADERS_SIZE_eq DEFAULT_MTU_def word_less_nat_alt Let_def)



lemma udp_stream_Nil [simp]: "udp_stream P [] = []"
  by (simp add: udp_stream.simps)




section \<open>Properties\<close>

text \<open>
  C33: the payload size is exact and safe: it is what the MTU leaves after the headers and the overhead, it is
  positive, no arithmetic wraps around, every other case is an error, and whatever the environment holds the sink
  finds a payload size, so its \<open>unwrap\<close> does not panic.
\<close>

theorem max_payload_size_exact:
  "(max_payload_size mtu overhead = Ok n \<longleftrightarrow> unat n + unat overhead + 74 = unat mtu \<and> 0 < unat n)
   \<and> max_payload_size mtu overhead \<noteq> Panic
   \<and> udp_sink P env packets = Ok (udp_sink_loop P packets)"
proof -
  define m where "m = normalize_mtu (case env of None \<Rightarrow> DEFAULT_MTU | Some mtu \<Rightarrow> mtu)"
  have "75 \<le> unat m" unfolding m_def by (rule normalize_mtu_ge)
  then have "max_payload_size m 0 = Ok (m - 74)" by (simp add: max_payload_size_eq)
  then have "udp_sink P env packets = Ok (udp_sink_loop P packets)"
    by (simp add: udp_sink_def resolve_max_payload_size_def resolve_max_payload_overhead_size_def resolve_mtu_def m_def)
  then show ?thesis using max_payload_size_Ok_iff max_payload_size_no_panic by blast
qed




end
