(* ===== verification/Dispatch.thy ===== *)
theory Dispatch
  imports Codec Net_Addr
begin

text \<open>
  Matching of responses to requests, \<^verbatim>\<open>crates/core/src/dispatch.rs\<close>. The oneshot channels of the
  code are numbered; a channel knows the request it was made for and what its receiving half would see.
  The futures returned by \<open>response\<close> are driven by the runtime in any order: each of their outcomes
  (a value, a cancelled sender, the timeout, being dropped) is an operation of its own.
\<close>

record dispatched =
  dp_session_id :: bytes
  dp_code :: int
  dp_packet :: response_kind

datatype chan_state = Waiting | Sent dispatched | SenderDropped | Closed

record channel =
  ch_request :: u64
  ch_state :: chan_state

datatype response_error = TimedOut | Cancelled | FailedWithCode int | UnexpectedType

text \<open>A registered handler: \<open>exclusive\<close> ones do not run again while their latch is set.\<close>

record error_handler =
  eh_exclusive :: bool
  eh_latch :: bool

record dispatcher =
  ds_seen :: nat
  ds_ping :: "nat option"
  ds_responses :: "u64 \<rightharpoonup> nat"
  ds_error_handlers :: "int \<rightharpoonup> error_handler"
  ds_channels :: "channel list"

text \<open>The initial ping is \<^verbatim>\<open>Duration::MAX\<close>, here \<open>None\<close>.\<close>

definition dispatcher_default :: "nat \<Rightarrow> dispatcher" where
  "dispatcher_default now = \<lparr> ds_seen = now, ds_ping = None, ds_responses = Map.empty,
     ds_error_handlers = Map.empty, ds_channels = [] \<rparr>"

definition update_seen :: "nat \<Rightarrow> dispatcher \<Rightarrow> dispatcher" where
  "update_seen now d = d\<lparr> ds_seen := now \<rparr>"

definition update_ping :: "nat \<Rightarrow> dispatcher \<Rightarrow> dispatcher" where
  "update_ping ping d = d\<lparr> ds_ping := Some ping \<rparr>"

definition handle_error :: "int \<Rightarrow> bool \<Rightarrow> dispatcher \<Rightarrow> dispatcher" where
  "handle_error code exclusive d =
     d\<lparr> ds_error_handlers := (ds_error_handlers d)(code \<mapsto> \<lparr> eh_exclusive = exclusive, eh_latch = False \<rparr>) \<rparr>"

text \<open>The spawned task of a handler: whether its body runs, and the latch at the start and at the end.\<close>

definition handler_begin :: "error_handler \<Rightarrow> bool \<times> error_handler" where
  "handler_begin h = (if eh_exclusive h \<and> eh_latch h then (False, h) else (True, h\<lparr> eh_latch := True \<rparr>))"

definition handler_end :: "error_handler \<Rightarrow> error_handler" where
  "handler_end h = h\<lparr> eh_latch := False \<rparr>"

text \<open>Dropping a sender that has not been used cancels the waiting receiver.\<close>

definition set_channel :: "nat \<Rightarrow> chan_state \<Rightarrow> dispatcher \<Rightarrow> dispatcher" where
  "set_channel c st d = d\<lparr> ds_channels := (ds_channels d)[c := (ds_channels d ! c)\<lparr> ch_state := st \<rparr>] \<rparr>"

definition drop_sender :: "nat option \<Rightarrow> dispatcher \<Rightarrow> dispatcher" where
  "drop_sender oc d =
     (case oc of
        None \<Rightarrow> d
      | Some c \<Rightarrow> if ch_state (ds_channels d ! c) = Waiting then set_channel c SenderDropped d else d)"

text \<open>\<open>response\<close> makes a channel and stores its sending half; a sender stored under the same id is dropped.\<close>

definition response_start :: "u64 \<Rightarrow> dispatcher \<Rightarrow> nat \<times> dispatcher" where
  "response_start request_id d =
     (let c = length (ds_channels d);
          old = ds_responses d request_id;
          d = d\<lparr> ds_channels := ds_channels d @ [\<lparr> ch_request = request_id, ch_state = Waiting \<rparr>],
                 ds_responses := (ds_responses d)(request_id \<mapsto> c) \<rparr> in
      (c, drop_sender old d))"

text \<open>The continuation that removes the id once the future has an outcome.\<close>

definition response_cleanup :: "nat \<Rightarrow> dispatcher \<Rightarrow> dispatcher" where
  "response_cleanup c d =
     (let request_id = ch_request (ds_channels d ! c);
          old = ds_responses d request_id;
          d = (set_channel c Closed d)\<lparr> ds_responses := (ds_responses d)(request_id := None) \<rparr> in
      drop_sender old d)"

text \<open>
  The outcome of the future of channel \<open>c\<close>, when polled: nothing yet, or a result, with the conversion
  of the packet to the type asked for as the argument \<open>accepts\<close>.
\<close>

definition response_poll :: "(response_kind \<Rightarrow> bool) \<Rightarrow> bool \<Rightarrow> nat \<Rightarrow> dispatcher \<Rightarrow>
    (dispatched, response_error) result option \<times> dispatcher" where
  "response_poll accepts timeout c d =
     (case ch_state (ds_channels d ! c) of
        Sent r \<Rightarrow>
          (Some (if dp_code r \<noteq> STATUS_OK then Err (FailedWithCode (dp_code r))
                 else if accepts (dp_packet r) then Ok r else Err UnexpectedType), response_cleanup c d)
      | SenderDropped \<Rightarrow> (Some (Err Cancelled), response_cleanup c d)
      | Waiting \<Rightarrow> if timeout then (Some (Err TimedOut), response_cleanup c d) else (None, d)
      | Closed \<Rightarrow> (None, d))"

text \<open>A future dropped before its outcome closes its receiver and runs no continuation.\<close>

definition response_drop :: "nat \<Rightarrow> dispatcher \<Rightarrow> dispatcher" where
  "response_drop c d = set_channel c Closed d"

text \<open>The result is the code whose error handler is spawned, if any.\<close>

definition dispatch_response :: "u64 \<Rightarrow> bytes \<Rightarrow> int \<Rightarrow> response_kind \<Rightarrow> dispatcher \<Rightarrow> int option \<times> dispatcher" where
  "dispatch_response request_id session_id code kind d =
     (let d' = (case ds_responses d request_id of
          Some c \<Rightarrow>
            let d1 = d\<lparr> ds_responses := (ds_responses d)(request_id := None) \<rparr> in
            if ch_state (ds_channels d ! c) = Waiting
            then set_channel c (Sent \<lparr> dp_session_id = session_id, dp_code = code, dp_packet = kind \<rparr>) d1
            else d1
        | None \<Rightarrow> d) in
      (if code \<noteq> STATUS_OK \<and> code \<in> dom (ds_error_handlers d') then Some code else None, d'))"

section \<open>The dispatch loop\<close>

text \<open>
  What the loop does with one packet: it updates the time stamp of the sender's dispatcher, if there is one,
  and passes the packet to the handler it is meant for; responses go to the dispatcher.
\<close>

datatype dispatch_action =
    OnControl bytes "control_kind option" socket_addr
  | OnRequest bytes request socket_addr
  | OnForward forward socket_addr
  | Dispatched "int option"
  | Ignored

definition dispatch_step :: "nat \<Rightarrow> packet_kind \<Rightarrow> socket_addr \<Rightarrow> dispatcher option \<Rightarrow>
    dispatch_action \<times> dispatcher option" where
  "dispatch_step now pkt src disp =
     (let disp = map_option (update_seen now) disp in
      case pkt of
        PKPacket p \<Rightarrow>
          (case pk_kind p of
             Some (KControl control) \<Rightarrow> (OnControl (pk_session_id p) control src, disp)
           | Some (KRequest request) \<Rightarrow> (OnRequest (pk_session_id p) request src, disp)
           | Some (KResponse response) \<Rightarrow>
               (case (rp_kind response, disp) of
                  (Some kind, Some d) \<Rightarrow>
                    let (spawned, d) = dispatch_response (rp_request_id response) (pk_session_id p)
                          (rp_code response) kind d in (Dispatched spawned, Some d)
                | _ \<Rightarrow> (Ignored, disp))
           | None \<Rightarrow> (Ignored, disp))
      | PKForward f \<Rightarrow> (OnForward f src, disp)
      | PKForwardCtd _ \<Rightarrow> (Ignored, disp))"

section \<open>Executions\<close>

text \<open>
  Any interleaving of the operations: requests are started, polled, timed out and dropped, responses arrive.
  The log records what has been dispatched.
\<close>

type_synonym dispatch_log = "(u64 \<times> dispatched) list"

inductive dispatcher_reaches :: "dispatcher \<Rightarrow> dispatch_log \<Rightarrow> bool" where
  init: "dispatcher_reaches (dispatcher_default now) []"
| seen: "dispatcher_reaches d log \<Longrightarrow> dispatcher_reaches (update_seen now d) log"
| ping: "dispatcher_reaches d log \<Longrightarrow> dispatcher_reaches (update_ping p d) log"
| handle: "dispatcher_reaches d log \<Longrightarrow> dispatcher_reaches (handle_error code exclusive d) log"
| start: "dispatcher_reaches d log \<Longrightarrow> dispatcher_reaches (snd (response_start request_id d)) log"
| poll: "dispatcher_reaches d log \<Longrightarrow> c < length (ds_channels d) \<Longrightarrow>
    dispatcher_reaches (snd (response_poll accepts t c d)) log"
| drop_future: "dispatcher_reaches d log \<Longrightarrow> c < length (ds_channels d) \<Longrightarrow>
    dispatcher_reaches (response_drop c d) log"
| dispatch: "dispatcher_reaches d log \<Longrightarrow>
    dispatcher_reaches (snd (dispatch_response request_id sid code kind d))
      ((request_id, \<lparr> dp_session_id = sid, dp_code = code, dp_packet = kind \<rparr>) # log)"

section \<open>Facts\<close>

text \<open>
  The invariant: a stored sender belongs to a channel made for its id, no two ids share a channel, a channel whose
  sender is stored has seen neither a value nor a drop, a waiting channel's sender is stored, and what a channel
  holds was dispatched for its request.
\<close>

definition dispatcher_inv :: "dispatcher \<Rightarrow> dispatch_log \<Rightarrow> bool" where
  "dispatcher_inv d log \<longleftrightarrow>
     (\<forall>r c. ds_responses d r = Some c \<longrightarrow>
        c < length (ds_channels d) \<and> ch_request (ds_channels d ! c) = r
        \<and> ch_state (ds_channels d ! c) \<in> {Waiting, Closed})
   \<and> (\<forall>c < length (ds_channels d).
        (ch_state (ds_channels d ! c) = Waiting \<longrightarrow> ds_responses d (ch_request (ds_channels d ! c)) = Some c)
      \<and> (\<forall>v. ch_state (ds_channels d ! c) = Sent v \<longrightarrow> (ch_request (ds_channels d ! c), v) \<in> set log))"

lemma dispatcher_inv_responses:
  "dispatcher_inv d log \<Longrightarrow> ds_responses d r = Some c \<Longrightarrow>
     c < length (ds_channels d) \<and> ch_request (ds_channels d ! c) = r \<and> ch_state (ds_channels d ! c) \<in> {Waiting, Closed}"
  by (simp add: dispatcher_inv_def)

lemma dispatcher_inv_owner:
  "dispatcher_inv d log \<Longrightarrow> ds_responses d r = Some c \<Longrightarrow> ds_responses d r' = Some c \<Longrightarrow> r' = r"
  by (metis dispatcher_inv_responses)

lemma set_channel_simps [simp]:
  "ds_responses (set_channel c st d) = ds_responses d"
  "length (ds_channels (set_channel c st d)) = length (ds_channels d)"
  "c < length (ds_channels d) \<Longrightarrow> ds_channels (set_channel c st d) ! i =
     (if i = c then (ds_channels d ! c)\<lparr> ch_state := st \<rparr> else ds_channels d ! i)"
  by (simp_all add: set_channel_def nth_list_update)

lemma response_start_inv:
  assumes "dispatcher_inv d log"
  shows "dispatcher_inv (snd (response_start r d)) log"
proof (cases "ds_responses d r")
  case None
  then show ?thesis
    using assms by (auto simp: dispatcher_inv_def response_start_def drop_sender_def Let_def nth_append less_Suc_eq)
next
  case (Some c)
  then show ?thesis
    using assms dispatcher_inv_responses [OF assms Some]
    by (auto dest: dispatcher_inv_owner [OF assms Some] simp: dispatcher_inv_def response_start_def drop_sender_def Let_def nth_append less_Suc_eq)
qed

lemma close_inv:
  assumes "dispatcher_inv d log" "c < length (ds_channels d)"
  shows "dispatcher_inv (set_channel c Closed d) log"
  using assms by (auto simp: dispatcher_inv_def)

lemma release_inv:
  assumes "dispatcher_inv d log"
  shows "dispatcher_inv (drop_sender (ds_responses d r) (d\<lparr> ds_responses := (ds_responses d)(r := None) \<rparr>)) log"
proof (cases "ds_responses d r")
  case None
  then show ?thesis using assms by (auto simp: dispatcher_inv_def drop_sender_def)
next
  case (Some c)
  then show ?thesis
    using assms dispatcher_inv_responses [OF assms Some]
    by (auto dest: dispatcher_inv_owner [OF assms Some] simp: dispatcher_inv_def drop_sender_def)
qed

lemma response_cleanup_inv:
  assumes "dispatcher_inv d log" "c < length (ds_channels d)"
  shows "dispatcher_inv (response_cleanup c d) log"
  using release_inv [OF close_inv [OF assms], of "ch_request (ds_channels d ! c)"]
  by (simp add: response_cleanup_def Let_def)

lemma response_poll_inv:
  assumes "dispatcher_inv d log" "c < length (ds_channels d)"
  shows "dispatcher_inv (snd (response_poll accepts t c d)) log"
  using assms response_cleanup_inv [OF assms] by (simp add: response_poll_def split: chan_state.splits)

lemma response_drop_inv:
  assumes "dispatcher_inv d log" "c < length (ds_channels d)"
  shows "dispatcher_inv (response_drop c d) log"
  using close_inv [OF assms] by (simp add: response_drop_def)

lemma dispatch_response_inv:
  assumes "dispatcher_inv d log"
  shows "dispatcher_inv (snd (dispatch_response r sid code kind d))
    ((r, \<lparr> dp_session_id = sid, dp_code = code, dp_packet = kind \<rparr>) # log)"
proof (cases "ds_responses d r")
  case None
  then show ?thesis
    using assms by (auto simp: dispatcher_inv_def dispatch_response_def Let_def)
next
  case (Some c)
  then show ?thesis
    using assms dispatcher_inv_responses [OF assms Some]
    by (auto dest: dispatcher_inv_owner [OF assms Some] simp: dispatcher_inv_def dispatch_response_def Let_def)
qed

lemma dispatcher_reaches_inv: "dispatcher_reaches d log \<Longrightarrow> dispatcher_inv d log"
proof (induction rule: dispatcher_reaches.induct)
  case (init now)
  then show ?case by (simp add: dispatcher_inv_def dispatcher_default_def)
next
  case (seen d log now)
  then show ?case by (simp add: dispatcher_inv_def update_seen_def)
next
  case (ping d log p)
  then show ?case by (simp add: dispatcher_inv_def update_ping_def)
next
  case (handle d log code exclusive)
  then show ?case by (simp add: dispatcher_inv_def handle_error_def)
qed (simp_all add: response_start_inv response_poll_inv response_drop_inv dispatch_response_inv)

section \<open>Properties\<close>

text \<open>
  C9: responses reach the request they answer: whatever the interleaving, the value a waiting request returns was
  dispatched for its own request id, has the success code and the type asked for, and the id is free
  afterwards. A response that arrives while the request waits is what its next poll returns.
\<close>

theorem dispatcher_correlation:
  assumes "dispatcher_reaches d log" "c < length (ds_channels d)"
  shows "(\<forall>v d'. response_poll accepts t c d = (Some (Ok v), d') \<longrightarrow>
            (ch_request (ds_channels d ! c), v) \<in> set log \<and> dp_code v = STATUS_OK \<and> accepts (dp_packet v)
            \<and> ds_responses d' (ch_request (ds_channels d ! c)) = None)
    \<and> (ch_state (ds_channels d ! c) = Waiting \<longrightarrow> accepts kind \<longrightarrow>
         fst (response_poll accepts t c (snd (dispatch_response (ch_request (ds_channels d ! c)) sid STATUS_OK kind d)))
           = Some (Ok \<lparr> dp_session_id = sid, dp_code = STATUS_OK, dp_packet = kind \<rparr>))"
proof -
  have inv: "dispatcher_inv d log" by (rule dispatcher_reaches_inv [OF assms(1)])
  have cl: "ds_responses (response_cleanup c d) (ch_request (ds_channels d ! c)) = None"
    by (simp add: response_cleanup_def drop_sender_def Let_def split: option.splits)
  show ?thesis
    using inv assms(2) cl
    by (auto simp: dispatcher_inv_def response_poll_def dispatch_response_def Let_def
        split: chan_state.splits if_splits)
qed

theorem dispatcher_correlation_witness:
  "fst (response_poll (\<lambda>_. True) False 0 (snd (dispatch_response 7 [1] STATUS_OK RespPong
      (snd (response_start 7 (dispatcher_default 0))))))
    = Some (Ok \<lparr> dp_session_id = [1], dp_code = STATUS_OK, dp_packet = RespPong \<rparr>)"
proof -
  have "dispatcher_reaches (snd (response_start 7 (dispatcher_default 0))) []"
    by (intro dispatcher_reaches.intros)
  moreover have "ds_channels (snd (response_start 7 (dispatcher_default 0))) = [\<lparr> ch_request = 7, ch_state = Waiting \<rparr>]"
    by (simp add: response_start_def dispatcher_default_def drop_sender_def Let_def)
  ultimately show ?thesis
    using dispatcher_correlation [of "snd (response_start 7 (dispatcher_default 0))" "[]" 0 "\<lambda>_. True" False RespPong "[1]"]
    by simp
qed

text \<open>
  reusing a request id while a request waits on it loses both: the second request takes the slot of the first,
  the first is cancelled, and the clean-up of the first then removes the second's sender, so the second is
  cancelled as well and a later response finds no listener.
\<close>

theorem duplicate_request_cancels_both:
  assumes "dispatcher_reaches d log" "ds_responses d r = None"
  shows "\<exists>d'. fst (response_poll accepts t (length (ds_channels d))
        (snd (response_start r (snd (response_start r d))))) = Some (Err Cancelled)
    \<and> snd (response_poll accepts t (length (ds_channels d))
        (snd (response_start r (snd (response_start r d))))) = d'
    \<and> ds_responses d' r = None
    \<and> fst (response_poll accepts t (Suc (length (ds_channels d))) d') = Some (Err Cancelled)"
  using assms(2)
  by (simp add: response_start_def response_poll_def response_cleanup_def drop_sender_def Let_def
      nth_append set_channel_def nth_list_update)

theorem duplicate_request_cancels_both_witness:
  "\<exists>d'. fst (response_poll (\<lambda>_. True) False 0
        (snd (response_start 7 (snd (response_start 7 (dispatcher_default 0)))))) = Some (Err Cancelled)
    \<and> ds_responses d' 7 = None \<and> fst (response_poll (\<lambda>_. True) False 1 d') = Some (Err Cancelled)"
  using duplicate_request_cancels_both [of "dispatcher_default 0" "[]" 7 "\<lambda>_. True" False]
  by (auto simp: dispatcher_default_def intro: dispatcher_reaches.init [unfolded dispatcher_default_def])

end
