(* ===== verification/Identity.thy ===== *)
theory Identity
  imports Proto
begin

text \<open>
  Node identities, \<^verbatim>\<open>crates/core/src/identity.rs\<close>. The cryptographic libraries (\<^verbatim>\<open>ethsign\<close>,
  \<^verbatim>\<open>sha2\<close>) and the node identifier type are not part of the repository: they are the fields of the
  record argument \<open>ext\<close>. Public keys and node identifiers are their bytes.
\<close>

type_synonym node_id = bytes
type_synonym public_key = bytes

datatype core_error =
    InvalidPublicKey
  | MismatchedNodeId
  | MissingIdentity
  | BadNodeId
  | BadSessionId
  | MissingChallengeResponse
  | BadSolutionSize nat
  | VerificationFailed
  | MissingSignature
  | BadSignatureSize nat
  | RecoveryFailed
  | WrongDefaultNode node_id node_id
  | ProofCount nat nat
  | BadSessionKey
  | WrongSessionKeySignature
  | EmptyIdentities
  | NoHash u64
  | SigningFailed
  | NoIdentities
  | MissingDefaultProof
  | BadAddress
  | BadProtocol int
  | MtuOverhead nat
  | MtuTooSmall nat nat

record ext =
  sha256 :: "bytes \<Rightarrow> bytes"
  ec_recover :: "u8 \<Rightarrow> bytes \<Rightarrow> bytes \<Rightarrow> bytes \<Rightarrow> public_key option"
  pk_from_slice :: "bytes \<Rightarrow> public_key option"
  pk_address :: "public_key \<Rightarrow> node_id"
  node_id_of :: "bytes \<Rightarrow> node_id option"

record identity =
  id_node_id :: node_id
  id_public_key :: public_key

text \<open>Identities are compared by node identifier.\<close>

definition identity_eq :: "identity \<Rightarrow> identity \<Rightarrow> bool" where
  "identity_eq a b = (id_node_id a = id_node_id b)"

definition identity_from_pair :: "node_id \<times> public_key \<Rightarrow> identity" where
  "identity_from_pair t = \<lparr> id_node_id = fst t, id_public_key = snd t \<rparr>"

definition identity_to_proto :: "identity \<Rightarrow> identity_msg" where
  "identity_to_proto i = \<lparr> im_public_key = id_public_key i, im_node_id = id_node_id i \<rparr>"

definition identity_from_key :: "ext \<Rightarrow> public_key \<Rightarrow> identity" where
  "identity_from_key X pk = \<lparr> id_node_id = pk_address X pk, id_public_key = pk \<rparr>"

definition identity_from_slice :: "ext \<Rightarrow> bytes \<Rightarrow> (identity, core_error) result" where
  "identity_from_slice X bs =
     rbind (ok_or InvalidPublicKey (pk_from_slice X bs)) (\<lambda>pk.
       Ok \<lparr> id_node_id = pk_address X pk, id_public_key = pk \<rparr>)"

definition identity_from_proto :: "ext \<Rightarrow> identity_msg \<Rightarrow> (identity, core_error) result" where
  "identity_from_proto X ident =
     rbind (ok_or InvalidPublicKey (pk_from_slice X (im_public_key ident))) (\<lambda>pk.
       let node_id = pk_address X pk in
       if node_id \<noteq> im_node_id ident then Err MismatchedNodeId
       else Ok \<lparr> id_node_id = node_id, id_public_key = pk \<rparr>)"

definition identity_from_node :: "ext \<Rightarrow> resp_node \<Rightarrow> (identity, core_error) result" where
  "identity_from_node X node =
     (case rn_identities node of [] \<Rightarrow> Err MissingIdentity | i # _ \<Rightarrow> identity_from_proto X i)"

section \<open>Facts\<close>

definition identity_wf :: "ext \<Rightarrow> identity \<Rightarrow> bool" where
  "identity_wf X i \<longleftrightarrow> id_node_id i = pk_address X (id_public_key i)"

lemma identity_from_key_wf [simp]: "identity_wf X (identity_from_key X pk)"
  by (simp add: identity_wf_def identity_from_key_def)

lemma identity_from_key_simps [simp]:
  "id_public_key (identity_from_key X pk) = pk" "id_node_id (identity_from_key X pk) = pk_address X pk"
  by (simp_all add: identity_from_key_def)

lemma identity_from_proto_Ok:
  "identity_from_proto X m = Ok i \<longleftrightarrow>
     (\<exists>pk. pk_from_slice X (im_public_key m) = Some pk \<and> im_node_id m = pk_address X pk
        \<and> i = identity_from_key X pk)"
  by (auto simp: identity_from_proto_def identity_from_key_def rbind_eq_Ok_iff Let_def)

lemma identity_from_proto_no_panic: "identity_from_proto X m \<noteq> Panic"
  by (auto simp: identity_from_proto_def rbind_eq_Panic_iff Let_def)

section \<open>Properties\<close>

text \<open>
  C28: an identity read from the wire is bound to its key: the node identifier it carries is the address
  of the public key it carries, so a peer cannot present a key under a foreign identifier. An identity
  survives the conversion to the wire and back whenever its key bytes are those of a valid key.
\<close>

theorem identity_binding:
  assumes "pk_from_slice X (id_public_key i) = Some (id_public_key i)" "identity_wf X i"
  shows "identity_from_proto X (identity_to_proto i) = Ok i
    \<and> (\<forall>m j. identity_from_proto X m = Ok j \<longrightarrow>
          identity_wf X j \<and> id_node_id j = im_node_id m
          \<and> pk_from_slice X (im_public_key m) = Some (id_public_key j))"
  using assms
  by (auto simp: identity_from_proto_Ok identity_to_proto_def identity_wf_def identity_from_key_def)

definition sample_ext :: ext where
  "sample_ext = \<lparr> sha256 = (\<lambda>bs. take 32 (bs @ replicate 32 0)),
     ec_recover = (\<lambda>v r s m. if v = 27 \<and> s = take 32 (m @ replicate 32 0) then Some (r @ r) else None),
     pk_from_slice = (\<lambda>bs. if length bs = 64 then Some bs else None),
     pk_address = (\<lambda>pk. take 20 pk),
     node_id_of = (\<lambda>bs. if length bs = 20 then Some bs else None) \<rparr>"

theorem identity_binding_witness:
  "identity_from_proto sample_ext (identity_to_proto \<lparr> id_node_id = replicate 20 1, id_public_key = replicate 64 1 \<rparr>)
     = Ok \<lparr> id_node_id = replicate 20 1, id_public_key = replicate 64 1 \<rparr>"
proof -
  let ?i = "\<lparr> id_node_id = replicate 20 1, id_public_key = replicate 64 1 \<rparr>"
  have "pk_from_slice sample_ext (id_public_key ?i) = Some (id_public_key ?i)" "identity_wf sample_ext ?i"
    by (simp_all add: sample_ext_def identity_wf_def)
  from identity_binding [OF this] show ?thesis by blast
qed

end
