(* ===== verification/Challenge.thy ===== *)
theory Challenge
  imports Identity
begin

text \<open>
  The proof-of-work challenge and the recovery of identities from its response,
  \<^verbatim>\<open>crates/core/src/challenge.rs\<close>. The digest of the challenge is the argument \<open>D\<close>: a streaming
  digest fed with two pieces is the digest of their concatenation. A signer maps a message to the
  parts of a recoverable signature, or fails.
\<close>

definition SIGNATURE_SIZE :: nat where "SIGNATURE_SIZE = 65"
definition CHALLENGE_PREFIX_SIZE :: nat where "CHALLENGE_PREFIX_SIZE = 8"
definition CHALLENGE_SIZE :: nat where "CHALLENGE_SIZE = 16"
definition CHALLENGE_DIFFICULTY :: u64 where "CHALLENGE_DIFFICULTY = 16"

type_synonym signer = "bytes \<Rightarrow> (u8 \<times> bytes \<times> bytes) option"

definition challenge_digest :: "(bytes \<Rightarrow> bytes) \<Rightarrow> bytes \<Rightarrow> bytes \<Rightarrow> bytes" where
  "challenge_digest D nonce input = D (nonce @ input)"

text \<open>\<^verbatim>\<open>u8::leading_zeros\<close>.\<close>

definition u8_leading_zeros :: "u8 \<Rightarrow> nat" where
  "u8_leading_zeros b = length (takeWhile (\<lambda>i. \<not> bit b i) (rev [0..<8]))"

fun leading_zeros_loop :: "nat \<Rightarrow> bytes \<Rightarrow> nat" where
  "leading_zeros_loop tot [] = tot"
| "leading_zeros_loop tot (byte # bs) =
     (if byte = 0 then leading_zeros_loop (tot + 8) bs else tot + u8_leading_zeros byte)"

definition leading_zeros :: "bytes \<Rightarrow> nat" where
  "leading_zeros result = leading_zeros_loop 0 result"

function solve_loop :: "(bytes \<Rightarrow> bytes) \<Rightarrow> bytes \<Rightarrow> u64 \<Rightarrow> u64 \<Rightarrow> (bytes, core_error) result" where
  "solve_loop D challenge difficulty counter =
     (let prefix = u64_to_be counter; result = challenge_digest D prefix challenge in
      if leading_zeros result \<ge> unat difficulty then Ok (prefix @ result)
      else case checked_add counter 1 of
        None \<Rightarrow> Err (NoHash difficulty)
      | Some counter' \<Rightarrow> solve_loop D challenge difficulty counter')"
  by pat_completeness auto

termination
proof (relation "measure (\<lambda>(D, ch, d, c). 2 ^ 64 - unat c)")
  fix D :: "bytes \<Rightarrow> bytes" and challenge and difficulty counter counter' :: u64 and prefix result
  assume "checked_add counter 1 = Some counter'"
  then have "unat counter' = unat counter + 1" by (simp add: checked_add_Some_unat)
  moreover have "unat counter' < 2 ^ 64" by (rule order_less_le_trans [OF unsigned_less]) simp
  ultimately show "((D, challenge, difficulty, counter'), D, challenge, difficulty, counter)
      \<in> measure (\<lambda>(D, ch, d, c). 2 ^ 64 - unat c)" by simp
qed simp

declare solve_loop.simps [simp del]

definition solve_challenge :: "(bytes \<Rightarrow> bytes) \<Rightarrow> bytes \<Rightarrow> u64 \<Rightarrow> (bytes, core_error) result" where
  "solve_challenge D challenge difficulty = solve_loop D challenge difficulty 0"

definition challenge_verify :: "(bytes \<Rightarrow> bytes) \<Rightarrow> bytes \<Rightarrow> u64 \<Rightarrow> bytes \<Rightarrow> (bool, core_error) result" where
  "challenge_verify D challenge difficulty solution =
     (if length solution \<le> CHALLENGE_PREFIX_SIZE then Err (BadSolutionSize (length solution))
      else
        let prefix = take CHALLENGE_PREFIX_SIZE solution;
            to_verify = drop CHALLENGE_PREFIX_SIZE solution;
            expected = challenge_digest D prefix challenge;
            zeros = leading_zeros expected in
        Ok (expected = to_verify \<and> zeros \<ge> unat difficulty))"

definition hash_session_key :: "ext \<Rightarrow> bytes \<Rightarrow> bytes" where
  "hash_session_key X session_pub_key =
     sha256 X (map (\<lambda>c. of_nat (of_char c)) ''golem session key'' @ session_pub_key)"

definition sign_with :: "bytes \<Rightarrow> signer \<Rightarrow> (bytes, core_error) result" where
  "sign_with message crypto =
     (case crypto message of
        None \<Rightarrow> Err SigningFailed
      | Some (v, r, s) \<Rightarrow> Ok (v # r @ s))"

definition solve :: "ext \<Rightarrow> (bytes \<Rightarrow> bytes) \<Rightarrow> bytes \<Rightarrow> u64 \<Rightarrow> signer list \<Rightarrow> public_key \<Rightarrow>
    (challenge_response, core_error) result" where
  "solve X D challenge difficulty crypto_vec session_public_key =
     rbind (solve_challenge D challenge difficulty) (\<lambda>solution.
     let message = sha256 X solution in
     rbind (collect_results (sign_with message) crypto_vec) (\<lambda>signatures.
     let session_pub_key = session_public_key; session_key_msg = hash_session_key X session_pub_key in
     rbind (collect_results (sign_with session_key_msg) crypto_vec) (\<lambda>session_sign.
     Ok \<lparr> cr_solution = solution, cr_signatures = signatures, cr_session_sign = session_sign,
          cr_session_pub_key = session_pub_key \<rparr>)))"

definition recover :: "ext \<Rightarrow> bytes \<Rightarrow> bytes \<Rightarrow> (public_key, core_error) result" where
  "recover X sig message =
     (if length sig \<noteq> SIGNATURE_SIZE then Err (BadSignatureSize (length sig))
      else
        rbind (idx sig 0) (\<lambda>v.
        rbind (slice sig 1 33) (\<lambda>r.
        rbind (slice_from sig 33) (\<lambda>s.
        ok_or RecoveryFailed (ec_recover X v r s message)))))"

definition verify_session_key :: "ext \<Rightarrow> bytes \<Rightarrow> bytes \<Rightarrow> identity \<Rightarrow> (unit, core_error) result" where
  "verify_session_key X session_pub_key proof_bytes ident =
     (let m = hash_session_key X session_pub_key in
      rbind (recover X proof_bytes m) (\<lambda>id_key.
        if id_key \<noteq> id_public_key ident then Err WrongSessionKeySignature else Ok ()))"

text \<open>The loop over the session key signatures: each is checked, then recorded under its node.\<close>

fun collect_proofs :: "ext \<Rightarrow> bytes \<Rightarrow> (bytes \<times> identity) list \<Rightarrow> (node_id \<rightharpoonup> bytes) \<Rightarrow>
    (node_id \<rightharpoonup> bytes, core_error) result" where
  "collect_proofs X key [] proofs = Ok proofs"
| "collect_proofs X key ((signature, ident) # rest) proofs =
     rbind (verify_session_key X key signature ident) (\<lambda>_.
       collect_proofs X key rest (proofs(id_node_id ident \<mapsto> signature)))"

definition recover_identities_with_proof :: "ext \<Rightarrow> (bytes \<Rightarrow> bytes) \<Rightarrow> bytes \<Rightarrow> u64 \<Rightarrow>
    challenge_response option \<Rightarrow> node_id option \<Rightarrow>
    (node_id \<times> identity list \<times> (public_key \<times> (node_id \<rightharpoonup> bytes)) option, core_error) result" where
  "recover_identities_with_proof X D raw_challenge difficulty response remote_id =
     rbind (ok_or MissingChallengeResponse response) (\<lambda>response.
     rbind (challenge_verify D raw_challenge difficulty (cr_solution response)) (\<lambda>valid.
     if \<not> valid then Err VerificationFailed
     else
     let message = sha256 X (cr_solution response) in
     case cr_signatures response of
       [] \<Rightarrow> Err MissingSignature
     | sig # sigs \<Rightarrow>
         rbind (recover X sig message) (\<lambda>key.
         let default_ident = identity_from_key X key; default_id = id_node_id default_ident in
         if remote_id \<noteq> None \<and> remote_id \<noteq> Some default_id
         then Err (WrongDefaultNode (the remote_id) default_id)
         else
         rbind (collect_results (\<lambda>s. rbind (recover X s message) (\<lambda>k. Ok (identity_from_key X k))) sigs)
           (\<lambda>others.
         let identities = default_ident # others in
         if cr_session_sign response \<noteq> [] then
           if length (cr_session_sign response) \<noteq> length identities
           then Err (ProofCount (length (cr_session_sign response)) (length identities))
           else
             rbind (ok_or BadSessionKey (pk_from_slice X (cr_session_pub_key response))) (\<lambda>session_pub_key.
             rbind (collect_proofs X (cr_session_pub_key response)
                 (zip (cr_session_sign response) identities) Map.empty) (\<lambda>proofs.
             Ok (default_id, identities, Some (session_pub_key, proofs))))
         else Ok (default_id, identities, None)))))"

definition recover_identities_from_challenge :: "ext \<Rightarrow> (bytes \<Rightarrow> bytes) \<Rightarrow> bytes \<Rightarrow> u64 \<Rightarrow>
    challenge_response option \<Rightarrow> node_id option \<Rightarrow>
    (node_id \<times> identity list \<times> public_key option, core_error) result" where
  "recover_identities_from_challenge X D raw_challenge difficulty response remote_id =
     rbind (recover_identities_with_proof X D raw_challenge difficulty response remote_id)
       (\<lambda>(node_id, keys, pk). Ok (node_id, keys, map_option fst pk))"

definition recover_default_node_id :: "ext \<Rightarrow> req_session \<Rightarrow> (node_id, core_error) result" where
  "recover_default_node_id X request =
     (case qs_identities request of
        ident # _ \<Rightarrow> ok_or BadNodeId (node_id_of X (im_node_id ident))
      | [] \<Rightarrow> Err EmptyIdentities)"

text \<open>The random challenge is an argument.\<close>

definition prepare_challenge :: "bytes \<Rightarrow> u64 \<Rightarrow> challenge_request \<times> bytes" where
  "prepare_challenge raw_challenge difficulty =
     (\<lparr> cq_version = ''0.0.1'', cq_caps = 0, cq_kind = CHALLENGE_SHA3_512_LEADING_ZEROS,
        cq_difficulty = difficulty, cq_challenge = raw_challenge \<rparr>, raw_challenge)"

definition req_session_default :: req_session where
  "req_session_default = \<lparr> qs_challenge_req = None, qs_challenge_resp = None,
     qs_supported_encryptions = [], qs_identities = [], qs_client_version = [] \<rparr>"

definition resp_session_default :: resp_session where
  "resp_session_default = \<lparr> rs_challenge_req = None, rs_challenge_resp = None,
     rs_supported_encryptions = [], rs_identities = [] \<rparr>"

definition prepare_challenge_request :: "bytes \<Rightarrow> u64 \<Rightarrow> req_session \<times> bytes" where
  "prepare_challenge_request raw difficulty =
     (let (challenge, raw_challenge) = prepare_challenge raw difficulty in
      (req_session_default \<lparr> qs_challenge_req := Some challenge \<rparr>, raw_challenge))"

definition prepare_challenge_response :: "bytes \<Rightarrow> u64 \<Rightarrow> resp_session \<times> bytes" where
  "prepare_challenge_response raw difficulty =
     (let (challenge, raw_challenge) = prepare_challenge raw difficulty in
      (resp_session_default \<lparr> rs_challenge_req := Some challenge \<rparr>, raw_challenge))"

lemma unat_u64_lt: "unat (w :: u64) < 2 ^ 64"
  by (rule order_less_le_trans [OF unsigned_less]) simp

section \<open>Leading zeros\<close>

text \<open>The bits of a digest, most significant first, as a reference for the counting loop.\<close>

definition msb_bits :: "bytes \<Rightarrow> bool list" where
  "msb_bits bs = concat (map (\<lambda>b. map (bit b) (rev [0..<8])) bs)"

lemma u8_some_bit: "(b :: u8) \<noteq> 0 \<Longrightarrow> \<exists>i<8. bit b i"
proof (rule ccontr)
  assume "b \<noteq> 0" "\<not> (\<exists>i<8. bit b i)"
  then have "b = 0" by (intro bit_word_eqI) auto
  with \<open>b \<noteq> 0\<close> show False by blast
qed

lemma takeWhile_byte_append:
  assumes "b \<noteq> (0 :: u8)"
  shows "takeWhile Not (map (bit b) (rev [0..<8]) @ r) = takeWhile Not (map (bit b) (rev [0..<8]))"
proof -
  obtain i where "i < 8" "bit b i" using u8_some_bit [OF assms] by blast
  then have "True \<in> set (map (bit b) (rev [0..<8]))" by auto
  then show ?thesis by (rule takeWhile_append1) simp
qed

lemma length_takeWhile_map: "length (takeWhile P (map f xs)) = length (takeWhile (\<lambda>x. P (f x)) xs)"
  by (induction xs) auto

lemma leading_zeros_loop_bits:
  "leading_zeros_loop tot bs = tot + length (takeWhile Not (msb_bits bs))"
proof (induction bs arbitrary: tot)
  case (Cons b bs)
  show ?case
  proof (cases "b = 0")
    case True
    then have "map (bit b) (rev [0..<8]) = replicate 8 False"
      by (intro nth_equalityI) simp_all
    moreover have "length (takeWhile Not (replicate 8 False @ r)) = 8 + length (takeWhile Not r)" for r
      by (subst takeWhile_append2) auto
    ultimately show ?thesis using True Cons by (simp add: msb_bits_def)
  next
    case False
    then show ?thesis
      using takeWhile_byte_append [OF False]
      by (simp add: msb_bits_def u8_leading_zeros_def length_takeWhile_map)
  qed
qed (simp add: msb_bits_def)

section \<open>Solving and verifying\<close>

lemma solve_loop_Ok:
  "solve_loop D ch d c = Ok sol \<Longrightarrow>
     \<exists>n. sol = u64_to_be n @ D (u64_to_be n @ ch) \<and> unat d \<le> leading_zeros (D (u64_to_be n @ ch))
       \<and> unat c \<le> unat n
       \<and> (\<forall>m. unat c \<le> unat m \<and> unat m < unat n \<longrightarrow> leading_zeros (D (u64_to_be m @ ch)) < unat d)"
proof (induction D ch d c rule: solve_loop.induct)
  case (1 D ch d c)
  show ?case
  proof (cases "unat d \<le> leading_zeros (D (u64_to_be c @ ch))")
    case True
    then have "sol = u64_to_be c @ D (u64_to_be c @ ch)"
      using "1.prems" by (simp add: solve_loop.simps [of D ch d c] challenge_digest_def Let_def)
    then show ?thesis using True by (intro exI [of _ c]) auto
  next
    case False
    then obtain c' where c': "checked_add c 1 = Some c'" "solve_loop D ch d c' = Ok sol"
      using "1.prems" by (auto simp: solve_loop.simps [of D ch d c] challenge_digest_def Let_def
          split: option.splits)
    have u: "unat c' = unat c + 1" using checked_add_Some_unat [OF c'(1)] by simp
    obtain n where n: "sol = u64_to_be n @ D (u64_to_be n @ ch)"
        "unat d \<le> leading_zeros (D (u64_to_be n @ ch))" "unat c' \<le> unat n"
      and lt: "\<And>m. unat c' \<le> unat m \<Longrightarrow> unat m < unat n \<Longrightarrow> leading_zeros (D (u64_to_be m @ ch)) < unat d"
      using "1.IH" [OF refl refl _ c'(1,2)] False by (auto simp: challenge_digest_def)
    have "leading_zeros (D (u64_to_be m @ ch)) < unat d" if "unat c \<le> unat m" "unat m < unat n" for m
    proof (cases "m = c")
      case True
      then show ?thesis using False by simp
    next
      case False
      then have "unat c \<noteq> unat m" by (simp add: word_unat_eq_iff)
      then show ?thesis using that lt [of m] u by simp
    qed
    then show ?thesis using n u by (intro exI [of _ n]) auto
  qed
qed

lemma solve_loop_Err:
  "solve_loop D ch d c = Err e \<Longrightarrow>
     e = NoHash d \<and> (\<forall>m. unat c \<le> unat m \<longrightarrow> leading_zeros (D (u64_to_be m @ ch)) < unat d)"
proof (induction D ch d c rule: solve_loop.induct)
  case (1 D ch d c)
  have nz: "leading_zeros (D (u64_to_be c @ ch)) < unat d"
    using "1.prems" by (simp add: solve_loop.simps [of D ch d c] challenge_digest_def Let_def
        split: if_splits)
  show ?case
  proof (cases "checked_add c 1")
    case None
    then have "2 ^ 64 \<le> unat c + 1" by (auto simp: checked_add_def split: if_splits)
    then have "m = c" if "unat c \<le> unat m" for m
      using that unat_u64_lt [of m] by (simp add: word_unat_eq_iff)
    moreover have "e = NoHash d"
      using "1.prems" nz None by (simp add: solve_loop.simps [of D ch d c] challenge_digest_def Let_def)
    ultimately show ?thesis using nz by blast
  next
    case (Some c')
    have u: "unat c' = unat c + 1" using checked_add_Some_unat [OF Some] by simp
    have "solve_loop D ch d c' = Err e"
      using "1.prems" nz Some by (simp add: solve_loop.simps [of D ch d c] challenge_digest_def Let_def)
    then have ih: "e = NoHash d" "\<forall>m. unat c' \<le> unat m \<longrightarrow> leading_zeros (D (u64_to_be m @ ch)) < unat d"
      using "1.IH" [OF refl refl _ Some] nz by (auto simp: challenge_digest_def)
    moreover have "m = c \<or> unat c' \<le> unat m" if "unat c \<le> unat m" for m
      using that u by (auto simp: word_unat_eq_iff)
    ultimately show ?thesis using nz by blast
  qed
qed

lemma solve_loop_no_panic: "solve_loop D ch d c \<noteq> Panic"
proof (induction D ch d c rule: solve_loop.induct)
  case (1 D ch d c)
  then show ?case
    by (subst solve_loop.simps) (auto simp: Let_def challenge_digest_def split: option.splits)
qed

lemma challenge_verify_True:
  "challenge_verify D ch d sol = Ok True \<longleftrightarrow>
     (\<exists>n. length n = 8 \<and> D (n @ ch) \<noteq> [] \<and> sol = n @ D (n @ ch) \<and> unat d \<le> leading_zeros (D (n @ ch)))"
proof
  assume "challenge_verify D ch d sol = Ok True"
  then show "\<exists>n. length n = 8 \<and> D (n @ ch) \<noteq> [] \<and> sol = n @ D (n @ ch)
      \<and> unat d \<le> leading_zeros (D (n @ ch))"
    by (intro exI [of _ "take 8 sol"])
       (auto simp: challenge_verify_def CHALLENGE_PREFIX_SIZE_def challenge_digest_def Let_def
         split: if_splits dest: sym)
next
  assume "\<exists>n. length n = 8 \<and> D (n @ ch) \<noteq> [] \<and> sol = n @ D (n @ ch)
      \<and> unat d \<le> leading_zeros (D (n @ ch))"
  then show "challenge_verify D ch d sol = Ok True"
    by (auto simp: challenge_verify_def CHALLENGE_PREFIX_SIZE_def challenge_digest_def)
qed

lemma solve_challenge_verified:
  assumes "\<forall>x. D x \<noteq> []" "solve_challenge D ch d = Ok sol"
  shows "challenge_verify D ch d sol = Ok True"
proof -
  obtain n where "sol = u64_to_be n @ D (u64_to_be n @ ch)"
      "unat d \<le> leading_zeros (D (u64_to_be n @ ch))"
    using solve_loop_Ok [of D ch d 0 sol] assms(2) unfolding solve_challenge_def by blast
  then show ?thesis
    using assms(1) unfolding challenge_verify_True by (intro exI [of _ "u64_to_be n"]) simp
qed

section \<open>Recovering identities\<close>

lemma recover_no_panic: "recover X sig m \<noteq> Panic"
  by (auto simp: recover_def SIGNATURE_SIZE_def slice_defs)

lemma recover_signed:
  assumes "length r = 32" "length s = 32"
  shows "recover X (v # r @ s) m = ok_or RecoveryFailed (ec_recover X v r s m)"
  using assms by (simp add: recover_def SIGNATURE_SIZE_def slice_defs)

lemma verify_session_key_Ok:
  "verify_session_key X key p i = Ok () \<longleftrightarrow> recover X p (hash_session_key X key) = Ok (id_public_key i)"
  by (auto simp: verify_session_key_def rbind_eq_Ok_iff Let_def split: if_splits)

lemma verify_session_key_no_panic: "verify_session_key X key p i \<noteq> Panic"
  by (auto simp: verify_session_key_def rbind_eq_Panic_iff recover_no_panic Let_def)

definition proof_map :: "(bytes \<times> identity) list \<Rightarrow> (node_id \<rightharpoonup> bytes)" where
  "proof_map ps = map_of (rev (map (\<lambda>(s, i). (id_node_id i, s)) ps))"

lemma proof_map_Cons: "proof_map ((s, i) # ps) = [id_node_id i \<mapsto> s] ++ proof_map ps"
  by (simp add: proof_map_def)

lemma collect_proofs_Ok:
  "collect_proofs X key ps m = Ok m' \<longleftrightarrow>
     (\<forall>(s, i) \<in> set ps. verify_session_key X key s i = Ok ()) \<and> m' = m ++ proof_map ps"
proof (induction ps arbitrary: m)
  case (Cons p ps)
  obtain s i where p: "p = (s, i)" by (cases p)
  define m1 where "m1 = m(id_node_id i \<mapsto> s)"
  have "m ++ proof_map (p # ps) = m1 ++ proof_map ps"
    by (simp add: p proof_map_Cons m1_def)
  moreover have "collect_proofs X key (p # ps) m = Ok m' \<longleftrightarrow>
      verify_session_key X key s i = Ok () \<and> collect_proofs X key ps m1 = Ok m'"
    by (auto simp: p m1_def rbind_eq_Ok_iff fun_upd_def)
  ultimately show ?case
    using Cons.IH [of m1] p by auto
qed (auto simp: proof_map_def)

lemma collect_proofs_no_panic: "collect_proofs X key ps m \<noteq> Panic"
  by (induction ps arbitrary: m) (auto simp: rbind_eq_Panic_iff verify_session_key_no_panic)

lemma dom_proof_map: "dom (proof_map ps) = id_node_id ` snd ` set ps"
  by (force simp: proof_map_def dom_map_of_conv_image_fst image_image case_prod_unfold)

lemma proof_map_verified:
  assumes "\<forall>(s, i) \<in> set ps. Q s i" "proof_map ps n = Some s"
  shows "\<exists>i. (s, i) \<in> set ps \<and> id_node_id i = n \<and> Q s i"
  using map_of_SomeD [OF assms(2) [unfolded proof_map_def]] assms(1) by auto

text \<open>What a successful recovery established, relative to the response.\<close>

definition recovered :: "ext \<Rightarrow> (bytes \<Rightarrow> bytes) \<Rightarrow> bytes \<Rightarrow> u64 \<Rightarrow> challenge_response \<Rightarrow> node_id option \<Rightarrow>
    node_id \<Rightarrow> identity list \<Rightarrow> (public_key \<times> (node_id \<rightharpoonup> bytes)) option \<Rightarrow> bool" where
  "recovered X D ch d r remote nid ids key \<longleftrightarrow>
     challenge_verify D ch d (cr_solution r) = Ok True
   \<and> list_all2 (\<lambda>sig i. recover X sig (sha256 X (cr_solution r)) = Ok (id_public_key i) \<and> identity_wf X i)
       (cr_signatures r) ids
   \<and> ids \<noteq> [] \<and> nid = id_node_id (hd ids) \<and> (remote = None \<or> remote = Some nid)
   \<and> (case key of
        None \<Rightarrow> cr_session_sign r = []
      | Some (pk, proofs) \<Rightarrow>
          pk_from_slice X (cr_session_pub_key r) = Some pk
        \<and> list_all2 (\<lambda>s i. verify_session_key X (cr_session_pub_key r) s i = Ok ()) (cr_session_sign r) ids
        \<and> dom proofs = id_node_id ` set ids
        \<and> (\<forall>n s. proofs n = Some s \<longrightarrow>
             (\<exists>i \<in> set ids. id_node_id i = n \<and> verify_session_key X (cr_session_pub_key r) s i = Ok ())))"

lemma recover_others_Ok:
  "collect_results (\<lambda>s. rbind (recover X s m) (\<lambda>k. Ok (identity_from_key X k))) sigs = Ok ids \<longleftrightarrow>
     list_all2 (\<lambda>sig i. recover X sig m = Ok (id_public_key i) \<and> identity_wf X i) sigs ids"
proof -
  have "rbind (recover X s m) (\<lambda>k. Ok (identity_from_key X k)) = Ok i \<longleftrightarrow>
      recover X s m = Ok (id_public_key i) \<and> identity_wf X i" for s i
    by (auto simp: rbind_eq_Ok_iff identity_from_key_def identity_wf_def)
  then show ?thesis by (simp add: collect_results_Ok_iff)
qed

lemma proofs_established:
  assumes "length ss = length ids" "collect_proofs X key (zip ss ids) Map.empty = Ok proofs"
  shows "list_all2 (\<lambda>s i. verify_session_key X key s i = Ok ()) ss ids
    \<and> dom proofs = id_node_id ` set ids
    \<and> (\<forall>n s. proofs n = Some s \<longrightarrow>
         (\<exists>i \<in> set ids. id_node_id i = n \<and> verify_session_key X key s i = Ok ()))"
proof -
  have v: "\<forall>(s, i) \<in> set (zip ss ids). verify_session_key X key s i = Ok ()"
    and p: "proofs = proof_map (zip ss ids)"
    using assms(2) by (simp_all add: collect_proofs_Ok)
  have "snd ` set (zip ss ids) = set ids"
    using assms(1) by (metis list.set_map map_snd_zip)
  then show ?thesis
    using v assms(1) dom_proof_map [of "zip ss ids"]
    by (auto simp: p list_all2_iff dest!: proof_map_verified [OF v] intro: set_zip_rightD)
qed

lemma recover_identities_Ok:
  assumes "recover_identities_with_proof X D ch d resp remote = Ok (nid, ids, key)"
  shows "\<exists>r. resp = Some r \<and> recovered X D ch d r remote nid ids key"
proof -
  obtain r where r: "resp = Some r" using assms
    by (cases resp) (auto simp: recover_identities_with_proof_def)
  have v: "challenge_verify D ch d (cr_solution r) = Ok True"
    using assms r by (auto simp: recover_identities_with_proof_def rbind_eq_Ok_iff split: if_splits)
  obtain sig sigs where sg: "cr_signatures r = sig # sigs"
    using assms r v by (cases "cr_signatures r") (auto simp: recover_identities_with_proof_def Let_def)
  let ?m = "sha256 X (cr_solution r)"
  obtain k others where k: "recover X sig ?m = Ok k"
    and o: "collect_results (\<lambda>s. rbind (recover X s ?m) (\<lambda>k. Ok (identity_from_key X k))) sigs = Ok others"
    and rest: "\<not> (remote \<noteq> None \<and> remote \<noteq> Some (id_node_id (identity_from_key X k)))"
      "ids = identity_from_key X k # others" "nid = id_node_id (identity_from_key X k)"
      "if cr_session_sign r \<noteq> [] then length (cr_session_sign r) = length ids
         \<and> (\<exists>pk proofs. pk_from_slice X (cr_session_pub_key r) = Some pk \<and> key = Some (pk, proofs)
              \<and> collect_proofs X (cr_session_pub_key r) (zip (cr_session_sign r) ids) Map.empty = Ok proofs)
       else key = None"
    using assms r v sg
    by (auto simp: recover_identities_with_proof_def rbind_eq_Ok_iff Let_def split: if_splits)
  have all: "list_all2 (\<lambda>sig i. recover X sig ?m = Ok (id_public_key i) \<and> identity_wf X i)
      (cr_signatures r) ids"
    using k o rest(2) sg by (simp add: recover_others_Ok)
  have "recovered X D ch d r remote nid ids key"
    using v all rest proofs_established [of "cr_session_sign r" ids X "cr_session_pub_key r"]
    by (cases "cr_session_sign r = []") (auto simp: recovered_def)
  then show ?thesis using r by blast
qed

lemma recover_identities_no_panic: "recover_identities_with_proof X D ch d resp remote \<noteq> Panic"
proof -
  have "challenge_verify D ch d s \<noteq> Panic" for s by (simp add: challenge_verify_def Let_def)
  moreover have "collect_results (\<lambda>s. rbind (recover X s m) (\<lambda>k. Ok (identity_from_key X k))) ss \<noteq> Panic" for m ss
    by (rule collect_results_no_panic) (auto simp: rbind_eq_Panic_iff recover_no_panic)
  ultimately show ?thesis
    by (auto simp: recover_identities_with_proof_def rbind_eq_Panic_iff recover_no_panic
        collect_proofs_no_panic Let_def split: list.split)
qed

section \<open>Properties\<close>

text \<open>
  C27: solving a challenge always ends: with the solution for the smallest counter whose digest has
  enough leading zero bits, which \<open>verify\<close> accepts, or with an error when no 64-bit counter has one.
\<close>

theorem solve_challenge_correct:
  assumes "\<forall>x. D x \<noteq> []"
  shows "case solve_challenge D ch d of
      Ok sol \<Rightarrow> challenge_verify D ch d sol = Ok True
        \<and> (\<exists>n. sol = u64_to_be n @ D (u64_to_be n @ ch)
             \<and> (\<forall>m. unat m < unat n \<longrightarrow> leading_zeros (D (u64_to_be m @ ch)) < unat d))
    | Err e \<Rightarrow> e = NoHash d \<and> (\<forall>m. leading_zeros (D (u64_to_be m @ ch)) < unat d)
    | Panic \<Rightarrow> False"
proof (cases "solve_challenge D ch d")
  case (Ok sol)
  then show ?thesis
    using solve_challenge_verified [OF assms Ok] solve_loop_Ok [of D ch d 0 sol]
    by (fastforce simp: solve_challenge_def)
next
  case (Err e)
  then show ?thesis using solve_loop_Err [of D ch d 0 e] by (simp add: solve_challenge_def)
next
  case Panic
  then show ?thesis using solve_loop_no_panic [of D ch d 0] by (simp add: solve_challenge_def)
qed

theorem solve_challenge_correct_witness:
  "solve_challenge (\<lambda>x. [0, last x]) [5] 8 = Ok (u64_to_be 0 @ [0, 5])
   \<and> challenge_verify (\<lambda>x. [0, last x]) [5] 8 (u64_to_be 0 @ [0, 5]) = Ok True"
proof -
  have "solve_challenge (\<lambda>x. [0, last x]) [5] 8 = Ok (u64_to_be 0 @ [0, 5])"
    by (simp add: solve_challenge_def solve_loop.simps challenge_digest_def leading_zeros_def Let_def)
  moreover have "\<forall>x. (\<lambda>x :: bytes. [0 :: u8, last x]) x \<noteq> []" by simp
  ultimately show ?thesis
    using solve_challenge_correct [of "\<lambda>x. [0, last x]" "[5]" 8] by simp
qed

text \<open>
  verification accepts exactly the solutions of the puzzle: an eight-byte nonce followed by the
  digest of nonce and challenge, where the digest, read as a bit string, starts with at least
  \<open>difficulty\<close> zeros. In particular the byte loop that counts zeros agrees with the bit string.
\<close>

theorem challenge_verify_exact:
  "challenge_verify D ch d sol = Ok True \<longleftrightarrow>
     (\<exists>n. length n = 8 \<and> D (n @ ch) \<noteq> [] \<and> sol = n @ D (n @ ch)
        \<and> unat d \<le> length (takeWhile Not (msb_bits (D (n @ ch)))))"
  unfolding challenge_verify_True leading_zeros_def leading_zeros_loop_bits by simp

text \<open>
  C5: identities recovered from a challenge response are authenticated: the proof of work was valid for
  this challenge, every returned identity's key signed the solution and its node identifier is the
  address of that key, the default identity is the first signer and the expected remote node, and a
  returned session key was signed by every identity, each recorded proof verifying for its node.
  Recovery never panics.
\<close>

theorem recovered_identities_authentic:
  "case recover_identities_with_proof X D ch d resp remote of
     Ok (nid, ids, key) \<Rightarrow> (\<exists>r. resp = Some r \<and> recovered X D ch d r remote nid ids key)
   | Err e \<Rightarrow> True
   | Panic \<Rightarrow> False"
  using recover_identities_Ok [of X D ch d resp remote] recover_identities_no_panic [of X D ch d resp remote]
  by (cases "recover_identities_with_proof X D ch d resp remote") auto

text \<open>
  A signer whose signatures of digests recover to its public key, as the signature library documents. The
  code signs nothing but digests.
\<close>

definition signer_ok :: "ext \<Rightarrow> signer \<Rightarrow> public_key \<Rightarrow> bool" where
  "signer_ok X c pk \<longleftrightarrow> (\<forall>x. case c (sha256 X x) of None \<Rightarrow> False
     | Some (v, r, s) \<Rightarrow> length r = 32 \<and> length s = 32 \<and> ec_recover X v r s (sha256 X x) = Some pk)"

lemma signer_ok_recover:
  assumes "signer_ok X c pk" "m = sha256 X x"
  shows "\<exists>sig. sign_with m c = Ok sig \<and> recover X sig m = Ok pk"
proof -
  obtain v r s where "c m = Some (v, r, s)" "length r = 32" "length s = 32" "ec_recover X v r s m = Some pk"
    using assms by (auto simp: signer_ok_def dest!: spec [of _ x] split: option.splits)
  then show ?thesis using recover_signed [of r s X v m] by (simp add: sign_with_def)
qed

lemma signers_ok_collect:
  assumes "list_all2 (signer_ok X) signers pks" "m = sha256 X x"
  shows "\<exists>sigs. collect_results (sign_with m) signers = Ok sigs
     \<and> list_all2 (\<lambda>sig i. recover X sig m = Ok (id_public_key i) \<and> identity_wf X i) sigs
         (map (identity_from_key X) pks)"
  using assms(1)
proof (induction rule: list_all2_induct)
  case (Cons c cs pk pks)
  obtain sig where "sign_with m c = Ok sig" "recover X sig m = Ok pk"
    using signer_ok_recover [OF Cons(1) assms(2)] by blast
  then show ?case using Cons(3) by (auto simp: identity_from_key_def identity_wf_def)
qed simp

lemma honest_response_recovered:
  assumes "\<forall>x. D x \<noteq> []" "list_all2 (signer_ok X) signers pks" "signers \<noteq> []"
    and "pk_from_slice X spk = Some spk" "solve X D ch d signers spk = Ok resp"
    and "remote = None \<or> remote = Some (pk_address X (hd pks))"
  shows "\<exists>proofs. recover_identities_with_proof X D ch d (Some resp) remote
      = Ok (pk_address X (hd pks), map (identity_from_key X) pks, Some (spk, proofs))
    \<and> dom proofs = pk_address X ` set pks"
proof -
  let ?ids = "map (identity_from_key X) pks"
  obtain sol sigs ssig where sol: "solve_challenge D ch d = Ok sol"
    and sigs: "collect_results (sign_with (sha256 X sol)) signers = Ok sigs"
    and ssig: "collect_results (sign_with (hash_session_key X spk)) signers = Ok ssig"
    and resp: "resp = \<lparr> cr_solution = sol, cr_signatures = sigs, cr_session_sign = ssig, cr_session_pub_key = spk \<rparr>"
    using assms(5) by (auto simp: solve_def rbind_eq_Ok_iff Let_def)
  have v: "challenge_verify D ch d sol = Ok True" by (rule solve_challenge_verified [OF assms(1) sol])
  have l: "list_all2 (\<lambda>sig i. recover X sig (sha256 X sol) = Ok (id_public_key i) \<and> identity_wf X i) sigs ?ids"
    using signers_ok_collect [OF assms(2) refl, of sol] sigs by auto
  have l2: "list_all2 (\<lambda>sig i. recover X sig (hash_session_key X spk) = Ok (id_public_key i) \<and> identity_wf X i) ssig ?ids"
    using signers_ok_collect [OF assms(2) hash_session_key_def [of X spk]] ssig by auto
  obtain pk rest where pks: "pks = pk # rest" using assms(2,3) by (cases pks) auto
  obtain sig sigs' where sg: "sigs = sig # sigs'" and k: "recover X sig (sha256 X sol) = Ok pk"
    and others: "collect_results (\<lambda>s. rbind (recover X s (sha256 X sol)) (\<lambda>k. Ok (identity_from_key X k))) sigs'
        = Ok (map (identity_from_key X) rest)"
    using l pks by (auto simp: list_all2_Cons2 recover_others_Ok)
  have len: "length ssig = length ?ids" using l2 by (rule list_all2_lengthD)
  have "\<forall>(s, i) \<in> set (zip ssig ?ids). verify_session_key X spk s i = Ok ()"
    using l2 by (auto simp: list_all2_iff verify_session_key_Ok)
  then have pr: "collect_proofs X spk (zip ssig ?ids) Map.empty = Ok (proof_map (zip ssig ?ids))"
    by (simp add: collect_proofs_Ok)
  have "snd ` set (zip ssig ?ids) = set ?ids" using len by (metis list.set_map map_snd_zip)
  then have dm: "dom (proof_map (zip ssig ?ids)) = pk_address X ` set pks"
    by (simp add: dom_proof_map image_image)
  have "ssig \<noteq> []" using len pks by auto
  then have "recover_identities_with_proof X D ch d (Some resp) remote
      = Ok (pk_address X (hd pks), ?ids, Some (spk, proof_map (zip ssig ?ids)))"
    using v resp sg k others len pr assms(4,6) pks
    by (auto simp: recover_identities_with_proof_def Let_def)
  then show ?thesis using dm by blast
qed

text \<open>
  C26: an honest node passes: the response \<open>solve\<close> builds with signers for the given keys is accepted,
  yielding the identities of those keys in order, the first as the default, the session key, and a proof
  for every identity.
\<close>

theorem honest_response_accepted:
  assumes "\<forall>x. D x \<noteq> []" "list_all2 (signer_ok X) signers pks" "signers \<noteq> []"
    and "pk_from_slice X spk = Some spk" "solve X D ch d signers spk = Ok resp"
    and "remote = None \<or> remote = Some (pk_address X (hd pks))"
  shows "\<exists>proofs. recover_identities_with_proof X D ch d (Some resp) remote
      = Ok (pk_address X (hd pks), map (identity_from_key X) pks, Some (spk, proofs))
    \<and> dom proofs = pk_address X ` set pks"
  using assms by (rule honest_response_recovered)

definition sample_signer :: signer where
  "sample_signer m = Some (27, replicate 32 3, take 32 (m @ replicate 32 0))"

lemma sample_signer_ok: "signer_ok sample_ext sample_signer (replicate 64 3)"
  by (auto simp: signer_ok_def sample_signer_def sample_ext_def replicate_add [symmetric] min_def)

theorem honest_response_accepted_witness:
  "\<exists>resp proofs. solve sample_ext (\<lambda>x. [0, last x]) [5] 8 [sample_signer] (replicate 64 4) = Ok resp
    \<and> recover_identities_with_proof sample_ext (\<lambda>x. [0, last x]) [5] 8 (Some resp) None
      = Ok (pk_address sample_ext (replicate 64 3), [identity_from_key sample_ext (replicate 64 3)],
            Some (replicate 64 4, proofs))"
proof -
  have "solve_challenge (\<lambda>x. [0, last x]) [5] 8 = Ok (u64_to_be 0 @ [0, 5])"
    by (simp add: solve_challenge_def solve_loop.simps challenge_digest_def leading_zeros_def Let_def)
  then obtain resp where resp: "solve sample_ext (\<lambda>x. [0, last x]) [5] 8 [sample_signer] (replicate 64 4) = Ok resp"
    by (simp add: solve_def sign_with_def sample_signer_def Let_def)
  have "pk_from_slice sample_ext (replicate 64 4) = Some (replicate 64 4)"
    by (simp add: sample_ext_def)
  from honest_response_accepted [of "\<lambda>x. [0, last x]" sample_ext "[sample_signer]" "[replicate 64 3]",
      OF _ _ _ this resp, of None]
  show ?thesis using resp sample_signer_ok by auto
qed

end
