(* ===== verification/Core_Session.thy ===== *)
theory Core_Session
  imports Challenge Net_Addr
begin

text \<open>
  Session identifiers, node information and the request history of
  \<^verbatim>\<open>crates/core/src/server_session.rs\<close>. The history is shared behind a lock in the code; its
  operations run under the lock and are functions on its contents here.
\<close>

definition SESSION_ID_SIZE :: nat where "SESSION_ID_SIZE = 16"

datatype transport_type = Unreliable | Reliable | Transfer

section \<open>Session identifiers\<close>

text \<open>A session identifier is a 16-byte array, here its bytes.\<close>

type_synonym session_id = bytes

definition session_id_try_from :: "bytes \<Rightarrow> (session_id, core_error) result" where
  "session_id_try_from session = (if length session = SESSION_ID_SIZE then Ok session else Err BadSessionId)"

definition session_id_from_wire :: "bytes \<Rightarrow> (session_id option, core_error) result" where
  "session_id_from_wire bs =
     (if bs = [] then Ok None else rbind (session_id_try_from bs) (\<lambda>s. Ok (Some s)))"

definition hex_digit :: "nat \<Rightarrow> char" where
  "hex_digit d = (if d < 10 then char_of (48 + d) else char_of (87 + d))"

definition session_id_show :: "session_id \<Rightarrow> string" where
  "session_id_show s = concat (map (\<lambda>b. [hex_digit (unat b div 16), hex_digit (unat b mod 16)]) s)"

section \<open>Node information\<close>

record node_info =
  ni_identities :: "identity list"
  ni_authenticated_identities :: "node_id list"
  ni_slot :: slot_id
  ni_endpoints :: "endpoint list"
  ni_supported_encryption :: "string list"
  ni_session_key :: "public_key option"

definition default_node_id :: "node_info \<Rightarrow> (node_id, 'e) result" where
  "default_node_id info = (case ni_identities info of [] \<Rightarrow> Panic | i # _ \<Rightarrow> Ok (id_node_id i))"

definition node_public_key :: "node_info \<Rightarrow> (public_key, 'e) result" where
  "node_public_key info = (case ni_identities info of [] \<Rightarrow> Panic | i # _ \<Rightarrow> Ok (id_public_key i))"

text \<open>The loop over the proofs of all identities: empty proofs are skipped, each other one must verify.\<close>

fun authenticate_identities :: "ext \<Rightarrow> bytes \<Rightarrow> (identity \<times> bytes) list \<Rightarrow> node_id list \<Rightarrow>
    (node_id list, core_error) result" where
  "authenticate_identities X key [] acc = Ok acc"
| "authenticate_identities X key ((ident, prf) # rest) acc =
     (if prf = [] then authenticate_identities X key rest acc
      else rbind (verify_session_key X key prf ident) (\<lambda>_.
        authenticate_identities X key rest
          (if id_node_id ident \<in> set acc then acc else acc @ [id_node_id ident])))"

fun endpoint_core_error :: "endpoint_error \<Rightarrow> core_error" where
  "endpoint_core_error EndpointAddress = BadAddress"
| "endpoint_core_error (EndpointProtocol p) = BadProtocol p"

definition node_info_session_key :: "ext \<Rightarrow> resp_node \<Rightarrow> identity list \<Rightarrow> identity \<Rightarrow>
    (node_id list \<times> public_key option, core_error) result" where
  "node_info_session_key X value identities default_identity =
     (if rn_session_pub_key value \<noteq> [] then
        if rn_session_key_proofs value \<noteq> [] \<and> length (rn_session_key_proofs value) \<noteq> length identities
        then Err (ProofCount (length (rn_session_key_proofs value)) (length identities))
        else
          rbind (if rn_session_key_proof value \<noteq> []
                 then rbind (verify_session_key X (rn_session_pub_key value) (rn_session_key_proof value)
                        default_identity) (\<lambda>_. Ok [id_node_id default_identity])
                 else Ok []) (\<lambda>authenticated.
          rbind (authenticate_identities X (rn_session_pub_key value)
                   (zip identities (rn_session_key_proofs value)) authenticated) (\<lambda>authenticated.
          if id_node_id default_identity \<notin> set authenticated then Err MissingDefaultProof
          else rbind (ok_or BadSessionKey (pk_from_slice X (rn_session_pub_key value))) (\<lambda>key.
            Ok (authenticated, Some key))))
      else Ok ([], None))"

definition node_info_try_from :: "ext \<Rightarrow> v6_text \<Rightarrow> resp_node \<Rightarrow> (node_info, core_error) result" where
  "node_info_try_from X V value =
     rbind (collect_results (identity_from_proto X) (rn_identities value)) (\<lambda>identities.
     case identities of
       [] \<Rightarrow> Err NoIdentities
     | default_identity # _ \<Rightarrow>
         rbind (node_info_session_key X value identities default_identity) (\<lambda>(authenticated, session_key).
         rbind (collect_results (\<lambda>e. map_err endpoint_core_error (endpoint_try_from V e)) (rn_endpoints value))
           (\<lambda>endpoints.
         Ok \<lparr> ni_identities = identities, ni_authenticated_identities = authenticated,
              ni_slot = rn_slot value, ni_endpoints = endpoints,
              ni_supported_encryption = rn_supported_encryptions value, ni_session_key = session_key \<rparr>)))"

section \<open>Request history\<close>

record request_history =
  rh_capacity :: nat
  rh_ids :: "u64 list"

definition request_history_new :: "nat \<Rightarrow> request_history" where
  "request_history_new capacity = \<lparr> rh_capacity = capacity, rh_ids = [] \<rparr>"

definition request_history_push :: "u64 \<Rightarrow> request_history \<Rightarrow> request_history" where
  "request_history_push request_id h =
     (let ids = (if length (rh_ids h) = rh_capacity h then tl (rh_ids h) else rh_ids h) in
      h\<lparr> rh_ids := ids @ [request_id] \<rparr>)"

definition request_history_contains :: "u64 \<Rightarrow> request_history \<Rightarrow> bool" where
  "request_history_contains request_id h \<longleftrightarrow> request_id \<in> set (rh_ids h)"

section \<open>Facts\<close>

declare verify_session_key_no_panic [simp]

lemma authenticate_identities_Ok:
  assumes "authenticate_identities X key ps acc = Ok auth" "distinct acc"
  shows "distinct auth \<and> set auth =
    set acc \<union> {id_node_id i | i p. (i, p) \<in> set ps \<and> p \<noteq> []}
    \<and> (\<forall>(i, p) \<in> set ps. p \<noteq> [] \<longrightarrow> verify_session_key X key p i = Ok ())"
  using assms
proof (induction ps arbitrary: acc)
  case (Cons a ps)
  obtain i p where a: "a = (i, p)" by (cases a)
  show ?case
  proof (cases "p = []")
    case True
    then show ?thesis using Cons by (auto simp: a)
  next
    case False
    define acc' where "acc' = (if id_node_id i \<in> set acc then acc else acc @ [id_node_id i])"
    have "verify_session_key X key p i = Ok ()" "authenticate_identities X key ps acc' = Ok auth"
      using Cons.prems False by (auto simp: a rbind_eq_Ok_iff acc'_def)
    moreover have "distinct acc'" "set acc' = insert (id_node_id i) (set acc)"
      using Cons.prems by (auto simp: acc'_def)
    ultimately show ?thesis using Cons.IH [of acc'] False by (auto simp: a)
  qed
qed simp

lemma authenticate_identities_no_panic: "authenticate_identities X key ps acc \<noteq> Panic"
  by (induction X key ps acc rule: authenticate_identities.induct) (auto simp: rbind_eq_Panic_iff)

lemma endpoint_try_from_no_panic [simp]: "endpoint_try_from V e \<noteq> Panic"
  by (auto simp: endpoint_try_from_def rbind_eq_Panic_iff Let_def split: if_splits)

lemma map_err_eq_Panic [simp]: "map_err f r = Panic \<longleftrightarrow> r = Panic"
  by (cases r) simp_all

lemma map_err_eq_Ok [simp]: "map_err f r = Ok x \<longleftrightarrow> r = Ok x"
  by (cases r) simp_all

lemma node_info_session_key_no_panic: "node_info_session_key X value ids d \<noteq> Panic"
  by (auto simp: node_info_session_key_def rbind_eq_Panic_iff authenticate_identities_no_panic split: if_splits)

lemma node_info_try_from_no_panic: "node_info_try_from X V value \<noteq> Panic"
  by (auto simp: node_info_try_from_def rbind_eq_Panic_iff collect_results_no_panic identity_from_proto_no_panic
      node_info_session_key_no_panic split: list.splits)

text \<open>
  What a session key claim in a node description amounts to once it is accepted: every authenticated
  node identifier belongs to an identity of the description whose key signed the session key.
\<close>

definition session_key_claim :: "ext \<Rightarrow> bytes \<Rightarrow> node_info \<Rightarrow> bool" where
  "session_key_claim X key info \<longleftrightarrow>
     distinct (ni_authenticated_identities info)
   \<and> (\<forall>n \<in> set (ni_authenticated_identities info). \<exists>i \<in> set (ni_identities info). \<exists>p.
        id_node_id i = n \<and> recover X p (hash_session_key X key) = Ok (id_public_key i))"

lemma verify_session_key_Ok_iff:
  "verify_session_key X key p i = Ok () \<longleftrightarrow> recover X p (hash_session_key X key) = Ok (id_public_key i)"
  by (auto simp: verify_session_key_def rbind_eq_Ok_iff Let_def)

lemma node_info_session_key_Ok:
  assumes "node_info_session_key X value ids d = Ok (auth, sk)" "d \<in> set ids"
  shows "distinct auth
    \<and> (\<forall>n \<in> set auth. \<exists>i \<in> set ids. \<exists>p. id_node_id i = n
        \<and> recover X p (hash_session_key X (rn_session_pub_key value)) = Ok (id_public_key i))
    \<and> (case sk of None \<Rightarrow> auth = [] | Some k \<Rightarrow> id_node_id d \<in> set auth
        \<and> pk_from_slice X (rn_session_pub_key value) = Some k)"
proof (cases "rn_session_pub_key value = []")
  case True
  then show ?thesis using assms by (simp add: node_info_session_key_def)
next
  case False
  then obtain acc k where acc: "acc = [] \<or> acc = [id_node_id d]
      \<and> verify_session_key X (rn_session_pub_key value) (rn_session_key_proof value) d = Ok ()"
    and auth: "authenticate_identities X (rn_session_pub_key value) (zip ids (rn_session_key_proofs value)) acc = Ok auth"
    and k: "sk = Some k" "pk_from_slice X (rn_session_pub_key value) = Some k" "id_node_id d \<in> set auth"
    using assms by (fastforce simp: node_info_session_key_def rbind_eq_Ok_iff split: if_splits)
  have "distinct acc" using acc by auto
  note a = authenticate_identities_Ok [OF auth this]
  have "\<exists>i \<in> set ids. \<exists>p. id_node_id i = n
      \<and> recover X p (hash_session_key X (rn_session_pub_key value)) = Ok (id_public_key i)" if n: "n \<in> set auth" for n
  proof (cases "n \<in> set acc")
    case True
    then show ?thesis using acc assms(2) by (auto simp: verify_session_key_Ok_iff)
  next
    case False
    then obtain i p where "(i, p) \<in> set (zip ids (rn_session_key_proofs value))" "p \<noteq> []" "id_node_id i = n"
      using a n by auto
    then show ?thesis using a by (fastforce simp: verify_session_key_Ok_iff dest: set_zip_leftD)
  qed
  then show ?thesis using a k by simp
qed

lemma collect_identities_Ok:
  assumes "collect_results (identity_from_proto X) ms = Ok ids"
  shows "map id_node_id ids = map im_node_id ms \<and> (\<forall>i \<in> set ids. identity_wf X i)"
proof -
  have "list_all2 (\<lambda>m i. identity_from_proto X m = Ok i) ms ids"
    using assms by (simp add: collect_results_Ok_iff)
  then show ?thesis by (induction rule: list_all2_induct) (auto simp: identity_from_proto_Ok)
qed

lemma authenticate_all_ok:
  assumes "list_all2 (\<lambda>i p. p \<noteq> [] \<and> verify_session_key X key p i = Ok ()) ids proofs"
  shows "\<exists>auth. authenticate_identities X key (zip ids proofs) acc = Ok auth
    \<and> set auth = set acc \<union> id_node_id ` set ids"
  using assms
proof (induction arbitrary: acc rule: list_all2_induct)
  case (Cons i ids p proofs)
  define acc' where "acc' = (if id_node_id i \<in> set acc then acc else acc @ [id_node_id i])"
  have "set acc' = insert (id_node_id i) (set acc)" by (auto simp: acc'_def)
  moreover obtain auth where "authenticate_identities X key (zip ids proofs) acc' = Ok auth"
      "set auth = set acc' \<union> id_node_id ` set ids"
    using Cons.IH [of acc'] by blast
  ultimately show ?case using Cons.hyps by (simp add: acc'_def)
qed simp

lemma recover_neq_Nil: "recover X sig m = Ok pk \<Longrightarrow> sig \<noteq> []"
  by (auto simp: recover_def SIGNATURE_SIZE_def)

lemma collect_identities_of_keys:
  assumes "\<forall>pk \<in> set pks. pk_from_slice X pk = Some pk"
  shows "collect_results (identity_from_proto X) (map (\<lambda>pk. identity_to_proto (identity_from_key X pk)) pks)
    = Ok (map (identity_from_key X) pks)"
  using assms
  by (simp add: collect_results_Ok_iff list_all2_conv_all_nth identity_from_proto_Ok identity_to_proto_def)

lemma take_last_push:
  assumes "0 < c"
  shows "drop (length (xs @ [x]) - c) (xs @ [x]) =
    (if length (drop (length xs - c) xs) = c then tl (drop (length xs - c) xs) else drop (length xs - c) xs) @ [x]"
proof (cases "length xs < c")
  case False
  then have "length (xs @ [x]) - c = Suc (length xs - c)" using assms by simp
  then show ?thesis using False assms by (simp add: tl_drop drop_Suc)
qed simp

lemma history_push_last:
  assumes "0 < c" "rh_capacity h = c" "rh_ids h = drop (length xs - c) xs"
  shows "rh_ids (fold request_history_push ys h) = drop (length (xs @ ys) - c) (xs @ ys)"
  using assms
proof (induction ys arbitrary: xs h)
  case (Cons y ys)
  have "rh_ids (request_history_push y h) = drop (length (xs @ [y]) - c) (xs @ [y])"
    using Cons.prems take_last_push [of c xs y] by (simp add: request_history_push_def Let_def)
  moreover have "rh_capacity (request_history_push y h) = c"
    using Cons.prems by (simp add: request_history_push_def Let_def)
  ultimately show ?case using Cons.IH [of "request_history_push y h" "xs @ [y]"] Cons.prems(1) by simp
qed simp

section \<open>Properties\<close>

text \<open>
  C31: node information taken from a response is consistent: it has a default identity, every node
  identifier is the address of the key it comes with, every identity listed as authenticated has signed
  the session key, a session key is only kept when the default identity has signed it, and a malformed
  description is an error, never a panic.
\<close>

theorem node_info_authenticated:
  "case node_info_try_from X V value of
     Ok info \<Rightarrow>
       map id_node_id (ni_identities info) = map im_node_id (rn_identities value)
     \<and> list_all (identity_wf X) (ni_identities info)
     \<and> default_node_id info = (Ok (im_node_id (hd (rn_identities value))) :: (node_id, core_error) result)
     \<and> session_key_claim X (rn_session_pub_key value) info
     \<and> (case ni_session_key info of
          None \<Rightarrow> ni_authenticated_identities info = []
        | Some k \<Rightarrow> pk_from_slice X (rn_session_pub_key value) = Some k
            \<and> im_node_id (hd (rn_identities value)) \<in> set (ni_authenticated_identities info))
   | Err e \<Rightarrow> True
   | Panic \<Rightarrow> False"
proof (cases "node_info_try_from X V value")
  case (Ok info)
  then obtain l where l: "collect_results (identity_from_proto X) (rn_identities value) = Ok l" "l \<noteq> []"
    unfolding node_info_try_from_def rbind_eq_Ok_iff by (metis list.simps(4) result.distinct(1))
  then obtain d ids where "l = d # ids" by (cases l) auto
  with l Ok obtain auth sk where ids: "collect_results (identity_from_proto X) (rn_identities value) = Ok (d # ids)"
    and key: "node_info_session_key X value (d # ids) d = Ok (auth, sk)"
    and info: "ni_identities info = d # ids" "ni_authenticated_identities info = auth" "ni_session_key info = sk"
    by (auto simp: node_info_try_from_def rbind_eq_Ok_iff)
  have "id_node_id d = im_node_id (hd (rn_identities value))"
    using collect_identities_Ok [OF ids] by (cases "rn_identities value") auto
  then show ?thesis
    using Ok info collect_identities_Ok [OF ids] node_info_session_key_Ok [OF key]
    by (cases sk) (simp_all add: session_key_claim_def default_node_id_def list_all_iff)
qed (use node_info_try_from_no_panic in auto)

text \<open>
  C32: what an honest node proves is accepted in full: the description made of its identities, of the
  session key signatures it produced while solving the challenge and of its IPv4 endpoints yields its identities, its
  session key and its endpoints, and lists all its identities as authenticated. The library reads back the
  keys of the node and its session key, which is not empty. Endpoints with an IPv6 address are not covered.
\<close>

theorem honest_node_info:
  assumes "list_all2 (signer_ok X) signers pks" "signers \<noteq> []" "spk \<noteq> []"
    and "\<forall>pk \<in> set (spk # pks). pk_from_slice X pk = Some pk" "solve X D ch d signers spk = Ok resp"
    and "rn_identities value = map (\<lambda>pk. identity_to_proto (identity_from_key X pk)) pks"
    and "rn_session_pub_key value = cr_session_pub_key resp" "rn_session_key_proofs value = cr_session_sign resp"
    and "rn_session_key_proof value = hd (cr_session_sign resp)" "rn_endpoints value = map (endpoint_to_proto V) eps"
    and "\<forall>e \<in> set eps. valid_protocol (ep_protocol e) \<and> (\<exists>a b c d. sa_ip (ep_address e) = IpAddrV4 a b c d)"
  shows "\<exists>info. node_info_try_from X V value = Ok info \<and> ni_session_key info = Some spk
    \<and> ni_identities info = map (identity_from_key X) pks \<and> ni_endpoints info = eps
    \<and> set (ni_authenticated_identities info) = pk_address X ` set pks"
proof -
  obtain sigs where sigs: "collect_results (sign_with (hash_session_key X spk)) signers = Ok sigs"
    and resp: "cr_session_sign resp = sigs" "cr_session_pub_key resp = spk"
    using assms(5) by (auto simp: solve_def rbind_eq_Ok_iff Let_def)
  let ?ids = "map (identity_from_key X) pks"
  have signed: "list_all2 (\<lambda>sig i. recover X sig (hash_session_key X spk) = Ok (id_public_key i) \<and> identity_wf X i) sigs ?ids"
    using signers_ok_collect [OF assms(1) hash_session_key_def [of X spk]] sigs by auto
  obtain pk pks' where pks: "pks = pk # pks'"
    using assms(1,2) by (cases pks) auto
  obtain sig sigs' where s: "sigs = sig # sigs'" using signed pks by (cases sigs) auto
  have all: "list_all2 (\<lambda>i p. p \<noteq> [] \<and> verify_session_key X spk p i = Ok ()) ?ids sigs"
    using signed by (auto simp: verify_session_key_Ok_iff list_all2_conv_all_nth dest: recover_neq_Nil)
  obtain auth where auth: "authenticate_identities X spk (zip ?ids sigs) [pk_address X pk] = Ok auth"
    "set auth = insert (pk_address X pk) (id_node_id ` set ?ids)"
    using authenticate_all_ok [OF all, of "[pk_address X pk]"] by auto
  have head: "verify_session_key X spk sig (identity_from_key X pk) = Ok ()" "sig \<noteq> []"
    using all by (simp_all add: pks s)
  have "length sigs = length pks" using list_all2_lengthD [OF signed] by simp
  then have "node_info_session_key X value ?ids (identity_from_key X pk) = Ok (auth, Some spk)"
    using assms(3,4,7-9) resp head auth by (simp add: node_info_session_key_def s pks)
  moreover have "collect_results (\<lambda>e. map_err endpoint_core_error (endpoint_try_from V e)) (rn_endpoints value) = Ok eps"
    using assms(11) endpoint_roundtrip_v4(1) unfolding assms(10) by (induction eps) fastforce+
  ultimately show ?thesis
    using assms(4,6) auth(2) collect_identities_of_keys [of pks X]
    by (simp add: node_info_try_from_def pks image_image)
qed

text \<open>
  the request history is a window: it holds exactly the last \<open>capacity\<close> request identifiers, for
  every positive capacity and every sequence of pushes; with capacity 0 nothing is ever evicted.
\<close>

theorem request_history_window:
  assumes "0 < c"
  shows "rh_ids (fold request_history_push ids (request_history_new c)) = drop (length ids - c) ids
    \<and> rh_ids (fold request_history_push ids (request_history_new 0)) = ids"
proof -
  have "rh_ids (fold request_history_push ids h) = rh_ids h @ ids"
    if "rh_capacity h = 0" for h
    using that
  proof (induction ids arbitrary: h)
    case (Cons i ids)
    then show ?case using Cons.IH [of "request_history_push i h"]
      by (simp add: request_history_push_def Let_def)
  qed simp
  then show ?thesis
    using history_push_last [OF assms, of "request_history_new c" "[]" ids]
    by (simp add: request_history_new_def)
qed

theorem request_history_window_witness:
  "rh_ids (fold request_history_push [1, 2, 3] (request_history_new 2)) = [2, 3]
    \<and> rh_ids (fold request_history_push [1, 2, 3] (request_history_new 0)) = [1, 2, 3]"
  using request_history_window [of 2 "[1, 2, 3]"] by simp


definition sample_node :: resp_node where
  "sample_node = \<lparr> rn_identities = [identity_to_proto (identity_from_key sample_ext (replicate 64 3))],
     rn_endpoints = [endpoint_to_proto sample_v6 \<lparr> ep_protocol = PROTOCOL_UDP, ep_address = sample_addr \<rparr>],
     rn_seen_ts = 0, rn_slot = 3, rn_supported_encryptions = [], rn_session_pub_key = replicate 64 4,
     rn_session_key_proof = 27 # replicate 32 3 @ take 32 (hash_session_key sample_ext (replicate 64 4) @ replicate 32 0),
     rn_session_key_proofs = [27 # replicate 32 3 @ take 32 (hash_session_key sample_ext (replicate 64 4) @ replicate 32 0)] \<rparr>"

theorem honest_node_info_witness:
  "\<exists>info. node_info_try_from sample_ext sample_v6 sample_node = Ok info \<and> ni_session_key info = Some (replicate 64 4)
    \<and> ni_endpoints info = [\<lparr> ep_protocol = PROTOCOL_UDP, ep_address = sample_addr \<rparr>]
    \<and> set (ni_authenticated_identities info) = pk_address sample_ext ` {replicate 64 3}"
proof -
  define sol where "sol = u64_to_be 0 @ [0, 5 :: u8]"
  have sol: "solve_challenge (\<lambda>x. [0, last x]) [5] 8 = Ok sol"
    by (simp add: sol_def solve_challenge_def solve_loop.simps challenge_digest_def leading_zeros_def Let_def)
  have "pk_from_slice sample_ext (replicate 64 c) = Some (replicate 64 c)" for c
    by (simp add: sample_ext_def)
  then show ?thesis
    using honest_node_info [of sample_ext "[sample_signer]" "[replicate 64 3]" "replicate 64 4" "\<lambda>x. [0, last x]" "[5]" 8
        "\<lparr> cr_solution = sol, cr_signatures = [27 # replicate 32 3 @ take 32 (sha256 sample_ext sol @ replicate 32 0)],
          cr_session_sign = rn_session_key_proofs sample_node, cr_session_pub_key = replicate 64 4 \<rparr>" sample_node sample_v6
        "[\<lparr> ep_protocol = PROTOCOL_UDP, ep_address = sample_addr \<rparr>]"]
    by (auto simp: valid_protocol_def sample_addr_def solve_def sol sample_signer_ok sample_node_def sign_with_def sample_signer_def Let_def)
qed

end
