(* ===== verification/Session_Store.thy ===== *)
theory Session_Store
  imports Core_Session "HOL-Library.AList"
begin

text \<open>
  Time stamps (\<^verbatim>\<open>server/src/state/last_seen.rs\<close>) and the sharded table of sessions inside
  \<^verbatim>\<open>server/src/state/session_manager.rs\<close>: 16 hash maps, one lock each. A hash map is an association list
  with distinct keys. The hash function of the standard library is unspecified and an argument; the
  interface \<open>keyed_store\<close> states what the session manager relies on.
\<close>

section \<open>Time stamps\<close>

text \<open>Instants and durations are nanoseconds; a time stamp counts seconds since the server's start.\<close>

definition NANOS :: nat where "NANOS = 1000000000"

record clock =
  ck_now :: nat
  ck_ts :: u32

definition clock_now :: "nat \<Rightarrow> nat \<Rightarrow> clock" where
  "clock_now server_start now = \<lparr> ck_now = now, ck_ts = of_nat ((now - server_start) div NANOS) \<rparr>"

definition clock_last_seen :: "clock \<Rightarrow> u32" where
  "clock_last_seen c = ck_ts c"

definition clock_age :: "clock \<Rightarrow> u32 \<Rightarrow> nat" where
  "clock_age c ts = unat (saturating_sub (ck_ts c) ts) * NANOS"

definition last_seen_now :: "nat \<Rightarrow> nat \<Rightarrow> u32" where
  "last_seen_now server_start now = of_nat ((now - server_start) div NANOS)"

definition last_seen_age :: "nat \<Rightarrow> nat \<Rightarrow> u32 \<Rightarrow> nat" where
  "last_seen_age server_start now ts = now - (server_start + unat ts * NANOS)"

definition ts_decoder_new :: "nat \<Rightarrow> nat \<Rightarrow> nat \<Rightarrow> (u64, 'e) result" where
  "ts_decoder_new server_start now unix_now =
     (if unix_now < now - server_start then Panic
      else Ok (of_nat ((unix_now - (now - server_start)) div NANOS)))"

definition ts_decode :: "u64 \<Rightarrow> u32 \<Rightarrow> (u64, 'e) result" where
  "ts_decode rel_ts ts = add_panic (ucast ts) rel_ts"

section \<open>Shards\<close>

type_synonym 'v shards = "(session_id \<times> 'v) list list"

definition shards_new :: "'v shards" where
  "shards_new = replicate 16 []"

definition session_slot :: "(session_id \<Rightarrow> u64) \<Rightarrow> session_id \<Rightarrow> nat" where
  "session_slot H session = unat (and (H session) 0xf)"

definition shard_get :: "(session_id \<Rightarrow> u64) \<Rightarrow> session_id \<Rightarrow> 'v shards \<Rightarrow> 'v option" where
  "shard_get H session ss = map_of (ss ! session_slot H session) session"

definition shard_insert :: "(session_id \<Rightarrow> u64) \<Rightarrow> session_id \<Rightarrow> 'v \<Rightarrow> 'v shards \<Rightarrow> 'v shards" where
  "shard_insert H session v ss =
     ss[session_slot H session := AList.update session v (ss ! session_slot H session)]"

definition shard_remove :: "(session_id \<Rightarrow> u64) \<Rightarrow> session_id \<Rightarrow> 'v shards \<Rightarrow> 'v shards" where
  "shard_remove H session ss =
     ss[session_slot H session := AList.delete session (ss ! session_slot H session)]"

definition shard_retain :: "('v \<Rightarrow> bool) \<Rightarrow> 'v shards \<Rightarrow> 'v shards" where
  "shard_retain P ss = map (filter (\<lambda>(_, v). P v)) ss"

definition shard_count :: "'v shards \<Rightarrow> nat" where
  "shard_count ss = sum_list (map length ss)"

definition shard_values :: "'v shards \<Rightarrow> 'v list" where
  "shard_values ss = concat (map (map snd) ss)"

section \<open>The interface of a keyed store\<close>

datatype ('k, 'v) store_op = Put 'k 'v | Del 'k | Keep "'v \<Rightarrow> bool"

fun map_run :: "('k, 'v) store_op list \<Rightarrow> ('k \<rightharpoonup> 'v) \<Rightarrow> ('k \<rightharpoonup> 'v)" where
  "map_run [] m = m"
| "map_run (Put k v # ops) m = map_run ops (m(k \<mapsto> v))"
| "map_run (Del k # ops) m = map_run ops (m(k := None))"
| "map_run (Keep P # ops) m = map_run ops (\<lambda>k. Option.bind (m k) (\<lambda>v. if P v then Some v else None))"

fun shards_run :: "(session_id \<Rightarrow> u64) \<Rightarrow> (session_id, 'v) store_op list \<Rightarrow> 'v shards \<Rightarrow> 'v shards" where
  "shards_run H [] s = s"
| "shards_run H (Put k v # ops) s = shards_run H ops (shard_insert H k v s)"
| "shards_run H (Del k # ops) s = shards_run H ops (shard_remove H k s)"
| "shards_run H (Keep P # ops) s = shards_run H ops (shard_retain P s)"

locale keyed_store =
  fixes wf :: "'s \<Rightarrow> bool" and get :: "'k \<Rightarrow> 's \<Rightarrow> 'v option" and put :: "'k \<Rightarrow> 'v \<Rightarrow> 's \<Rightarrow> 's"
    and del :: "'k \<Rightarrow> 's \<Rightarrow> 's" and keep :: "('v \<Rightarrow> bool) \<Rightarrow> 's \<Rightarrow> 's" and vals :: "'s \<Rightarrow> 'v list"
  assumes wf_put [simp]: "wf s \<Longrightarrow> wf (put k v s)"
    and wf_del [simp]: "wf s \<Longrightarrow> wf (del k s)"
    and wf_keep [simp]: "wf s \<Longrightarrow> wf (keep P s)"
    and get_put [simp]: "wf s \<Longrightarrow> get k' (put k v s) = (if k' = k then Some v else get k' s)"
    and get_del [simp]: "wf s \<Longrightarrow> get k' (del k s) = (if k' = k then None else get k' s)"
    and get_keep [simp]: "wf s \<Longrightarrow>
      get k (keep P s) = Option.bind (get k s) (\<lambda>v. if P v then Some v else None)"
    and vals_get: "wf s \<Longrightarrow> v \<in> set (vals s) \<longleftrightarrow> (\<exists>k. get k s = Some v)"
begin

lemma vals_put_new:
  assumes "wf s" "get k s = None"
  shows "set (vals (put k v s)) = insert v (set (vals s))"
proof -
  have "(\<exists>k'. get k' (put k v s) = Some x) \<longleftrightarrow> x = v \<or> (\<exists>k'. get k' s = Some x)" for x
    using assms by (metis get_put option.distinct(1) option.inject)
  then show ?thesis using assms by (simp add: vals_get set_eq_iff del: get_put)
qed

lemma vals_del:
  assumes "wf s"
  shows "set (vals (del k s)) = {v. \<exists>k'. k' \<noteq> k \<and> get k' s = Some v}"
  using assms by (auto simp: vals_get split: if_splits)

lemma vals_del_subset: "wf s \<Longrightarrow> set (vals (del k s)) \<subseteq> set (vals s)"
  by (auto simp: vals_get split: if_splits)

lemma vals_keep: "wf s \<Longrightarrow> set (vals (keep P s)) = {v \<in> set (vals s). P v}"
proof -
  assume wf: "wf s"
  have "get k (keep P s) = Some x \<longleftrightarrow> get k s = Some x \<and> P x" for k x
    using wf by (cases "get k s") auto
  then show "set (vals (keep P s)) = {v \<in> set (vals s). P v}"
    using wf by (simp add: vals_get set_eq_iff del: get_keep)
qed

lemma put_del_other: "wf s \<Longrightarrow> k \<noteq> k' \<Longrightarrow> get k (del k' (put k v s)) = Some v"
  by simp

end

section \<open>Facts\<close>

definition shards_wf :: "(session_id \<Rightarrow> u64) \<Rightarrow> 'v shards \<Rightarrow> bool" where
  "shards_wf H ss \<longleftrightarrow> length ss = 16
     \<and> (\<forall>i < 16. distinct (map fst (ss ! i)) \<and> (\<forall>k \<in> fst ` set (ss ! i). session_slot H k = i))"

lemma session_slot_lt [simp]: "session_slot H k < 16"
proof -
  have "and (H k) 0xf \<le> 0xf" by (rule word_and_le1)
  then show ?thesis by (simp add: session_slot_def word_le_nat_alt)
qed

lemma shards_wf_new: "shards_wf H shards_new"
  by (simp add: shards_wf_def shards_new_def)

lemma shards_wf_slot:
  assumes "shards_wf H ss"
  shows "length ss = 16" "i < 16 \<Longrightarrow> distinct (map fst (ss ! i))"
    "i < 16 \<Longrightarrow> k \<in> fst ` set (ss ! i) \<Longrightarrow> session_slot H k = i"
  using assms by (auto simp: shards_wf_def)

lemma shards_wf_update:
  assumes "shards_wf H ss" "distinct (map fst l)" "\<forall>k \<in> fst ` set l. session_slot H k = i" "i < 16"
  shows "shards_wf H (ss[i := l])"
  using assms by (auto simp: shards_wf_def nth_list_update)

lemma shards_wf_insert: "shards_wf H ss \<Longrightarrow> shards_wf H (shard_insert H k v ss)"
  unfolding shard_insert_def
  by (rule shards_wf_update) (auto simp: shards_wf_slot distinct_update dom_update dest: shards_wf_slot(3))

lemma shards_wf_remove: "shards_wf H ss \<Longrightarrow> shards_wf H (shard_remove H k ss)"
  unfolding shard_remove_def
  by (rule shards_wf_update) (auto simp: shards_wf_slot AList.delete_eq distinct_map_filter dest: shards_wf_slot(3))

lemma shards_wf_retain: "shards_wf H ss \<Longrightarrow> shards_wf H (shard_retain P ss)"
  by (auto simp: shards_wf_def shard_retain_def distinct_map_filter)

lemma shard_get_insert:
  assumes "shards_wf H ss"
  shows "shard_get H k' (shard_insert H k v ss) = (if k' = k then Some v else shard_get H k' ss)"
  using shards_wf_slot(1) [OF assms]
  by (simp add: shard_get_def shard_insert_def nth_list_update update_conv)

lemma shard_get_remove:
  assumes "shards_wf H ss"
  shows "shard_get H k' (shard_remove H k ss) = (if k' = k then None else shard_get H k' ss)"
  using shards_wf_slot(1) [OF assms]
  by (simp add: shard_get_def shard_remove_def nth_list_update delete_conv)

lemma map_of_filter_value:
  "distinct (map fst l) \<Longrightarrow>
     map_of (filter (\<lambda>(_, v). P v) l) k = Option.bind (map_of l k) (\<lambda>v. if P v then Some v else None)"
  by (induction l) (auto simp: map_of_eq_None_iff image_iff split: option.splits)

lemma shard_get_retain:
  assumes "shards_wf H ss"
  shows "shard_get H k (shard_retain P ss) = Option.bind (shard_get H k ss) (\<lambda>v. if P v then Some v else None)"
  using assms
  by (simp add: shard_get_def shard_retain_def shards_wf_slot map_of_filter_value)

lemma shard_values_get:
  assumes "shards_wf H ss"
  shows "v \<in> set (shard_values ss) \<longleftrightarrow> (\<exists>k. shard_get H k ss = Some v)"
proof -
  have get: "shard_get H k ss = Some v \<longleftrightarrow> (k, v) \<in> set (ss ! session_slot H k)" for k
    using assms by (simp add: shard_get_def shards_wf_slot map_of_eq_Some_iff)
  have slot: "session_slot H k = i" if "i < 16" "(k, v) \<in> set (ss ! i)" for i k
    using shards_wf_slot(3) [OF assms that(1)] that(2) by (force simp: image_iff)
  have "v \<in> set (shard_values ss) \<longleftrightarrow> (\<exists>i < 16. \<exists>k. (k, v) \<in> set (ss ! i))"
  proof -
    have "(\<exists>l \<in> set ss. v \<in> snd ` set l) \<longleftrightarrow> (\<exists>i < 16. v \<in> snd ` set (ss ! i))"
      using shards_wf_slot(1) [OF assms] by (metis in_set_conv_nth)
    moreover have "v \<in> snd ` set l \<longleftrightarrow> (\<exists>k. (k, v) \<in> set l)" for l :: "(session_id \<times> 'a) list" by force
    ultimately show ?thesis by (simp add: shard_values_def)
  qed
  then show ?thesis using slot by (metis get session_slot_lt)
qed

interpretation st: keyed_store "shards_wf H" "shard_get H" "shard_insert H" "shard_remove H" shard_retain shard_values
  for H
  by unfold_locales
    (simp_all add: shards_wf_insert shards_wf_remove shards_wf_retain shard_get_insert shard_get_remove shard_get_retain
      shard_values_get)

lemma shard_get_new [simp]: "shard_get H k shards_new = None"
  by (simp add: shard_get_def shards_new_def)

section \<open>Properties\<close>

text \<open>
  C16: the sharded table is a map: whatever the hash function, any sequence of insertions, removals and purges on the
  16 shards has the effect of the same sequence on one map from session identifiers.
\<close>

theorem session_store_refines:
  "(\<lambda>k. shard_get H k (shards_run H ops shards_new)) = map_run ops Map.empty"
proof -
  have "shards_wf H s \<Longrightarrow> (\<lambda>k. shard_get H k (shards_run H ops s)) = map_run ops (\<lambda>k. shard_get H k s)" for s
  proof (induction H ops s rule: shards_run.induct)
    case (2 H k v ops s)
    then have "(\<lambda>k'. shard_get H k' (shard_insert H k v s)) = (\<lambda>k. shard_get H k s)(k \<mapsto> v)" by auto
    then show ?case using 2 by simp
  next
    case (3 H k ops s)
    then have "(\<lambda>k'. shard_get H k' (shard_remove H k s)) = (\<lambda>k. shard_get H k s)(k := None)" by auto
    then show ?case using 3 by simp
  qed simp_all
  from this [OF shards_wf_new] show ?thesis by simp
qed

end
