(* ===== verification/Sessions.thy ===== *)
theory Sessions
  imports Session_Store
begin

text \<open>
  The session manager of the server, \<^verbatim>\<open>server/src/state/session_manager.rs\<close>. Sessions are shared objects:
  they live in a heap and a reference is their index. The shards hold strong references, the node table
  weak ones; a weak reference can be upgraded while some strong one exists, in a shard or \<open>held\<close> by a task
  (a running handler or a pending address check). Events sent to subscribers are recorded in order.
\<close>

type_synonym sref = nat

datatype addr_status = AddrUnknown | AddrPending nat | AddrValid nat | AddrInvalid nat

fun addr_is_pending :: "addr_status \<Rightarrow> bool" where
  "addr_is_pending AddrUnknown = True"
| "addr_is_pending (AddrPending _) = True"
| "addr_is_pending _ = False"

fun addr_is_valid :: "addr_status \<Rightarrow> bool" where
  "addr_is_valid (AddrValid _) = True"
| "addr_is_valid _ = False"

definition addr_set_valid :: "nat \<Rightarrow> bool \<Rightarrow> addr_status" where
  "addr_set_valid now valid = (if valid then AddrValid now else AddrInvalid now)"

fun addr_age :: "nat \<Rightarrow> addr_status \<Rightarrow> nat" where
  "addr_age now (AddrValid v) = now - v"
| "addr_age now (AddrInvalid v) = now - v"
| "addr_age now _ = 0"

type_synonym session_key_proofs = "public_key \<times> (node_id \<rightharpoonup> bytes)"

record session =
  se_session_id :: session_id
  se_peer :: socket_addr
  se_ts :: u32
  se_node_id :: node_id
  se_keys :: "identity list"
  se_supported_encryptions :: "string list"
  se_addr_status :: addr_status
  se_session_key :: "session_key_proofs option"

definition session_endpoint :: "v6_text \<Rightarrow> session \<Rightarrow> endpoint_msg option" where
  "session_endpoint V s =
     (case se_addr_status s of
        AddrValid _ \<Rightarrow> Some \<lparr> em_protocol = PROTOCOL_UDP, em_address = show_ip V (sa_ip (se_peer s)),
          em_port = ucast (sa_port (se_peer s)) \<rparr>
      | _ \<Rightarrow> None)"

datatype node_event = NodeNew node_id | NodeLost node_id | NodeLag nat

datatype list_mode = Humming | Split

definition list_mode_from_str :: "string \<Rightarrow> list_mode option" where
  "list_mode_from_str s = (if s = ''humming'' then Some Humming else if s = ''split'' then Some Split else None)"

datatype flag = FlagDefault | FlagTrust | FlagUnTrust

record session_manager =
  sm_sessions :: "sref shards"
  sm_node_sessions :: "(node_id \<times> sref list) list"
  sm_flagged_nodes :: "node_id \<rightharpoonup> flag"
  sm_mode :: int
  sm_node_events :: "node_event list"
  sm_heap :: "session list"
  sm_held :: "sref list"

definition session_manager_new :: session_manager where
  "session_manager_new = \<lparr> sm_sessions = shards_new, sm_node_sessions = [], sm_flagged_nodes = Map.empty,
     sm_mode = 0, sm_node_events = [], sm_heap = [], sm_held = [] \<rparr>"

definition set_mode :: "list_mode \<Rightarrow> session_manager \<Rightarrow> session_manager" where
  "set_mode mode m = m\<lparr> sm_mode := (case mode of Humming \<Rightarrow> 0 | Split \<Rightarrow> 1) \<rparr>"

definition mode :: "session_manager \<Rightarrow> list_mode" where
  "mode m = (if sm_mode m = 1 then Split else Humming)"

definition num_sessions :: "session_manager \<Rightarrow> nat" where
  "num_sessions m = shard_count (sm_sessions m)"

definition num_nodes :: "session_manager \<Rightarrow> nat" where
  "num_nodes m = length (sm_node_sessions m)"

definition flag_node :: "node_id \<Rightarrow> flag \<Rightarrow> session_manager \<Rightarrow> bool \<times> session_manager" where
  "flag_node node_id flag m =
     (case flag of
        FlagDefault \<Rightarrow> (sm_flagged_nodes m node_id \<noteq> None, m\<lparr> sm_flagged_nodes := (sm_flagged_nodes m)(node_id := None) \<rparr>)
      | _ \<Rightarrow> (sm_flagged_nodes m node_id \<noteq> None, m\<lparr> sm_flagged_nodes := (sm_flagged_nodes m)(node_id \<mapsto> flag) \<rparr>))"

section \<open>References\<close>

definition live :: "session_manager \<Rightarrow> sref \<Rightarrow> bool" where
  "live m r \<longleftrightarrow> r \<in> set (shard_values (sm_sessions m)) \<or> r \<in> set (sm_held m)"

definition node_refs :: "session_manager \<Rightarrow> node_id \<Rightarrow> sref list" where
  "node_refs m node_id = (case map_of (sm_node_sessions m) node_id of None \<Rightarrow> [] | Some g \<Rightarrow> g)"

definition deref :: "session_manager \<Rightarrow> sref \<Rightarrow> session" where
  "deref m r = sm_heap m ! r"

text \<open>Updates through the interior mutability of a session: its time stamp and address status.\<close>

definition update_session :: "sref \<Rightarrow> (session \<Rightarrow> session) \<Rightarrow> session_manager \<Rightarrow> session_manager" where
  "update_session r f m = m\<lparr> sm_heap := (sm_heap m)[r := f (sm_heap m ! r)] \<rparr>"

section \<open>Linking sessions to nodes\<close>

definition link_session :: "node_id \<Rightarrow> sref \<Rightarrow> session_manager \<Rightarrow> session_manager" where
  "link_session node_id r m =
     (let g = filter (live m) (node_refs m node_id);
          is_new_node = (g = []) in
      m\<lparr> sm_node_sessions := AList.update node_id (g @ [r]) (sm_node_sessions m),
         sm_node_events := sm_node_events m @ (if is_new_node then [NodeNew node_id] else []) \<rparr>)"

definition link_key :: "sref \<Rightarrow> node_id \<Rightarrow> session_manager \<Rightarrow> session_manager" where
  "link_key r node_id m =
     (let g = filter (live m) (node_refs m node_id);
          is_new_node = (g = []) in
      if r \<notin> set g
      then m\<lparr> sm_node_sessions := AList.update node_id (g @ [r]) (sm_node_sessions m),
              sm_node_events := sm_node_events m @ (if is_new_node then [NodeNew node_id] else []) \<rparr>
      else m\<lparr> sm_node_sessions := AList.update node_id g (sm_node_sessions m) \<rparr>)"

definition link_sessions :: "sref \<Rightarrow> session_manager \<Rightarrow> session_manager" where
  "link_sessions r m = fold (link_key r) (map id_node_id (se_keys (deref m r))) m"

text \<open>The most recently linked session that is still alive; dead references behind it are popped.\<close>

definition node_session :: "node_id \<Rightarrow> session_manager \<Rightarrow> sref option \<times> session_manager" where
  "node_session node_id m =
     (case map_of (sm_node_sessions m) node_id of
        None \<Rightarrow> (None, m)
      | Some g \<Rightarrow>
          let rg = dropWhile (\<lambda>r. \<not> live m r) (rev g) in
          ((case rg of [] \<Rightarrow> None | r # _ \<Rightarrow> Some r),
           m\<lparr> sm_node_sessions := AList.update node_id (rev rg) (sm_node_sessions m) \<rparr>))"

definition clean_node_sessions :: "session_manager \<Rightarrow> session_manager" where
  "clean_node_sessions m =
     (let cleaned = map (\<lambda>(n, g). (n, filter (live m) g)) (sm_node_sessions m) in
      m\<lparr> sm_node_sessions := filter (\<lambda>(_, g). g \<noteq> []) cleaned,
         sm_node_events := sm_node_events m @ map (\<lambda>(n, _). NodeLost n) (filter (\<lambda>(_, g). g = []) cleaned) \<rparr>)"

section \<open>Sessions\<close>

definition new_session :: "(session_id \<Rightarrow> u64) \<Rightarrow> clock \<Rightarrow> session_id \<Rightarrow> socket_addr \<Rightarrow> node_id \<Rightarrow> identity list \<Rightarrow>
    string list \<Rightarrow> session_key_proofs option \<Rightarrow> session_manager \<Rightarrow> (sref, sref) result \<times> session_manager" where
  "new_session H clock session_id peer node_id keys supported_encryptions session_key m =
     (case shard_get H session_id (sm_sessions m) of
        Some r \<Rightarrow> (Err r, m)
      | None \<Rightarrow>
          let r = length (sm_heap m);
              s = \<lparr> se_session_id = session_id, se_peer = peer, se_ts = clock_last_seen clock, se_node_id = node_id,
                    se_keys = keys, se_supported_encryptions = supported_encryptions,
                    se_addr_status = AddrUnknown, se_session_key = session_key \<rparr> in
          (Ok r, m\<lparr> sm_heap := sm_heap m @ [s], sm_sessions := shard_insert H session_id r (sm_sessions m) \<rparr>))"

definition find_session :: "(session_id \<Rightarrow> u64) \<Rightarrow> session_id \<Rightarrow> session_manager \<Rightarrow> sref option" where
  "find_session H session_id m = shard_get H session_id (sm_sessions m)"

definition with_session :: "(session_id \<Rightarrow> u64) \<Rightarrow> session_id \<Rightarrow> (session \<Rightarrow> 'a) \<Rightarrow> session_manager \<Rightarrow> 'a option" where
  "with_session H session_id f m = map_option (\<lambda>r. f (deref m r)) (find_session H session_id m)"

definition remove_session :: "(session_id \<Rightarrow> u64) \<Rightarrow> session_id \<Rightarrow> session_manager \<Rightarrow> sref option \<times> session_manager" where
  "remove_session H session_id m =
     (find_session H session_id m, m\<lparr> sm_sessions := shard_remove H session_id (sm_sessions m) \<rparr>)"

definition remove_session_from :: "(session_id \<Rightarrow> u64) \<Rightarrow> session_id \<Rightarrow> socket_addr \<Rightarrow> session_manager \<Rightarrow>
    sref option \<times> session_manager" where
  "remove_session_from H session_id peer m =
     (case find_session H session_id m of
        None \<Rightarrow> (None, m)
      | Some r \<Rightarrow>
          if se_peer (deref m r) \<noteq> peer then (None, m)
          else (Some r, m\<lparr> sm_sessions := shard_remove H session_id (sm_sessions m) \<rparr>))"

text \<open>One round of the cleanup task.\<close>

definition cleanup :: "nat \<Rightarrow> clock \<Rightarrow> session_manager \<Rightarrow> session_manager" where
  "cleanup session_purge_timeout clock m =
     clean_node_sessions
       (m\<lparr> sm_sessions := shard_retain (\<lambda>r. clock_age clock (se_ts (deref m r)) \<le> session_purge_timeout) (sm_sessions m) \<rparr>)"

text \<open>How a session read from a file enters the table: one with the same identifier is replaced.\<close>

definition insert_session :: "(session_id \<Rightarrow> u64) \<Rightarrow> session \<Rightarrow> session_manager \<Rightarrow> session_manager" where
  "insert_session H s m = m\<lparr> sm_heap := sm_heap m @ [s],
     sm_sessions := shard_insert H (se_session_id s) (length (sm_heap m)) (sm_sessions m) \<rparr>"

section \<open>Executions\<close>

text \<open>The interleavings of the operations the server performs, from the empty manager or from one read from a file.\<close>

inductive manager_reaches :: "(session_id \<Rightarrow> u64) \<Rightarrow> session_manager \<Rightarrow> bool" for H where
  init: "manager_reaches H session_manager_new"
| new: "manager_reaches H m \<Longrightarrow>
    manager_reaches H (snd (new_session H clock sid peer nid keys encs key m))"
| link: "manager_reaches H m \<Longrightarrow> live m r \<Longrightarrow> manager_reaches H (link_sessions r m)"
| lookup: "manager_reaches H m \<Longrightarrow> manager_reaches H (snd (node_session n m))"
| remove: "manager_reaches H m \<Longrightarrow> manager_reaches H (snd (remove_session H sid m))"
| remove_from: "manager_reaches H m \<Longrightarrow> manager_reaches H (snd (remove_session_from H sid peer m))"
| clean: "manager_reaches H m \<Longrightarrow> manager_reaches H (cleanup purge clock m)"
| touch: "manager_reaches H m \<Longrightarrow> manager_reaches H (update_session r (se_ts_update (\<lambda>_. ts)) m)"
| addr: "manager_reaches H m \<Longrightarrow> manager_reaches H (update_session r (se_addr_status_update (\<lambda>_. st)) m)"
| hold: "manager_reaches H m \<Longrightarrow> live m r \<Longrightarrow> manager_reaches H (m\<lparr> sm_held := r # sm_held m \<rparr>)"
| release: "manager_reaches H m \<Longrightarrow> manager_reaches H (m\<lparr> sm_held := remove1 r (sm_held m) \<rparr>)"
| flagging: "manager_reaches H m \<Longrightarrow> manager_reaches H (snd (flag_node n fl m))"
| mode_set: "manager_reaches H m \<Longrightarrow> manager_reaches H (set_mode md m)"
| load: "manager_reaches H m \<Longrightarrow> manager_reaches H (insert_session H s m)"

section \<open>Facts\<close>

text \<open>
  The invariant: the shards are well formed and map an identifier to the session that carries it, the node
  table has one entry per node, and every reference in it points to a session that holds an
  identity of that node.
\<close>

definition manager_wf :: "(session_id \<Rightarrow> u64) \<Rightarrow> session_manager \<Rightarrow> bool" where
  "manager_wf H m \<longleftrightarrow>
     shards_wf H (sm_sessions m)
   \<and> (\<forall>sid r. shard_get H sid (sm_sessions m) = Some r \<longrightarrow>
        r < length (sm_heap m) \<and> se_session_id (sm_heap m ! r) = sid)
   \<and> set (sm_held m) \<subseteq> {..<length (sm_heap m)}
   \<and> distinct (map fst (sm_node_sessions m))
   \<and> (\<forall>n g. (n, g) \<in> set (sm_node_sessions m) \<longrightarrow> distinct g \<and>
        (\<forall>r \<in> set g. r < length (sm_heap m) \<and> n \<in> id_node_id ` set (se_keys (sm_heap m ! r))))"

lemma manager_wfD:
  assumes "manager_wf H m"
  shows "shards_wf H (sm_sessions m)"
    and "shard_get H sid (sm_sessions m) = Some r \<Longrightarrow> r < length (sm_heap m) \<and> se_session_id (sm_heap m ! r) = sid"
    and "distinct (map fst (sm_node_sessions m))"
    and "(n, g) \<in> set (sm_node_sessions m) \<Longrightarrow> distinct g"
    and "(n, g) \<in> set (sm_node_sessions m) \<Longrightarrow> r \<in> set g \<Longrightarrow>
      r < length (sm_heap m) \<and> n \<in> id_node_id ` set (se_keys (sm_heap m ! r))"
  using assms by (auto simp: manager_wf_def)

lemma live_bound: "manager_wf H m \<Longrightarrow> live m r \<Longrightarrow> r < length (sm_heap m)"
  by (auto simp: manager_wf_def live_def st.vals_get)

lemma node_refs_wf:
  assumes "manager_wf H m" "r \<in> set (node_refs m n)"
  shows "r < length (sm_heap m) \<and> n \<in> id_node_id ` set (se_keys (sm_heap m ! r))"
proof -
  obtain g where "map_of (sm_node_sessions m) n = Some g" "r \<in> set g"
    using assms(2) by (cases "map_of (sm_node_sessions m) n" rule: option.exhaust) (auto simp: node_refs_def)
  then show ?thesis using manager_wfD(5) [OF assms(1)] map_of_SomeD by fast
qed

lemma node_refs_distinct: "manager_wf H m \<Longrightarrow> distinct (node_refs m n)"
  by (auto simp: node_refs_def split: option.splits dest: map_of_SomeD manager_wfD(4))

text \<open>Changing one entry of the node table.\<close>

lemma node_sessions_update_wf:
  assumes "manager_wf H m" "distinct g"
    and "\<forall>r \<in> set g. r < length (sm_heap m) \<and> n \<in> id_node_id ` set (se_keys (sm_heap m ! r))"
  shows "manager_wf H (m\<lparr> sm_node_sessions := AList.update n g (sm_node_sessions m) \<rparr>)"
proof -
  have d: "distinct (map fst (AList.update n g (sm_node_sessions m)))"
    using assms(1) by (simp add: manager_wf_def distinct_update)
  have "distinct h \<and> (\<forall>r \<in> set h. r < length (sm_heap m) \<and> k \<in> id_node_id ` set (se_keys (sm_heap m ! r)))"
    if "(k, h) \<in> set (AList.update n g (sm_node_sessions m))" for k h
  proof -
    have "map_of (AList.update n g (sm_node_sessions m)) k = Some h" using d that by simp
    then have "k = n \<and> h = g \<or> (k, h) \<in> set (sm_node_sessions m)"
      by (auto simp: update_conv dest: map_of_SomeD split: if_splits)
    then show ?thesis using assms by (auto simp: manager_wf_def)
  qed
  then show ?thesis using assms(1) d by (simp add: manager_wf_def)
qed

lemma manager_wf_events [simp]:
  "manager_wf H (m\<lparr> sm_node_events := ev \<rparr>) = manager_wf H m"
  "manager_wf H (m\<lparr> sm_flagged_nodes := fl \<rparr>) = manager_wf H m"
  "manager_wf H (m\<lparr> sm_mode := md \<rparr>) = manager_wf H m"
  by (simp_all add: manager_wf_def)

lemma link_key_wf:
  assumes "manager_wf H m" "r < length (sm_heap m)" "n \<in> id_node_id ` set (se_keys (sm_heap m ! r))"
  shows "manager_wf H (link_key r n m)"
proof -
  let ?g = "filter (live m) (node_refs m n)"
  have g: "distinct ?g" "\<forall>r \<in> set ?g. r < length (sm_heap m) \<and> n \<in> id_node_id ` set (se_keys (sm_heap m ! r))"
    using node_refs_distinct [OF assms(1)] node_refs_wf [OF assms(1)] by auto
  have "manager_wf H (m\<lparr> sm_node_sessions := AList.update n ?g (sm_node_sessions m) \<rparr>)"
    by (rule node_sessions_update_wf [OF assms(1) g])
  moreover have "r \<notin> set ?g \<Longrightarrow> manager_wf H (m\<lparr> sm_node_sessions := AList.update n (?g @ [r]) (sm_node_sessions m) \<rparr>)"
    by (rule node_sessions_update_wf [OF assms(1)]) (use g assms in auto)
  ultimately show ?thesis
    by (simp add: link_key_def Let_def manager_wf_def)
qed

lemma link_key_simps [simp]:
  "sm_heap (link_key r n m) = sm_heap m" "sm_sessions (link_key r n m) = sm_sessions m"
  "sm_held (link_key r n m) = sm_held m"
  by (simp_all add: link_key_def Let_def)

lemma link_keys_wf:
  assumes "manager_wf H m" "r < length (sm_heap m)" "set ns \<subseteq> id_node_id ` set (se_keys (sm_heap m ! r))"
  shows "manager_wf H (fold (link_key r) ns m) \<and> sm_heap (fold (link_key r) ns m) = sm_heap m
    \<and> sm_sessions (fold (link_key r) ns m) = sm_sessions m \<and> sm_held (fold (link_key r) ns m) = sm_held m"
  using assms
proof (induction ns arbitrary: m)
  case (Cons n ns)
  then have "manager_wf H (link_key r n m)" by (intro link_key_wf) auto
  then show ?case using Cons.IH [of "link_key r n m"] Cons.prems by simp
qed simp

lemma link_sessions_wf:
  assumes "manager_wf H m" "live m r"
  shows "manager_wf H (link_sessions r m) \<and> sm_heap (link_sessions r m) = sm_heap m
    \<and> sm_sessions (link_sessions r m) = sm_sessions m \<and> sm_held (link_sessions r m) = sm_held m"
  unfolding link_sessions_def
  by (rule link_keys_wf) (use assms live_bound in \<open>auto simp: deref_def\<close>)

lemma new_session_wf:
  assumes "manager_wf H m"
  shows "manager_wf H (snd (new_session H clock sid peer nid keys encs key m))"
proof (cases "shard_get H sid (sm_sessions m)")
  case None
  have "n \<in> id_node_id ` set (se_keys ((sm_heap m @ [s]) ! r))"
    if "(n, g) \<in> set (sm_node_sessions m)" "r \<in> set g" for n g r s
    using manager_wfD(5) [OF assms that] by (simp add: nth_append)
  moreover have "se_session_id ((sm_heap m @ [s]) ! r) = k" "r < length (sm_heap m)"
    if "shard_get H k (sm_sessions m) = Some r" for k r s
    using manager_wfD(2) [OF assms that] by (simp_all add: nth_append)
  ultimately show ?thesis
    using assms None
    by (fastforce simp: new_session_def Let_def manager_wf_def nth_append)
qed (use assms in \<open>simp add: new_session_def\<close>)

lemma insert_session_wf:
  assumes "manager_wf H m"
  shows "manager_wf H (insert_session H s m)"
proof -
  have "n \<in> id_node_id ` set (se_keys ((sm_heap m @ [s]) ! r))"
    if "(n, g) \<in> set (sm_node_sessions m)" "r \<in> set g" for n g r
    using manager_wfD(5) [OF assms(1) that] by (simp add: nth_append)
  moreover have "se_session_id ((sm_heap m @ [s]) ! r) = k" "r < length (sm_heap m)"
    if "shard_get H k (sm_sessions m) = Some r" for k r
    using manager_wfD(2) [OF assms(1) that] by (simp_all add: nth_append)
  ultimately show ?thesis
    using assms by (fastforce simp: manager_wf_def nth_append insert_session_def)
qed

lemma shard_change_wf:
  assumes "manager_wf H m" "shards_wf H ss" "\<And>k r. shard_get H k ss = Some r \<Longrightarrow> shard_get H k (sm_sessions m) = Some r"
  shows "manager_wf H (m\<lparr> sm_sessions := ss \<rparr>)"
  using assms by (auto simp: manager_wf_def)

lemma update_session_wf:
  assumes "manager_wf H m" "\<And>s. se_session_id (f s) = se_session_id s" "\<And>s. se_keys (f s) = se_keys s"
  shows "manager_wf H (update_session r f m)"
proof -
  have "(sm_heap m)[r := f (sm_heap m ! r)] ! i = (if i = r \<and> r < length (sm_heap m) then f (sm_heap m ! r) else sm_heap m ! i)" for i
    by (cases "r < length (sm_heap m)") (auto simp: nth_list_update not_less list_update_beyond)
  then have "se_session_id ((sm_heap m)[r := f (sm_heap m ! r)] ! i) = se_session_id (sm_heap m ! i)"
    "se_keys ((sm_heap m)[r := f (sm_heap m ! r)] ! i) = se_keys (sm_heap m ! i)" for i
    using assms(2,3) by simp_all
  then show ?thesis using assms(1) by (simp add: manager_wf_def update_session_def)
qed

lemma node_session_wf:
  assumes "manager_wf H m"
  shows "manager_wf H (snd (node_session n m))"
proof (cases "map_of (sm_node_sessions m) n")
  case (Some g)
  then have g: "(n, g) \<in> set (sm_node_sessions m)" by (rule map_of_SomeD)
  have "set (dropWhile (\<lambda>r. \<not> live m r) (rev g)) \<subseteq> set g" using set_dropWhileD by fastforce
  then show ?thesis
    using Some manager_wfD(4,5) [OF assms g]
    by (auto simp: node_session_def Let_def distinct_dropWhile intro!: node_sessions_update_wf [OF assms])
qed (use assms in \<open>simp add: node_session_def\<close>)

lemma clean_node_sessions_wf:
  assumes "manager_wf H m"
  shows "manager_wf H (clean_node_sessions m)"
proof -
  let ?c = "filter (\<lambda>(_, g). g \<noteq> []) (map (\<lambda>(n, g). (n, filter (live m) g)) (sm_node_sessions m))"
  have "map fst (map (\<lambda>(n, g). (n, filter (live m) g)) (sm_node_sessions m)) = map fst (sm_node_sessions m)"
    by (induction "sm_node_sessions m") auto
  then have "distinct (map fst ?c)" using manager_wfD(3) [OF assms] by (metis distinct_map_filter)
  moreover have "\<exists>g'. (n, g') \<in> set (sm_node_sessions m) \<and> g = filter (live m) g'" if "(n, g) \<in> set ?c" for n g
    using that by auto
  ultimately show ?thesis
    using assms by (fastforce simp: clean_node_sessions_def Let_def manager_wf_def)
qed


lemma remove_session_wf: "manager_wf H m \<Longrightarrow> manager_wf H (snd (remove_session H sid m))"
  by (auto simp: remove_session_def intro!: shard_change_wf dest: manager_wfD(1) split: if_splits)

lemma remove_session_from_wf: "manager_wf H m \<Longrightarrow> manager_wf H (snd (remove_session_from H sid peer m))"
  using remove_session_wf [of H m sid]
  by (simp add: remove_session_from_def remove_session_def split: option.splits)

lemma purge_wf:
  assumes "manager_wf H m"
  shows "manager_wf H (m\<lparr> sm_sessions := shard_retain P (sm_sessions m) \<rparr>)"
  by (rule shard_change_wf [OF assms])
    (use manager_wfD(1) [OF assms] in \<open>auto simp: bind_eq_Some_conv split: if_splits\<close>)

lemma manager_reaches_wf: "manager_reaches H m \<Longrightarrow> manager_wf H m"
proof (induction rule: manager_reaches.induct)
  case init
  then show ?case by (simp add: manager_wf_def session_manager_new_def shards_wf_new)
next
  case (link m r)
  then show ?case using link_sessions_wf by blast
next
  case (clean m purge clock)
  then show ?case by (simp add: cleanup_def clean_node_sessions_wf purge_wf)
next
  case (hold m r)
  then show ?case using live_bound [of H m r] by (simp add: manager_wf_def)
next
  case (release m r)
  then show ?case using set_remove1_subset [of r "sm_held m"] by (auto simp: manager_wf_def)
next
  case (flagging m n fl)
  then show ?case by (simp add: flag_node_def split: flag.splits)
next
  case (mode_set m md)
  then show ?case by (simp add: set_mode_def)
qed (simp_all add: insert_session_wf new_session_wf node_session_wf remove_session_wf remove_session_from_wf update_session_wf)

section \<open>A sample manager\<close>

definition sample_clock :: clock where
  "sample_clock = \<lparr> ck_now = 0, ck_ts = 0 \<rparr>"

definition sample_add :: "u8 \<Rightarrow> session_manager \<Rightarrow> session_manager" where
  "sample_add n m = (case new_session (\<lambda>_. 0) sample_clock [n] sample_addr [n]
       [\<lparr> id_node_id = [n], id_public_key = [n] \<rparr>] [] None m of
     (Ok r, m') \<Rightarrow> link_sessions r m' | (_, m') \<Rightarrow> m')"

definition sample_manager :: session_manager where
  "sample_manager = sample_add 7 (sample_add 5 session_manager_new)"

lemma new_session_live:
  assumes "manager_wf H m" "new_session H clock sid peer nid keys encs key m = (Ok r, m')"
  shows "live m' r \<and> find_session H sid m' = Some r"
proof -
  have "shard_get H sid (sm_sessions m') = Some r" "shards_wf H (sm_sessions m')"
    using assms manager_wfD(1) [OF assms(1)]
    by (auto simp: new_session_def Let_def split: option.splits)
  then show ?thesis by (auto simp: live_def find_session_def st.vals_get)
qed

lemma sample_add_reaches:
  assumes "manager_reaches (\<lambda>_. 0) m"
  shows "manager_reaches (\<lambda>_. 0) (sample_add n m)"
proof -
  define res where "res = new_session (\<lambda>_. 0) sample_clock [n] sample_addr [n] [\<lparr> id_node_id = [n], id_public_key = [n] \<rparr>] [] None m"
  have "manager_reaches (\<lambda>_. 0) (snd res)" unfolding res_def using assms by (rule manager_reaches.new)
  moreover have "live (snd res) r" if "fst res = Ok r" for r
    using new_session_live [OF manager_reaches_wf [OF assms]] that unfolding res_def by (metis prod.collapse)
  ultimately show ?thesis
    unfolding sample_add_def res_def [symmetric]
    by (cases res; cases "fst res") (auto intro: manager_reaches.link)
qed

lemma sample_manager_reaches: "manager_reaches (\<lambda>_. 0) sample_manager"
  unfolding sample_manager_def by (intro sample_add_reaches manager_reaches.init)

lemmas sample_eval = sample_manager_def sample_add_def new_session_def session_manager_new_def shard_get_def shards_new_def
  session_slot_def shard_insert_def link_sessions_def link_key_def node_refs_def live_def shard_values_def deref_def Let_def

lemma sample_manager_facts [simp]:
  "sm_node_sessions sample_manager = [([5], [0]), ([7], [Suc 0])]" "live sample_manager 0" "live sample_manager (Suc 0)"
  "sm_mode sample_manager = 0" "length (sm_heap sample_manager) = 2"
  "\<not> addr_is_valid (se_addr_status (deref sample_manager 0))"
  by (simp_all add: sample_eval numeral_eq_Suc)

lemma map_of_clean:
  "distinct (map fst l) \<Longrightarrow> map_of (filter (\<lambda>(_, g). g \<noteq> []) (map (\<lambda>(n, g). (n, f g)) l)) k =
     Option.bind (map_of l k) (\<lambda>g. if f g = [] then None else Some (f g))"
proof (induction l)
  case (Cons x l)
  obtain a g where x: "x = (a, g)" by (cases x)
  have "map_of l a = None" using Cons.prems by (simp add: x map_of_eq_None_iff)
  then show ?case using Cons by (auto simp: x)
qed simp

lemma lost_nodes:
  "distinct (map fst l) \<Longrightarrow>
     map (\<lambda>(n, _). n) (filter (\<lambda>(_, g). g = []) (map (\<lambda>(n, g). (n, f g)) l)) =
     filter (\<lambda>n. Option.bind (map_of l n) (\<lambda>g. if f g = [] then None else Some (f g)) = None) (map fst l)"
proof (induction l)
  case (Cons x l)
  obtain a g where x: "x = (a, g)" by (cases x)
  have "filter (\<lambda>n. Option.bind (map_of (x # l) n) (\<lambda>g. if f g = [] then None else Some (f g)) = None) (map fst l) =
      filter (\<lambda>n. Option.bind (map_of l n) (\<lambda>g. if f g = [] then None else Some (f g)) = None) (map fst l)"
    using Cons.prems by (intro filter_cong) (auto simp: x)
  then show ?case using Cons by (simp add: x)
qed simp

section \<open>Properties\<close>

text \<open>
  C35: a session found for a node belongs to it: in every reachable state, the lookup returns the most recently linked
  session of the node that is alive, that session holds an identity with the node's identifier, nothing is found
  exactly when no linked session is alive, and the lookup removes dead references only.
\<close>

theorem node_session_authentic:
  assumes "manager_reaches H m" "node_session n m = (found, m')"
  shows "(case found of
      None \<Rightarrow> filter (live m) (node_refs m n) = []
    | Some r \<Rightarrow> filter (live m) (node_refs m n) \<noteq> [] \<and> r = last (filter (live m) (node_refs m n))
        \<and> live m r \<and> n \<in> id_node_id ` set (se_keys (deref m r)))
    \<and> live m' = live m \<and> (\<forall>k. filter (live m') (node_refs m' k) = filter (live m) (node_refs m k))"
proof (cases "map_of (sm_node_sessions m) n")
  case None
  then show ?thesis using assms(2) by (auto simp: node_session_def node_refs_def)
next
  case (Some g)
  have wf: "manager_wf H m" by (rule manager_reaches_wf [OF assms(1)])
  define rg where "rg = dropWhile (\<lambda>r. \<not> live m r) (rev g)"
  have refs: "node_refs m n = g" using Some by (simp add: node_refs_def)
  have fl: "filter (live m) g = filter (live m) (rev rg)"
  proof -
    have "g = rev rg @ rev (takeWhile (\<lambda>r. \<not> live m r) (rev g))"
      unfolding rg_def by (metis rev_append rev_rev_ident takeWhile_dropWhile_id)
    moreover have "filter (live m) (rev (takeWhile (\<lambda>r. \<not> live m r) (rev g))) = []"
      by (auto simp: filter_empty_conv dest: set_takeWhileD)
    ultimately show ?thesis by (metis append_Nil2 filter_append)
  qed
  have found: "found = (case rg of [] \<Rightarrow> None | r # _ \<Rightarrow> Some r)"
    and m': "m' = m\<lparr> sm_node_sessions := AList.update n (rev rg) (sm_node_sessions m) \<rparr>"
    using assms(2) Some by (auto simp: node_session_def rg_def Let_def)
  have lv: "live m' = live m" by (simp add: m' live_def fun_eq_iff)
  have "filter (live m') (node_refs m' k) = filter (live m) (node_refs m k)" for k
    unfolding lv using fl refs by (simp add: m' node_refs_def update_conv)
  moreover have "case found of
      None \<Rightarrow> filter (live m) (node_refs m n) = []
    | Some r \<Rightarrow> filter (live m) (node_refs m n) \<noteq> [] \<and> r = last (filter (live m) (node_refs m n))
        \<and> live m r \<and> n \<in> id_node_id ` set (se_keys (deref m r))"
  proof (cases rg)
    case Nil
    then show ?thesis using fl found refs by simp
  next
    case (Cons r rs)
    then have "live m r" using hd_dropWhile [of "\<lambda>r. \<not> live m r" "rev g"] by (metis list.distinct(1) list.sel(1) rg_def)
    moreover have "r \<in> set (node_refs m n)" using Cons refs set_dropWhileD [of r "\<lambda>r. \<not> live m r" "rev g"] by (simp add: rg_def)
    ultimately show ?thesis
      using fl found refs Cons node_refs_wf [OF wf, of r n] by (simp add: deref_def)
  qed
  ultimately show ?thesis using lv by blast
qed

theorem node_session_authentic_witness:
  "\<exists>m'. node_session [5] sample_manager = (Some 0, m') \<and> [5] \<in> id_node_id ` set (se_keys (deref sample_manager 0))"
proof -
  obtain found m' where fm: "node_session [5] sample_manager = (found, m')" by fastforce
  have refs: "filter (live sample_manager) (node_refs sample_manager [5]) = [0]" by (simp add: node_refs_def)
  show ?thesis
    using node_session_authentic [OF sample_manager_reaches fm] fm refs by (auto split: option.splits)
qed

text \<open>
  C36: the cleanup task drops exactly the sessions that have not been seen for longer than the purge timeout, keeps a
  node exactly while one of its sessions is alive, with its live sessions in their order, and announces each
  node that disappears once.
\<close>

theorem cleanup_exact:
  assumes "manager_reaches H m" "m' = cleanup purge clock m"
  shows "find_session H sid m' = Option.bind (find_session H sid m)
        (\<lambda>r. if clock_age clock (se_ts (deref m r)) \<le> purge then Some r else None)
    \<and> node_refs m' n = filter (live m') (node_refs m n)
    \<and> (n \<in> fst ` set (sm_node_sessions m') \<longleftrightarrow> node_refs m' n \<noteq> [])
    \<and> sm_node_events m' = sm_node_events m @
        map NodeLost (filter (\<lambda>n. node_refs m' n = []) (map fst (sm_node_sessions m)))"
proof -
  define m1 where "m1 = m\<lparr> sm_sessions := shard_retain (\<lambda>r. clock_age clock (se_ts (deref m r)) \<le> purge) (sm_sessions m) \<rparr>"
  have m': "m' = clean_node_sessions m1" by (simp add: assms(2) cleanup_def m1_def)
  have wf: "manager_wf H m" by (rule manager_reaches_wf [OF assms(1)])
  have lv: "live m' = live m1" by (simp add: m' clean_node_sessions_def live_def fun_eq_iff Let_def)
  have ns: "sm_node_sessions m1 = sm_node_sessions m" "sm_node_events m1 = sm_node_events m" by (simp_all add: m1_def)
  have d: "distinct (map fst (sm_node_sessions m))" by (rule manager_wfD(3) [OF wf])
  have ns': "sm_node_sessions m' = filter (\<lambda>(_, g). g \<noteq> []) (map (\<lambda>(n, g). (n, filter (live m1) g)) (sm_node_sessions m))"
    by (simp add: m' clean_node_sessions_def ns Let_def)
  have get: "map_of (sm_node_sessions m') k = Option.bind (map_of (sm_node_sessions m) k)
      (\<lambda>g. if filter (live m1) g = [] then None else Some (filter (live m1) g))" for k
    unfolding ns' by (rule map_of_clean [OF d])
  have refs: "node_refs m' k = filter (live m') (node_refs m k)" for k
    unfolding lv node_refs_def get by (cases "map_of (sm_node_sessions m) k") simp_all
  have dom: "k \<in> fst ` set (sm_node_sessions m') \<longleftrightarrow> node_refs m' k \<noteq> []"
    "map_of (sm_node_sessions m') k = None \<longleftrightarrow> node_refs m' k = []" for k
  proof -
    show none: "map_of (sm_node_sessions m') k = None \<longleftrightarrow> node_refs m' k = []"
      using get [of k] by (cases "map_of (sm_node_sessions m) k" rule: option.exhaust) (simp_all add: node_refs_def)
    show "k \<in> fst ` set (sm_node_sessions m') \<longleftrightarrow> node_refs m' k \<noteq> []"
      using none map_of_eq_None_iff [of "sm_node_sessions m'" k] by argo
  qed
  have "sm_node_events m' = sm_node_events m @ map NodeLost
      (map (\<lambda>(n, _). n) (filter (\<lambda>(_, g). g = []) (map (\<lambda>(n, g). (n, filter (live m1) g)) (sm_node_sessions m))))"
    by (simp add: m' clean_node_sessions_def ns Let_def case_prod_unfold)
  then have ev: "sm_node_events m' = sm_node_events m @
        map NodeLost (filter (\<lambda>n. node_refs m' n = []) (map fst (sm_node_sessions m)))"
    by (simp only: lost_nodes [OF d] dom(2) flip: get)
  have "sm_sessions m' = sm_sessions m1" by (simp add: m' clean_node_sessions_def Let_def)
  then have "find_session H sid m' = Option.bind (find_session H sid m)
        (\<lambda>r. if clock_age clock (se_ts (deref m r)) \<le> purge then Some r else None)"
    using manager_wfD(1) [OF wf] by (simp add: m1_def find_session_def)
  then show ?thesis using refs [of n] dom(1) [of n] ev by blast
qed

lemma sample_manager_ts [simp]: "se_ts (deref sample_manager 0) = 0"
  by (simp add: sample_eval clock_last_seen_def sample_clock_def)

lemma sample_manager_find [simp]:
  "find_session (\<lambda>_. 0) k sample_manager = (if k = [5] then Some 0 else if k = [7] then Some (Suc 0) else None)"
proof -
  have "sm_sessions sample_manager ! 0 = [([5], 0), ([7], Suc 0)]" by (simp add: sample_eval)
  then show ?thesis by (simp add: find_session_def shard_get_def session_slot_def)
qed

theorem cleanup_exact_witness:
  "find_session (\<lambda>_. 0) [5] (cleanup 10 \<lparr> ck_now = 0, ck_ts = 100 \<rparr> sample_manager) = None"
  using cleanup_exact [OF sample_manager_reaches refl, of "[5]" 10 "\<lparr> ck_now = 0, ck_ts = 100 \<rparr>"]
  by (simp add: clock_age_def saturating_sub_def NANOS_def)

text \<open>
  C6: creating a session never replaces one: a fresh identifier gets a new session with the given data, found from then
  on, and no other session changes; a used identifier is refused with the session that has it. Removal on behalf
  of a peer takes effect only when the request comes from the address the session was registered for.
\<close>

theorem session_lifecycle:
  assumes "manager_reaches H m"
  shows "(case new_session H clock sid peer nid keys encs key m of
      (Ok r, m') \<Rightarrow> find_session H sid m = None \<and> r = length (sm_heap m)
        \<and> (\<forall>k. find_session H k m' = (if k = sid then Some r else find_session H k m))
        \<and> deref m' r = \<lparr> se_session_id = sid, se_peer = peer, se_ts = ck_ts clock, se_node_id = nid, se_keys = keys,
            se_supported_encryptions = encs, se_addr_status = AddrUnknown, se_session_key = key \<rparr>
        \<and> (\<forall>q < r. deref m' q = deref m q)
    | (Err r, m') \<Rightarrow> find_session H sid m = Some r \<and> m' = m
    | (Panic, m') \<Rightarrow> False)
    \<and> find_session H k (snd (remove_session_from H sid peer m)) =
        (if k = sid \<and> (\<exists>r. find_session H sid m = Some r \<and> se_peer (deref m r) = peer) then None
         else find_session H k m)"
proof -
  have wf: "shards_wf H (sm_sessions m)" by (rule manager_wfD(1) [OF manager_reaches_wf [OF assms]])
  have "case new_session H clock sid peer nid keys encs key m of
      (Ok r, m') \<Rightarrow> find_session H sid m = None \<and> r = length (sm_heap m)
        \<and> (\<forall>k. find_session H k m' = (if k = sid then Some r else find_session H k m))
        \<and> deref m' r = \<lparr> se_session_id = sid, se_peer = peer, se_ts = ck_ts clock, se_node_id = nid, se_keys = keys,
            se_supported_encryptions = encs, se_addr_status = AddrUnknown, se_session_key = key \<rparr>
        \<and> (\<forall>q < r. deref m' q = deref m q)
    | (Err r, m') \<Rightarrow> find_session H sid m = Some r \<and> m' = m
    | (Panic, m') \<Rightarrow> False"
    using wf by (cases "shard_get H sid (sm_sessions m)")
      (simp_all add: new_session_def find_session_def deref_def clock_last_seen_def Let_def nth_append)
  moreover have "find_session H k (snd (remove_session_from H sid peer m)) =
        (if k = sid \<and> (\<exists>r. find_session H sid m = Some r \<and> se_peer (deref m r) = peer) then None
         else find_session H k m)"
    using wf by (cases "shard_get H sid (sm_sessions m)")
      (auto simp: remove_session_from_def find_session_def deref_def)
  ultimately show ?thesis by blast
qed

theorem session_lifecycle_witness:
  "\<exists>m'. new_session (\<lambda>_. 0) sample_clock [9] sample_addr [9] [] [] None sample_manager = (Ok 2, m')
    \<and> find_session (\<lambda>_. 0) [9] m' = Some 2 \<and> find_session (\<lambda>_. 0) [5] m' = Some 0"
proof -
  obtain res m' where n: "new_session (\<lambda>_. 0) sample_clock [9] sample_addr [9] [] [] None sample_manager = (res, m')"
    by fastforce
  show ?thesis
    using session_lifecycle [OF sample_manager_reaches, where clock = sample_clock and sid = "[9]" and peer = sample_addr
        and nid = "[9]" and keys = "[]" and encs = "[]" and key = None and k = "[9]"]
    unfolding n by (cases res) (simp_all)
qed

end
