(* ===== verification/Neighbours.thy ===== *)
theory Neighbours
  imports Sessions
begin

text \<open>
  The choice of neighbours of a node, \<^verbatim>\<open>SessionManager::neighbours\<close> in
  \<^verbatim>\<open>server/src/state/session_manager.rs\<close> with the distance of \<^verbatim>\<open>server/src/state.rs\<close>.
\<close>

section \<open>Neighbours\<close>

definition pop_count :: "u8 \<Rightarrow> nat" where
  "pop_count b = length (filter (bit b) [0..<8])"

definition hamming_distance :: "node_id \<Rightarrow> node_id \<Rightarrow> nat" where
  "hamming_distance id1 id2 = sum_list (map2 (\<lambda>a b. pop_count (xor a b)) id1 id2)"

text \<open>The order of the heap: entries with a smaller distance are greater, then those with a greater identifier.\<close>

definition distance_less :: "nat \<times> node_id \<Rightarrow> nat \<times> node_id \<Rightarrow> bool" where
  "distance_less a b \<longleftrightarrow> fst b < fst a \<or> fst a = fst b \<and> ord_class.lexordp (snd a) (snd b)"

text \<open>A binary heap that is only filled and then drained: the list of its pops.\<close>

fun heap_push :: "nat \<times> node_id \<Rightarrow> (nat \<times> node_id) list \<Rightarrow> (nat \<times> node_id) list" where
  "heap_push x [] = [x]"
| "heap_push x (y # ys) = (if distance_less x y then y # heap_push x ys else x # y # ys)"

definition last_live :: "session_manager \<Rightarrow> node_id \<Rightarrow> sref option" where
  "last_live m node_id =
     (case rev (filter (live m) (node_refs m node_id)) of [] \<Rightarrow> None | r # _ \<Rightarrow> Some r)"

definition neighbours :: "node_id \<Rightarrow> nat \<Rightarrow> session_manager \<Rightarrow> sref list \<times> session_manager" where
  "neighbours base_node_id count m =
     (let (select_public, m) =
        (if sm_mode m = 1 then
           (case node_session base_node_id m of
              (Some r, m') \<Rightarrow> (\<not> addr_is_valid (se_addr_status (deref m' r)), m')
            | (None, m') \<Rightarrow> (True, m'))
         else (False, m));
        candidates = filter (\<lambda>(_, g). select_public \<longrightarrow>
            (\<exists>r \<in> set g. live m r \<and> addr_is_valid (se_addr_status (deref m r)))) (sm_node_sessions m);
        h = fold heap_push (map (\<lambda>(id, _). (hamming_distance base_node_id id, id)) candidates) [];
        found = List.map_filter (\<lambda>(_, id). last_live m id) h in
      (take count (drop 1 found), m))"

section \<open>Facts on neighbours\<close>

lemma pop_count_eq_0 [simp]: "pop_count b = 0 \<longleftrightarrow> b = 0"
proof
  assume "pop_count b = 0"
  then have "\<not> (\<exists>i<8. bit b i)" by (auto simp: pop_count_def filter_empty_conv)
  then show "b = 0" using u8_some_bit by blast
qed (simp add: pop_count_def)

lemma hamming_distance_self [simp]: "hamming_distance n n = 0"
  by (induction n) (simp_all add: hamming_distance_def)

lemma hamming_distance_eq_0:
  "length a = length b \<Longrightarrow> hamming_distance a b = 0 \<longleftrightarrow> a = b"
proof (induction a b rule: list_induct2)
  case (Cons x xs y ys)
  have "xor x y = 0 \<longleftrightarrow> x = y" by (auto simp: bit_eq_iff bit_xor_iff)
  then show ?case using Cons by (simp add: hamming_distance_def)
qed simp

lemma distance_less_total: "a \<noteq> b \<Longrightarrow> distance_less a b \<or> distance_less b a"
  using lexordp_linear [of "snd a" "snd b"] by (auto simp: distance_less_def prod_eq_iff)

lemma heap_push_set [simp]: "set (heap_push x ys) = insert x (set ys)"
  by (induction x ys rule: heap_push.induct) auto

lemma heap_push_sorted:
  "sorted_wrt (\<lambda>a b. fst a \<le> fst b) ys \<Longrightarrow> sorted_wrt (\<lambda>a b. fst a \<le> fst b) (heap_push x ys)"
  by (induction x ys rule: heap_push.induct) (force simp: distance_less_def)+

lemma heap_push_distinct: "distinct (x # ys) \<Longrightarrow> distinct (heap_push x ys)"
  by (induction x ys rule: heap_push.induct) auto

lemma heap_sorted:
  "sorted_wrt (\<lambda>a b. fst a \<le> fst b) h \<Longrightarrow> sorted_wrt (\<lambda>a b. fst a \<le> fst b) (fold heap_push xs h)"
  by (induction xs arbitrary: h) (simp_all add: heap_push_sorted)

lemma heap_set: "set (fold heap_push xs h) = set xs \<union> set h"
  by (induction xs arbitrary: h) auto

lemma heap_distinct: "distinct (xs @ h) \<Longrightarrow> distinct (fold heap_push xs h)"
  by (induction xs arbitrary: h) (auto simp: heap_push_distinct)

text \<open>Draining the heap of distances to a list of nodes: a permutation of them in the order of distance.\<close>

definition by_distance :: "node_id \<Rightarrow> node_id list \<Rightarrow> node_id list" where
  "by_distance base ns = map snd (fold heap_push (map (\<lambda>n. (hamming_distance base n, n)) ns) [])"

lemma by_distance_heap:
  "(d, n) \<in> set (fold heap_push (map (\<lambda>n. (hamming_distance base n, n)) ns) []) \<Longrightarrow> d = hamming_distance base n"
  by (auto simp: heap_set)

lemma by_distance_facts:
  assumes "distinct ns"
  shows "set (by_distance base ns) = set ns" "distinct (by_distance base ns)"
    "sorted (map (hamming_distance base) (by_distance base ns))"
proof -
  let ?h = "fold heap_push (map (\<lambda>n. (hamming_distance base n, n)) ns) []"
  show "set (by_distance base ns) = set ns" by (force simp: by_distance_def heap_set)
  have "distinct ?h" using assms by (intro heap_distinct) (auto simp: distinct_map intro!: inj_onI)
  moreover have "inj_on snd (set ?h)" by (auto intro!: inj_onI simp: heap_set)
  ultimately show "distinct (by_distance base ns)" by (simp add: by_distance_def distinct_map)
  have "sorted_wrt (\<lambda>a b. fst a \<le> fst b) ?h" by (intro heap_sorted) simp
  then have "sorted (map fst ?h)" by (simp add: sorted_map)
  moreover have "map (hamming_distance base) (by_distance base ns) = map fst ?h"
    by (auto simp: by_distance_def heap_set)
  ultimately show "sorted (map (hamming_distance base) (by_distance base ns))" by simp
qed

text \<open>What \<open>neighbours\<close> computes from the candidates.\<close>

lemma neighbours_eq:
  assumes "m1 = (if sm_mode m = 1 then snd (node_session base m) else m)"
    and "sel \<longleftrightarrow> sm_mode m = 1 \<and> (case fst (node_session base m) of None \<Rightarrow> True
        | Some r \<Rightarrow> \<not> addr_is_valid (se_addr_status (deref m1 r)))"
    and "ns = map fst (filter (\<lambda>(_, g). sel \<longrightarrow> (\<exists>r \<in> set g. live m1 r \<and> addr_is_valid (se_addr_status (deref m1 r))))
        (sm_node_sessions m1))"
  shows "neighbours base count m =
    (take count (drop 1 (map (\<lambda>n. the (last_live m1 n)) (filter (\<lambda>n. last_live m1 n \<noteq> None) (by_distance base ns)))), m1)"
proof -
  have mf: "List.map_filter (\<lambda>(_, id). f id) h = map (\<lambda>n. the (f n)) (filter (\<lambda>n. f n \<noteq> None) (map snd h))"
    for h :: "(nat \<times> node_id) list" and f :: "node_id \<Rightarrow> sref option"
    by (induction h) (auto simp: List.map_filter_def)
  have cand: "map (\<lambda>(id, _). (hamming_distance base id, id)) l = map (\<lambda>n. (hamming_distance base n, n)) (map fst l)"
    for l :: "(node_id \<times> sref list) list" by (induction l) auto
  have sel: "(if sm_mode m = 1 then (case node_session base m of
              (Some r, m') \<Rightarrow> (\<not> addr_is_valid (se_addr_status (deref m' r)), m')
            | (None, m') \<Rightarrow> (True, m')) else (False, m)) = (sel, m1)"
    using assms(1,2) by (cases "node_session base m") (auto split: option.splits)
  show ?thesis
    unfolding neighbours_def sel Let_def prod.case mf cand by (simp add: by_distance_def assms(3))
qed

lemma last_live_entry:
  "last_live m n = Some r \<Longrightarrow> r \<in> set (node_refs m n) \<and> live m r \<and> n \<in> fst ` set (sm_node_sessions m)"
proof -
  assume "last_live m n = Some r"
  then have "rev (filter (live m) (node_refs m n)) = r # tl (rev (filter (live m) (node_refs m n)))"
    by (auto simp: last_live_def split: list.splits)
  then have "r \<in> set (rev (filter (live m) (node_refs m n)))" by (metis list.set_intros(1))
  then have r: "r \<in> set (node_refs m n)" "live m r" by auto
  then have "map_of (sm_node_sessions m) n \<noteq> None" by (intro notI) (simp add: node_refs_def)
  then show "r \<in> set (node_refs m n) \<and> live m r \<and> n \<in> fst ` set (sm_node_sessions m)"
    using r by (auto simp: map_of_eq_None_iff)
qed

text \<open>Taking some of a list sorted by distance: what is left out is not closer.\<close>

lemma take_nearest:
  assumes "sorted (map f K)" "distinct K" "ids = take c K"
  shows "distinct ids \<and> sorted (map f ids) \<and> length ids = min c (card (set K))
    \<and> (\<forall>n \<in> set K - set ids. \<forall>i \<in> set ids. f i \<le> f n)"
proof -
  have K: "K = ids @ drop c K" using assms(3) by simp
  have "sorted (map f ids @ map f (drop c K))" using assms(1) K by (metis map_append)
  then have "sorted (map f ids)" "\<forall>i \<in> set ids. \<forall>n \<in> set (drop c K). f i \<le> f n"
    by (auto simp: sorted_append)
  moreover have "set K - set ids \<subseteq> set (drop c K)" by (subst K) auto
  ultimately show ?thesis using assms(2,3) by (auto simp: distinct_card)
qed

lemma sample_manager_last_live [simp]:
  "last_live sample_manager [5] = Some 0" "last_live sample_manager [7] = Some (Suc 0)"
  by (simp_all add: last_live_def node_refs_def)

section \<open>Properties\<close>

text \<open>
  C37: in the default mode the neighbours of a node with a live session are the nearest other nodes: at most
  \<open>count\<close> of them, as many as there are, pairwise different, ordered by distance, each with its most recent
  live session, never the node itself, and no node left out is closer than one returned.
\<close>

theorem neighbours_nearest:
  assumes "manager_reaches H m" "mode m = Humming" "last_live m base \<noteq> None"
    and "\<forall>n \<in> fst ` set (sm_node_sessions m). length n = length base"
    and "others = {n. n \<noteq> base \<and> last_live m n \<noteq> None}"
  shows "\<exists>ids. neighbours base count m = (map (\<lambda>n. the (last_live m n)) ids, m)
    \<and> distinct ids \<and> set ids \<subseteq> others \<and> sorted (map (hamming_distance base) ids)
    \<and> length ids = min count (card others)
    \<and> (\<forall>n \<in> others - set ids. \<forall>i \<in> set ids. hamming_distance base i \<le> hamming_distance base n)"
proof -
  let ?ns = "map fst (sm_node_sessions m)"
  define K where "K = filter (\<lambda>n. last_live m n \<noteq> None) (by_distance base ?ns)"
  have md: "sm_mode m \<noteq> 1" using assms(2) by (auto simp: mode_def split: if_splits)
  have eq: "neighbours base count m = (take count (drop 1 (map (\<lambda>n. the (last_live m n)) K)), m)"
    unfolding K_def by (rule neighbours_eq [where sel = False]) (use md in simp_all)
  have "distinct ?ns" using manager_wfD(3) [OF manager_reaches_wf [OF assms(1)]] .
  note bd = by_distance_facts [OF this, of base]
  have setK: "set K = insert base others" 
  proof -
    have "n \<in> fst ` set (sm_node_sessions m)" if "last_live m n \<noteq> None" for n
      using that last_live_entry by blast
    moreover have "set K = {n \<in> fst ` set (sm_node_sessions m). last_live m n \<noteq> None}"
      using bd(1) by (simp add: K_def)
    ultimately show ?thesis using assms(3) unfolding assms(5) by blast
  qed
  have sK: "sorted (map (hamming_distance base) K)" "distinct K" unfolding K_def using bd(2,3) by (simp_all add: sorted_filter)
  obtain k K' where kK: "K = k # K'" using setK by (cases K) auto
  have "base \<in> set (k # K')" using setK kK by simp
  then have "hamming_distance base k \<le> hamming_distance base base" using sK(1) unfolding kK by auto
  moreover have "length k = length base"
  proof -
    have "k \<in> set K" by (simp add: kK)
    then have "k \<in> fst ` set (sm_node_sessions m)" using bd(1) by (simp add: K_def)
    then show ?thesis using assms(4) by blast
  qed
  ultimately have "k = base" using hamming_distance_eq_0 [of base k] by simp
  have bK: "K = base # K'" using kK \<open>k = base\<close> by simp
  have "base \<notin> others" by (simp add: assms(5))
  moreover have "base \<notin> set K'" "insert base (set K') = insert base others" using sK(2) setK by (simp_all add: bK)
  ultimately have setK': "set K' = others" by (simp add: insert_ident)
  have K': "distinct K'" "sorted (map (hamming_distance base) K')" using sK by (simp_all add: bK)
  note t = take_nearest [OF K'(2,1) refl, of count]
  have "neighbours base count m = (map (\<lambda>n. the (last_live m n)) (take count K'), m)"
    using eq by (simp add: bK take_map)
  moreover have "set (take count K') \<subseteq> others" using setK' set_take_subset by fast
  ultimately show ?thesis using t setK' by (intro exI [of _ "take count K'"]) simp
qed

theorem neighbours_nearest_witness:
  "\<exists>ids. neighbours [5] 3 sample_manager = (map (\<lambda>n. the (last_live sample_manager n)) ids, sample_manager)
    \<and> distinct ids \<and> sorted (map (hamming_distance [5]) ids) \<and> [5] \<notin> set ids"
  using neighbours_nearest [OF sample_manager_reaches _ _ _ refl, of "[5]" 3] by (auto simp: mode_def)

text \<open>
  C38: in split mode the nearest public node is lost: for a node that is not known to be public, only public nodes are
  candidates, the node itself is not among them, and the element skipped as \<open>the node itself\<close> is the nearest
  candidate, however many neighbours are asked for.
\<close>

theorem neighbours_split_omits_nearest:
  assumes "manager_reaches H m" "mode m = Split" "m1 = snd (node_session base m)"
    and "case fst (node_session base m) of None \<Rightarrow> True | Some r \<Rightarrow> \<not> addr_is_valid (se_addr_status (deref m r))"
    and "public = {n. \<exists>r \<in> set (node_refs m1 n). live m1 r \<and> addr_is_valid (se_addr_status (deref m1 r))}"
    and "public \<noteq> {}"
  shows "\<exists>nearest \<in> public. (\<forall>n \<in> public. hamming_distance base nearest \<le> hamming_distance base n)
    \<and> (\<exists>ids. neighbours base count m = (map (\<lambda>n. the (last_live m1 n)) ids, m1)
         \<and> set ids \<subseteq> public - {nearest})"
proof -
  have wf1: "manager_wf H m1" using node_session_wf [OF manager_reaches_wf [OF assms(1)]] assms(3) by simp
  define Q where "Q g \<longleftrightarrow> (\<exists>r \<in> set g. live m1 r \<and> addr_is_valid (se_addr_status (deref m1 r)))" for g
  define ns where "ns = map fst (filter (\<lambda>(_, g). Q g) (sm_node_sessions m1))"
  let ?K = "filter (\<lambda>n. last_live m1 n \<noteq> None) (by_distance base ns)"
  have dr: "deref m1 r = deref m r" for r
    using assms(3) by (simp add: node_session_def deref_def Let_def split: option.splits)
  have eq: "neighbours base count m = (take count (drop 1 (map (\<lambda>n. the (last_live m1 n)) ?K)), m1)"
    by (rule neighbours_eq [where sel = True])
      (use assms(2-4) dr in \<open>auto simp: mode_def ns_def Q_def split: if_splits option.splits\<close>)
  have "distinct (map fst (sm_node_sessions m1))" by (rule manager_wfD(3) [OF wf1])
  then have "distinct ns" unfolding ns_def by (rule distinct_map_filter)
  note bd = by_distance_facts [OF this, of base]
  have refs: "node_refs m1 n = g" if "(n, g) \<in> set (sm_node_sessions m1)" for n g
    using that manager_wfD(3) [OF wf1] by (simp add: node_refs_def)
  have pub: "set ns = public"
  proof (intro set_eqI iffI)
    fix n assume "n \<in> set ns"
    then obtain g where "(n, g) \<in> set (sm_node_sessions m1)" "Q g" by (auto simp: ns_def)
    then show "n \<in> public" using refs [of n g] unfolding assms(5) Q_def by blast
  next
    fix n assume "n \<in> public"
    then have q: "Q (node_refs m1 n)" unfolding assms(5) Q_def by blast
    then obtain g where "map_of (sm_node_sessions m1) n = Some g"
      by (cases "map_of (sm_node_sessions m1) n" rule: option.exhaust) (auto simp: node_refs_def Q_def)
    then have "(n, g) \<in> set (sm_node_sessions m1)" "Q g" using q by (auto simp: node_refs_def dest: map_of_SomeD)
    then show "n \<in> set ns" by (force simp: ns_def)
  qed
  have ll: "last_live m1 n \<noteq> None" if "n \<in> public" for n
    using that unfolding assms(5) last_live_def
    by (auto simp: filter_empty_conv split: list.splits)
  have K: "?K = by_distance base ns" using ll pub bd(1) by (auto simp: filter_id_conv)
  obtain k K' where kK: "by_distance base ns = k # K'"
    using assms(6) pub bd(1) by (cases "by_distance base ns") auto
  have "neighbours base count m = (map (\<lambda>n. the (last_live m1 n)) (take count K'), m1)"
    using eq by (simp only: K) (simp add: kK take_map)
  moreover have "set (take count K') \<subseteq> public - {k}"
    using bd(1,2) pub set_take_subset [of count K'] by (auto simp: kK)
  moreover have "k \<in> public" "\<forall>n \<in> public. hamming_distance base k \<le> hamming_distance base n"
    using bd(1,3) pub by (auto simp: kK)
  ultimately show ?thesis by blast
qed

definition sample_public :: session_manager where
  "sample_public = set_mode Split (update_session 1 (se_addr_status_update (\<lambda>_. AddrValid 0)) sample_manager)"

lemma sample_public_facts [simp]:
  "sm_node_sessions sample_public = [([5], [0]), ([7], [Suc 0])]" "live sample_public = live sample_manager" "mode sample_public = Split"
  "deref sample_public 0 = deref sample_manager 0" "se_addr_status (deref sample_public (Suc 0)) = AddrValid 0"
  by (simp_all add: sample_public_def set_mode_def mode_def update_session_def deref_def live_def fun_eq_iff)

lemma sample_public_reaches: "manager_reaches (\<lambda>_. 0) sample_public"
  unfolding sample_public_def
  by (intro manager_reaches.mode_set manager_reaches.addr [where st = "AddrValid 0"] sample_manager_reaches)

theorem neighbours_split_omits_nearest_witness:
  "\<exists>ids m1. neighbours [5] 3 sample_public = (map (\<lambda>n. the (last_live m1 n)) ids, m1) \<and> ids = []"
proof -
  have m1: "node_session [5] sample_public = (Some 0, sample_public)"
    by (simp add: node_session_def)
  let ?public = "{n. \<exists>r \<in> set (node_refs sample_public n). live sample_public r \<and> addr_is_valid (se_addr_status (deref sample_public r))}"
  have pub: "?public = {[7]}" by (auto simp: node_refs_def split: if_splits)
  have "\<exists>nearest \<in> {[7]}. (\<forall>n \<in> {[7]}. hamming_distance [5] nearest \<le> hamming_distance [5] n)
      \<and> (\<exists>ids. neighbours [5] 3 sample_public = (map (\<lambda>n. the (last_live sample_public n)) ids, sample_public)
         \<and> set ids \<subseteq> {[7]} - {nearest})"
    by (rule neighbours_split_omits_nearest [OF sample_public_reaches _ _ _ pub [symmetric]]) (simp_all add: m1)
  then show ?thesis by auto
qed

end
