(* ===== verification/Slots.thy ===== *)
theory Slots
  imports Identity "HOL-Library.AList"
begin

text \<open>
  The slot table of the server, \<^verbatim>\<open>server/src/state/slot_manager.rs\<close>: node identifiers numbered in the
  order of their first appearance, and its file format, 20 bytes per slot. The table sits behind a lock;
  each operation runs under it.
\<close>

text \<open>The map of the nodes has one entry per node; what follows does not depend on the order of the entries.\<close>

record slot_manager =
  sl_nodes :: "(node_id \<times> u32) list"
  sl_slots :: "node_id list"

text \<open>Slot 0 is taken by the default node identifier, an argument here.\<close>

definition slot_manager_new :: "node_id \<Rightarrow> slot_manager" where
  "slot_manager_new default_id = \<lparr> sl_nodes = [(default_id, 0)], sl_slots = [default_id] \<rparr>"

text \<open>
  The new slot number is the length cut to 32 bits. The debug assertion that the list and the map have the same
  length is a panic when it fails.
\<close>

definition slot_manager_slot :: "node_id \<Rightarrow> slot_manager \<Rightarrow> (u32 \<times> slot_manager, 'e) result" where
  "slot_manager_slot node_id m =
     (case map_of (sl_nodes m) node_id of
        Some slot_id \<Rightarrow> Ok (slot_id, m)
      | None \<Rightarrow>
          let slot_id = of_nat (length (sl_slots m));
              gw = \<lparr> sl_nodes = AList.update node_id slot_id (sl_nodes m), sl_slots = sl_slots m @ [node_id] \<rparr> in
          if length (sl_slots gw) = length (sl_nodes gw) then Ok (slot_id, gw) else Panic)"

definition slot_manager_node :: "u32 \<Rightarrow> slot_manager \<Rightarrow> node_id option" where
  "slot_manager_node slot m =
     (if unat slot < length (sl_slots m) then Some (sl_slots m ! unat slot) else None)"

definition slot_manager_len :: "slot_manager \<Rightarrow> nat" where
  "slot_manager_len m = length (sl_slots m)"

section \<open>Saving and loading\<close>

definition slot_manager_save :: "slot_manager \<Rightarrow> bytes" where
  "slot_manager_save m = concat (sl_slots m)"

text \<open>
  The buffered reader of the standard library: when its buffer is empty it is filled with up to 8192 bytes
  of the file, and a read returns at most what is in the buffer, without filling it up again.
\<close>

definition BUF_READER_CAPACITY :: nat where "BUF_READER_CAPACITY = 8192"

type_synonym buf_reader = "bytes \<times> bytes"

definition buf_read :: "nat \<Rightarrow> buf_reader \<Rightarrow> bytes \<times> buf_reader" where
  "buf_read n r =
     (let (buf, file) = (if fst r = [] then (take BUF_READER_CAPACITY (snd r), drop BUF_READER_CAPACITY (snd r)) else r) in
      (take n buf, (drop n buf, file)))"

datatype slot_error = WrongFileSize

lemma buf_read_shorter:
  assumes read: "buf_read n r = (data, r')" and ne: "data \<noteq> []"
  shows "length (fst r') + length (snd r') < length (fst r) + length (snd r)"
proof (cases "fst r = []")
  case True
  then have d: "data = take n (take BUF_READER_CAPACITY (snd r))"
    and r': "r' = (drop n (take BUF_READER_CAPACITY (snd r)), drop BUF_READER_CAPACITY (snd r))"
    using read by (auto simp: buf_read_def)
  have "length (take BUF_READER_CAPACITY (snd r)) + length (drop BUF_READER_CAPACITY (snd r)) = length (snd r)"
    by (simp flip: length_append)
  moreover have "length (drop n xs) < length xs" if "take n xs \<noteq> []" for xs :: bytes
    using that by (cases n; cases xs) auto
  then have "length (drop n (take BUF_READER_CAPACITY (snd r))) < length (take BUF_READER_CAPACITY (snd r))"
    using ne d by blast
  ultimately show ?thesis unfolding r' fst_conv snd_conv by linarith
next
  case False
  then have "data = take n (fst r)" "r' = (drop n (fst r), snd r)" "0 < length (fst r)"
    using read by (auto simp: buf_read_def split: prod.splits)
  then show ?thesis using ne by (cases n) auto
qed

function load_loop :: "buf_reader \<Rightarrow> node_id list \<Rightarrow> (node_id list, slot_error) result" where
  "load_loop r slots =
     (let (data, r') = buf_read 20 r in
      if data = [] then Ok slots
      else if length data \<noteq> 20 then Err WrongFileSize
      else load_loop r' (slots @ [data]))"
  by pat_completeness auto

termination
  by (relation "measure (\<lambda>(r, _). length (fst r) + length (snd r))") (auto dest!: buf_read_shorter [OF sym])

declare load_loop.simps [simp del]

text \<open>The map is collected in order, so a later entry for the same node wins.\<close>

definition slot_manager_load :: "bytes \<Rightarrow> (slot_manager, slot_error) result" where
  "slot_manager_load file =
     rbind (load_loop ([], file) []) (\<lambda>slots.
       Ok \<lparr> sl_nodes = fold (\<lambda>(node_id, idx). AList.update node_id idx) (zip slots (map of_nat [0..<length slots])) [],
            sl_slots = slots \<rparr>)"

section \<open>Facts\<close>

text \<open>The table numbers distinct nodes, and the two directions agree.\<close>

definition slots_wf :: "slot_manager \<Rightarrow> bool" where
  "slots_wf m \<longleftrightarrow> distinct (sl_slots m) \<and> length (sl_slots m) \<le> 2 ^ 32
     \<and> sl_nodes m = zip (sl_slots m) (map of_nat [0..<length (sl_slots m)])"

text \<open>What the debug assertion needs: as many nodes as slots.\<close>

definition slots_counted :: "slot_manager \<Rightarrow> bool" where
  "slots_counted m \<longleftrightarrow> length (sl_nodes m) = length (sl_slots m)"

lemma slots_wf_new: "slots_wf (slot_manager_new n)"
  by (simp add: slots_wf_def slot_manager_new_def)

lemma slots_wf_counted: "slots_wf m \<Longrightarrow> slots_counted m"
  by (simp add: slots_wf_def slots_counted_def)

lemma alist_update_absent: "map_of xs k = None \<Longrightarrow> AList.update k v xs = xs @ [(k, v)]"
  by (induction xs) (auto split: if_splits)

lemma slot_known: "map_of (sl_nodes m) n = Some s \<Longrightarrow> slot_manager_slot n m = Ok (s, m)"
  by (simp add: slot_manager_slot_def)

lemma slot_new:
  assumes "slots_counted m" "map_of (sl_nodes m) n = None"
  shows "slot_manager_slot n m = Ok (of_nat (length (sl_slots m)),
    \<lparr> sl_nodes = sl_nodes m @ [(n, of_nat (length (sl_slots m)))], sl_slots = sl_slots m @ [n] \<rparr>)"
  using assms by (simp add: slot_manager_slot_def slots_counted_def alist_update_absent Let_def)

lemma slot_counted:
  assumes "slots_counted m"
  shows "\<exists>s m'. slot_manager_slot n m = Ok (s, m') \<and> slots_counted m' \<and> map_of (sl_nodes m') n = Some s
    \<and> length (sl_slots m') \<le> Suc (length (sl_slots m)) \<and> (\<forall>k t. map_of (sl_nodes m) k = Some t \<longrightarrow> map_of (sl_nodes m') k = Some t)"
proof (cases "map_of (sl_nodes m) n")
  case None
  then have "map_of (sl_nodes m @ [(n, t)]) k = (if k = n then Some t else map_of (sl_nodes m) k)" for k t
    by (auto simp: map_add_def split: option.splits)
  then show ?thesis using assms None slot_new [OF assms None, where ?'a = 'a] by (auto simp: slots_counted_def)
qed (use assms in \<open>simp add: slot_known\<close>)

lemma unat_of_nat_slot: "i < 2 ^ 32 \<Longrightarrow> unat (of_nat i :: u32) = i"
  by (simp add: unsigned_of_nat take_bit_nat_eq_self)

lemma slots_wf_node:
  assumes "slots_wf m"
  shows "map_of (sl_nodes m) n = Some s \<longleftrightarrow> slot_manager_node s m = Some n"
proof -
  have "map_of (sl_nodes m) n = Some s \<longleftrightarrow> (\<exists>i < length (sl_slots m). sl_slots m ! i = n \<and> of_nat i = s)"
    using assms by (auto simp: slots_wf_def map_of_eq_Some_iff in_set_zip)
  also have "\<dots> \<longleftrightarrow> slot_manager_node s m = Some n"
    using assms by (force simp: slots_wf_def slot_manager_node_def unat_of_nat_slot)
  finally show ?thesis .
qed

lemma slots_wf_dom: "slots_wf m \<Longrightarrow> dom (map_of (sl_nodes m)) = set (sl_slots m)"
  by (simp add: slots_wf_def)

lemma slots_wf_slot:
  assumes "slots_wf m" "length (sl_slots m) < 2 ^ 32" "slot_manager_slot n m = Ok (s, m')"
  shows "slots_wf m'"
proof (cases "map_of (sl_nodes m) n")
  case None
  then have "n \<notin> set (sl_slots m)" using slots_wf_dom [OF assms(1)] by auto
  then show ?thesis
    using assms slot_new [OF slots_wf_counted [OF assms(1)] None, where ?'a = 'a] by (auto simp: slots_wf_def)
next
  case (Some s)
  then show ?thesis using assms slot_known [OF Some, where ?'a = 'a] by simp
qed

lemma slot_assigned:
  assumes "slots_wf m" "length (sl_slots m) < 2 ^ 32" "slot_manager_slot n m = Ok (s, m')"
  shows "slot_manager_node s m' = Some n"
  using slots_wf_node [OF slots_wf_slot [OF assms]] slot_counted [OF slots_wf_counted [OF assms(1)], of n, where ?'a = 'a] assms(3)
  by auto



lemma buf_read_records:
  assumes "buf \<noteq> []"
  shows "buf_read 20 (buf, file) = (take 20 buf, (drop 20 buf, file))"
  using assms by (simp add: buf_read_def)

text \<open>Reading records that all fit into the buffer.\<close>

lemma load_loop_buffered:
  assumes "\<forall>s \<in> set ss. length s = 20"
  shows "load_loop (concat ss, []) acc = Ok (acc @ ss)"
  using assms
proof (induction ss arbitrary: acc)
  case Nil
  then show ?case by (simp add: load_loop.simps buf_read_def)
next
  case (Cons s ss)
  then have "s \<noteq> []" by auto
  then have "buf_read 20 (concat (s # ss), []) = (s, (concat ss, []))"
    using Cons.prems by (simp add: buf_read_records)
  then show ?case using Cons \<open>s \<noteq> []\<close> by (subst load_loop.simps) simp
qed

text \<open>Reading through a full buffer: the record that crosses its end comes back short.\<close>

lemma load_loop_cut:
  assumes "\<forall>s \<in> set ss. length s = 20" "0 < length tail" "length tail < 20"
  shows "load_loop (concat ss @ tail, file) acc = Err WrongFileSize"
  using assms(1)
proof (induction ss arbitrary: acc)
  case Nil
  then show ?case using assms by (subst load_loop.simps) (simp add: buf_read_def)
next
  case (Cons s ss)
  then have "s \<noteq> []" by auto
  then have "buf_read 20 (concat (s # ss) @ tail, file) = (s, (concat ss @ tail, file))"
    using Cons.prems by (simp add: buf_read_records)
  then show ?case using Cons \<open>s \<noteq> []\<close> by (subst load_loop.simps) simp
qed

lemma load_loop_fill:
  assumes "file \<noteq> []"
  shows "load_loop ([], file) acc = load_loop (take BUF_READER_CAPACITY file, drop BUF_READER_CAPACITY file) acc"
proof -
  have "buf_read 20 ([], file) = buf_read 20 (take BUF_READER_CAPACITY file, drop BUF_READER_CAPACITY file)"
    using assms by (simp add: buf_read_def BUF_READER_CAPACITY_def)
  then show ?thesis by (subst (1 2) load_loop.simps) simp
qed

lemma length_concat_records: "\<forall>s \<in> set ss. length s = 20 \<Longrightarrow> length (concat ss) = 20 * length ss"
  by (induction ss) simp_all

lemma load_loop_long:
  assumes "\<forall>s \<in> set ss. length s = 20" "410 \<le> length ss"
  shows "load_loop ([], concat ss) [] = Err WrongFileSize"
proof -
  define a b c where "a = take 409 ss" and "b = ss ! 409" and "c = drop 410 ss"
  have ss: "ss = a @ b # c" using id_take_nth_drop [of 409 ss] assms(2) by (simp add: a_def b_def c_def)
  have rec: "\<forall>s \<in> set a. length s = 20" "length b = 20" using assms(1) by (auto simp: ss)
  have "length a = 409" using assms(2) by (simp add: a_def)
  then have la: "length (concat a) = 8180" using length_concat_records [OF rec(1)] by simp
  have "take BUF_READER_CAPACITY (concat ss) = concat a @ take 12 b"
    using la rec by (simp add: ss BUF_READER_CAPACITY_def)
  moreover have "concat ss \<noteq> []" using rec(2) by (auto simp: ss)
  ultimately show ?thesis
    using load_loop_cut [OF rec(1), of "take 12 b"] rec(2) by (simp add: load_loop_fill)
qed

lemma load_loop_short:
  assumes "\<forall>s \<in> set ss. length s = 20" "length ss \<le> 409"
  shows "load_loop ([], concat ss) [] = Ok ss"
proof (cases "concat ss = []")
  case True
  then have "ss = []" using assms(1) by (cases ss) auto
  then show ?thesis by (simp add: load_loop.simps buf_read_def)
next
  case False
  have "length (concat ss) \<le> BUF_READER_CAPACITY"
    using length_concat_records [OF assms(1)] assms(2) by (simp add: BUF_READER_CAPACITY_def)
  then show ?thesis using load_loop_buffered [OF assms(1), of "[]"] by (simp add: load_loop_fill [OF False])
qed

lemma fold_update_distinct:
  "distinct (map fst (acc @ xs)) \<Longrightarrow> fold (\<lambda>(k, v). AList.update k v) xs acc = acc @ xs"
proof (induction xs arbitrary: acc)
  case (Cons x xs)
  obtain k v where x: "x = (k, v)" by (cases x)
  have "map_of acc k = None" using Cons.prems by (auto simp: x map_of_eq_None_iff)
  then show ?case using Cons by (simp add: x alist_update_absent)
qed simp

section \<open>Properties\<close>



text \<open>
  a saved table is read back exactly when it has at most 409 slots; from the 410th slot on the reader,
  which takes a short read for the end of the file, refuses the file the server itself has written.
\<close>

theorem slots_save_load:
  assumes "slots_wf m" "\<forall>s \<in> set (sl_slots m). length s = 20"
  shows "slot_manager_load (slot_manager_save m) =
    (if length (sl_slots m) \<le> 409 then Ok m else Err WrongFileSize)"
proof -
  have "fold (\<lambda>(node_id, idx). AList.update node_id idx) (zip (sl_slots m) (map of_nat [0..<length (sl_slots m)])) [] = sl_nodes m"
    using assms(1) fold_update_distinct [of "[]" "sl_nodes m"] by (simp add: slots_wf_def)
  then show ?thesis
    using load_loop_short [OF assms(2)] load_loop_long [OF assms(2)]
    by (simp add: slot_manager_load_def slot_manager_save_def)
qed

theorem slots_save_load_witness:
  "slot_manager_load (slot_manager_save (slot_manager_new (replicate 20 0))) = Ok (slot_manager_new (replicate 20 0))"
  using slots_save_load [OF slots_wf_new [of "replicate 20 0"]] by (simp add: slot_manager_new_def)

end
