(* ===== verification/Server_State.thy ===== *)
theory Server_State
  imports Neighbours Slots Codec
begin

text \<open>
  The state the server's handlers share, the decoder of sessions into node descriptions
  (\<^verbatim>\<open>server/src/server/state_decoder.rs\<close>), the cache of announced disconnections
  (\<^verbatim>\<open>server/src/server.rs\<close>) and the check of public addresses
  (\<^verbatim>\<open>server/src/server/ip_checker.rs\<close>). What is not part of the repository is a field of the record
  argument \<open>env\<close>: hash functions, signatures, the protobuf runtime, version numbers and the eviction of the
  caches; so are the configuration and, for the worker at hand, the salt of its session handler. The cache of announced
  disconnections and the pending checks are those of the worker at hand, everything else is shared. Counters and acknowledgements only feed metrics and are left out. Failing sends are not modelled, and
  the pending checks are kept in the order of their arrival instead of that of their addresses.
\<close>

record env =
  ev_ext :: ext
  ev_digest :: "bytes \<Rightarrow> bytes"
  ev_keccak :: "bytes \<Rightarrow> bytes"
  ev_hash :: "session_id \<Rightarrow> u64"
  ev_prost :: prost
  ev_v6 :: v6_text
  ev_version :: "string \<Rightarrow> string option"
  ev_version_less :: "string \<Rightarrow> string \<Rightarrow> bool"
  ev_evict_ip :: "(socket_addr \<rightharpoonup> nat \<times> bool) \<Rightarrow> (socket_addr \<rightharpoonup> nat \<times> bool)"
  ev_evict_disconnect :: "(session_id \<rightharpoonup> u32) \<Rightarrow> (session_id \<rightharpoonup> u32)"
  ev_difficulty :: u64
  ev_config_salt :: "bytes option"
  ev_salt :: bytes
  ev_min_version :: string
  ev_server_start :: nat

text \<open>Which clock readings a handler sees: the monotonic clock and the time since the epoch, in nanoseconds.\<close>

record times =
  tm_now :: nat
  tm_unix :: nat

definition clock_at :: "env \<Rightarrow> times \<Rightarrow> clock" where
  "clock_at E T = clock_now (ev_server_start E) (tm_now T)"

text \<open>What a pending address check does with its result: answer a registration, or an operator's command.\<close>

datatype resolve = ResolveRegister u64 | ResolveControl

record check_request =
  cq_session_w :: sref
  cq_addr :: socket_addr
  cq_ts :: nat
  cq_retry_cnt :: nat
  cq_resolve :: resolve

record server_state =
  ss_sessions :: session_manager
  ss_slots :: slot_manager
  ss_ip_cache :: "socket_addr \<rightharpoonup> nat \<times> bool"
  ss_disconnect :: "session_id \<rightharpoonup> u32"
  ss_queue :: "check_request list"
  ss_requests :: "(socket_addr \<times> check_request list) list"
  ss_retry_cnt :: nat
  ss_next_request_id :: u64
  ss_sent :: "(packet_kind \<times> socket_addr) list"
  ss_control_replies :: "bool list"

text \<open>Packets handed to a socket are recorded with their destination, in order.\<close>

definition send_to :: "packet_kind \<Rightarrow> socket_addr \<Rightarrow> server_state \<Rightarrow> server_state" where
  "send_to pkt addr s = s\<lparr> ss_sent := ss_sent s @ [(pkt, addr)] \<rparr>"

definition with_sessions :: "(session_manager \<Rightarrow> session_manager) \<Rightarrow> server_state \<Rightarrow> server_state" where
  "with_sessions f s = s\<lparr> ss_sessions := f (ss_sessions s) \<rparr>"

definition touch :: "clock \<Rightarrow> sref \<Rightarrow> server_state \<Rightarrow> server_state" where
  "touch clock r = with_sessions (update_session r (se_ts_update (\<lambda>_. ck_ts clock)))"

definition set_addr_status :: "sref \<Rightarrow> addr_status \<Rightarrow> server_state \<Rightarrow> server_state" where
  "set_addr_status r st = with_sessions (update_session r (se_addr_status_update (\<lambda>_. st)))"

section \<open>Node descriptions\<close>

definition resp_node_default :: resp_node where
  "resp_node_default = \<lparr> rn_identities = [], rn_endpoints = [], rn_seen_ts = 0, rn_slot = 0,
     rn_supported_encryptions = [], rn_session_pub_key = [], rn_session_key_proof = [], rn_session_key_proofs = [] \<rparr>"

definition option_list :: "'a option \<Rightarrow> 'a list" where
  "option_list x = (case x of None \<Rightarrow> [] | Some y \<Rightarrow> [y])"

definition unwrap_or_default :: "bytes option \<Rightarrow> bytes" where
  "unwrap_or_default x = (case x of None \<Rightarrow> [] | Some b \<Rightarrow> b)"

definition session_key_fields :: "session \<Rightarrow> bool \<Rightarrow> bytes \<times> bytes \<times> bytes list" where
  "session_key_fields s pk =
     (if pk then
        (case se_session_key s of
           Some (session_key, proofs) \<Rightarrow>
             (session_key,
              (case se_keys s of [] \<Rightarrow> [] | i # _ \<Rightarrow> unwrap_or_default (proofs (id_node_id i))),
              map (\<lambda>i. unwrap_or_default (proofs (id_node_id i))) (se_keys s))
         | None \<Rightarrow> ([], [], []))
      else ([], [], []))"

definition state_decoder :: "env \<Rightarrow> times \<Rightarrow> (u64, 'e) result" where
  "state_decoder E T = ts_decoder_new (ev_server_start E) (tm_now T) (tm_unix T)"

definition to_node_info :: "env \<Rightarrow> u64 \<Rightarrow> session \<Rightarrow> node_id \<Rightarrow> bool \<Rightarrow> slot_manager \<Rightarrow>
    (resp_node \<times> slot_manager, 'e) result" where
  "to_node_info E rel_ts s context pk slots =
     (let (session_pub_key, session_key_proof, session_key_proofs) = session_key_fields s pk in
      rbind (ts_decode rel_ts (se_ts s)) (\<lambda>seen_ts.
      rbind (slot_manager_slot context slots) (\<lambda>(slot, slots).
      Ok (\<lparr> rn_identities = map identity_to_proto (se_keys s),
            rn_endpoints = option_list (session_endpoint (ev_v6 E) s),
            rn_seen_ts = seen_ts, rn_slot = slot,
            rn_supported_encryptions = se_supported_encryptions s,
            rn_session_pub_key = session_pub_key, rn_session_key_proof = session_key_proof,
            rn_session_key_proofs = session_key_proofs \<rparr>, slots))))"

section \<open>Announced disconnections\<close>

definition DISCONNECT_MIN_AGE :: nat where "DISCONNECT_MIN_AGE = 60 * NANOS"

text \<open>Whether a notice is due for this session; a cache may forget entries when one is added.\<close>

definition mark_session :: "env \<Rightarrow> times \<Rightarrow> session_id \<Rightarrow> server_state \<Rightarrow> bool \<times> server_state" where
  "mark_session E T session_id s =
     (case ss_disconnect s session_id of
        Some it \<Rightarrow>
          if last_seen_age (ev_server_start E) (tm_now T) it > DISCONNECT_MIN_AGE
          then (True, s\<lparr> ss_disconnect := (ss_disconnect s)(session_id \<mapsto> clock_last_seen (clock_at E T)) \<rparr>)
          else (False, s)
      | None \<Rightarrow>
          (True, s\<lparr> ss_disconnect :=
             ev_evict_disconnect E ((ss_disconnect s)(session_id \<mapsto> clock_last_seen (clock_at E T))) \<rparr>))"

section \<open>Address checks\<close>

definition check_ip_status :: "nat \<Rightarrow> sref \<Rightarrow> resolve \<Rightarrow> server_state \<Rightarrow> server_state" where
  "check_ip_status ts r resolve s =
     (let addr = se_peer (deref (ss_sessions s) r) in
      s\<lparr> ss_queue := ss_queue s @ [\<lparr> cq_session_w = r, cq_addr = addr, cq_ts = ts,
           cq_retry_cnt = ss_retry_cnt s, cq_resolve = resolve \<rparr>] \<rparr>)"

text \<open>The callbacks of \<^verbatim>\<open>register.rs\<close> and \<^verbatim>\<open>control.rs\<close>.\<close>

definition resolve_request :: "env \<Rightarrow> times \<Rightarrow> bool \<Rightarrow> sref \<Rightarrow> resolve \<Rightarrow> server_state \<Rightarrow> server_state" where
  "resolve_request E T status r how s =
     (case how of
        ResolveRegister request_id \<Rightarrow>
          (let s = set_addr_status r (addr_set_valid (tm_now T) status) s;
               session = deref (ss_sessions s) r;
               s = s\<lparr> ss_ip_cache := ev_evict_ip E ((ss_ip_cache s)(se_peer session \<mapsto> (tm_now T, status))) \<rparr>;
               endpoints = option_list (session_endpoint (ev_v6 E) session);
               s = with_sessions (link_sessions r) s in
           send_to (PKPacket (packet_response request_id (se_session_id session) STATUS_OK (RespRegister endpoints)))
             (se_peer session) s)
      | ResolveControl \<Rightarrow>
          (let s = set_addr_status r (addr_set_valid (tm_now T) status) s in
           s\<lparr> ss_control_replies := ss_control_replies s @ [status] \<rparr>))"

definition ping_packet :: "session_id \<Rightarrow> socket_addr \<Rightarrow> server_state \<Rightarrow> server_state" where
  "ping_packet session_id addr s =
     (let (p, n) = packet_request (ss_next_request_id s) session_id ReqPing in
      send_to (PKPacket p) addr (s\<lparr> ss_next_request_id := n \<rparr>))"

definition do_ping :: "check_request \<Rightarrow> server_state \<Rightarrow> server_state" where
  "do_ping req s =
     (if live (ss_sessions s) (cq_session_w req)
      then ping_packet (se_session_id (deref (ss_sessions s) (cq_session_w req))) (cq_addr req) s
      else s)"

definition requests_for :: "socket_addr \<Rightarrow> server_state \<Rightarrow> check_request list" where
  "requests_for addr s = (case map_of (ss_requests s) addr of None \<Rightarrow> [] | Some rs \<Rightarrow> rs)"

text \<open>One round of the ping job: the first queued request is pinged and filed unless its session is pending already.\<close>

definition ping_job :: "server_state \<Rightarrow> server_state" where
  "ping_job s =
     (case ss_queue s of
        [] \<Rightarrow> s
      | req # queue \<Rightarrow>
          (let s = do_ping req (s\<lparr> ss_queue := queue \<rparr>);
               reqs = requests_for (cq_addr req) s;
               reqs = (if \<forall>p \<in> set reqs. cq_session_w p \<noteq> cq_session_w req then reqs @ [req] else reqs) in
           s\<lparr> ss_requests := AList.update (cq_addr req) reqs (ss_requests s) \<rparr>))"

definition checks_size :: "server_state \<Rightarrow> nat" where
  "checks_size s = sum_list (map (length \<circ> snd) (ss_requests s))"

text \<open>
  The retry round: requests of dead sessions are dropped, those older than the timeout resolve as
  unreachable, the others are kept and pinged again while they have retries left.
\<close>

fun retry_requests :: "env \<Rightarrow> times \<Rightarrow> nat \<Rightarrow> check_request list \<Rightarrow> server_state \<Rightarrow>
    check_request list \<times> sref list \<times> server_state" where
  "retry_requests E T timeout [] s = ([], [], s)"
| "retry_requests E T timeout (req # reqs) s =
     (if \<not> live (ss_sessions s) (cq_session_w req) then retry_requests E T timeout reqs s
      else if tm_now T - cq_ts req > timeout
      then retry_requests E T timeout reqs (resolve_request E T False (cq_session_w req) (cq_resolve req) s)
      else
        let (kept, to_ping, s') = retry_requests E T timeout reqs s in
        if cq_retry_cnt req > 0
        then (req\<lparr> cq_retry_cnt := cq_retry_cnt req - 1 \<rparr> # kept, cq_session_w req # to_ping, s')
        else (req # kept, to_ping, s'))"

fun retry_entries :: "env \<Rightarrow> times \<Rightarrow> nat \<Rightarrow> (socket_addr \<times> check_request list) list \<Rightarrow> server_state \<Rightarrow>
    (socket_addr \<times> check_request list) list \<times> sref list \<times> server_state" where
  "retry_entries E T timeout [] s = ([], [], s)"
| "retry_entries E T timeout ((addr, reqs) # rest) s =
     (let (kept, to_ping, s) = retry_requests E T timeout reqs s;
          (entries, to_ping', s) = retry_entries E T timeout rest s in
      ((addr, kept) # entries, to_ping @ to_ping', s))"

definition send_pings :: "env \<Rightarrow> times \<Rightarrow> nat \<Rightarrow> server_state \<Rightarrow> server_state" where
  "send_pings E T timeout s =
     (let (entries, to_ping, s) = retry_entries E T timeout (ss_requests s) s;
          s = s\<lparr> ss_requests := filter (\<lambda>(_, reqs). reqs \<noteq> []) entries \<rparr> in
      fold (\<lambda>r s. ping_packet (se_session_id (deref (ss_sessions s) r)) (se_peer (deref (ss_sessions s) r)) s)
        to_ping s)"

fun resolve_matching :: "env \<Rightarrow> times \<Rightarrow> session_id \<Rightarrow> check_request list \<Rightarrow> server_state \<Rightarrow>
    check_request list \<times> server_state" where
  "resolve_matching E T session_id [] s = ([], s)"
| "resolve_matching E T session_id (req # reqs) s =
     (if \<not> live (ss_sessions s) (cq_session_w req) then resolve_matching E T session_id reqs s
      else if session_id = se_session_id (deref (ss_sessions s) (cq_session_w req))
      then resolve_matching E T session_id reqs (resolve_request E T True (cq_session_w req) (cq_resolve req) s)
      else
        let (kept, s') = resolve_matching E T session_id reqs s in (req # kept, s'))"

definition resolve_success :: "env \<Rightarrow> times \<Rightarrow> socket_addr \<Rightarrow> bytes \<Rightarrow> server_state \<Rightarrow> (server_state, core_error) result" where
  "resolve_success E T peer session_id s =
     rbind (session_id_try_from session_id) (\<lambda>session_id.
     Ok (case map_of (ss_requests s) peer of
           None \<Rightarrow> s
         | Some reqs \<Rightarrow>
             (let (kept, s) = resolve_matching E T session_id reqs s in
              if kept = [] then s\<lparr> ss_requests := AList.delete peer (ss_requests s) \<rparr>
              else s\<lparr> ss_requests := AList.update peer kept (ss_requests s) \<rparr>)))"

definition resolve_unreachable :: "env \<Rightarrow> times \<Rightarrow> socket_addr \<Rightarrow> server_state \<Rightarrow> server_state" where
  "resolve_unreachable E T peer s =
     fold (\<lambda>req s. if live (ss_sessions s) (cq_session_w req)
                   then resolve_request E T False (cq_session_w req) (cq_resolve req) s else s)
       (requests_for peer s) (s\<lparr> ss_requests := AList.delete peer (ss_requests s) \<rparr>)"

end
