(* ===== verification/Handlers.thy ===== *)
theory Handlers
  imports Server_State
begin

text \<open>
  The request handlers of the server (\<^verbatim>\<open>server/src/server/*.rs\<close>), the worker that decodes a datagram and
  dispatches it (\<^verbatim>\<open>server/src/server.rs\<close>) and the operator's commands
  (\<^verbatim>\<open>server/src/state/control.rs\<close>). A handler runs to completion on the shared state and returns the reply to the
  sender, if any.
\<close>

datatype server_error = CodecError codec_error | CoreError core_error

type_synonym handled = "(packet option \<times> server_state, server_error) result"

definition reply :: "packet \<Rightarrow> server_state \<Rightarrow> handled" where
  "reply p s = Ok (Some p, s)"

definition no_reply :: "server_state \<Rightarrow> handled" where
  "no_reply s = Ok (None, s)"

section \<open>Sessions\<close>

datatype client_version_error = VersionInvalid | VersionTooOld string

definition validate_client_version :: "env \<Rightarrow> string \<Rightarrow> (string, client_version_error) result" where
  "validate_client_version E client_version =
     rbind (ok_or VersionInvalid (ev_version E client_version)) (\<lambda>version.
     if ev_version_less E version (ev_min_version E) then Err (VersionTooOld version) else Ok version)"

text \<open>
  Every worker has a session handler of its own. Its salt is the configured one, or else 16 random bytes
  drawn when the worker is started.
\<close>

definition session_handler_new :: "env \<Rightarrow> bytes \<Rightarrow> env" where
  "session_handler_new E rnd = E\<lparr> ev_salt := (case ev_config_salt E of Some salt \<Rightarrow> salt | None \<Rightarrow> rnd) \<rparr>"

definition epoch :: "times \<Rightarrow> u64" where
  "epoch T = of_nat (tm_unix T div NANOS) div 600"

definition session_challenge :: "env \<Rightarrow> session_id \<Rightarrow> bytes" where
  "session_challenge E session_id = take 16 (ev_keccak E (session_id @ ev_salt E))"

fun ip_octets :: "ip_addr \<Rightarrow> bytes" where
  "ip_octets (IpAddrV4 a b c d) = [a, b, c, d]"
| "ip_octets (IpAddrV6 bs) = bs"

text \<open>\<^verbatim>\<open>to_ne_bytes\<close> on a little-endian machine.\<close>

definition u64_to_ne :: "u64 \<Rightarrow> bytes" where
  "u64_to_ne w = rev (u64_to_be w)"

definition gen_new_challenge :: "env \<Rightarrow> socket_addr \<Rightarrow> u64 \<Rightarrow> session_id" where
  "gen_new_challenge E addr ep =
     take 16 (ev_keccak E (ip_octets (sa_ip addr) @ u16_to_be (sa_port addr) @ ev_salt E
       @ u64_to_ne (ev_difficulty E) @ u64_to_ne ep))"

fun check_epochs :: "env \<Rightarrow> session_id \<Rightarrow> socket_addr \<Rightarrow> u64 \<Rightarrow> u64 list \<Rightarrow> (bool, 'e) result" where
  "check_epochs E session_id addr ep [] = Ok False"
| "check_epochs E session_id addr ep (n # ns) =
     rbind (sub_panic ep n) (\<lambda>e.
     if session_id = gen_new_challenge E addr e then Ok True else check_epochs E session_id addr ep ns)"

definition check_session_id :: "env \<Rightarrow> times \<Rightarrow> session_id \<Rightarrow> socket_addr \<Rightarrow> (bool, 'e) result" where
  "check_session_id E T session_id addr = check_epochs E session_id addr (epoch T) [0, 1, 2]"

definition session_reply :: "session_id \<Rightarrow> u64 \<Rightarrow> int \<Rightarrow> response_kind option \<Rightarrow> packet" where
  "session_reply session_id request_id code kind =
     \<lparr> pk_session_id = session_id,
       pk_kind = Some (KResponse \<lparr> rp_request_id = request_id, rp_code = code, rp_kind = kind \<rparr>) \<rparr>"

definition session_handle_response :: "env \<Rightarrow> times \<Rightarrow> socket_addr \<Rightarrow> u64 \<Rightarrow> session_id \<Rightarrow> challenge_response \<Rightarrow>
    string list \<Rightarrow> server_state \<Rightarrow> handled" where
  "session_handle_response E T src request_id session_id challenge_resp supported_encryptions s =
     (let challenge = session_challenge E session_id in
      case recover_identities_with_proof (ev_ext E) (ev_digest E) challenge (ev_difficulty E)
             (Some challenge_resp) None of
        Err e \<Rightarrow> reply (session_reply session_id request_id STATUS_BAD_REQUEST None) s
      | Panic \<Rightarrow> Panic
      | Ok (node_id, keys, session_key_with_proofs) \<Rightarrow>
          rbind (check_session_id E T session_id src) (\<lambda>ok.
          if \<not> ok then
            reply (session_reply session_id request_id STATUS_BAD_REQUEST (Some (RespSession resp_session_default))) s
          else
            (case new_session (ev_hash E) (clock_at E T) session_id src node_id keys supported_encryptions
                    session_key_with_proofs (ss_sessions s) of
               (Ok r, m) \<Rightarrow>
                 reply (session_reply session_id request_id STATUS_OK (Some (RespSession resp_session_default)))
                   (s\<lparr> ss_sessions := m \<rparr>)
             | (Err prev, m) \<Rightarrow>
                 reply (session_reply session_id request_id
                     (if se_node_id (deref m prev) \<noteq> node_id then STATUS_CONFLICT else STATUS_OK)
                     (Some (RespSession resp_session_default)))
                   (s\<lparr> ss_sessions := m \<rparr>)
             | (Panic, m) \<Rightarrow> Panic)))"

text \<open>The random challenge prepared first is replaced by the one derived from the session identifier.\<close>

definition session_handle_start :: "env \<Rightarrow> times \<Rightarrow> bytes \<Rightarrow> socket_addr \<Rightarrow> u64 \<Rightarrow> string \<Rightarrow> server_state \<Rightarrow> handled" where
  "session_handle_start E T rnd src request_id client_version s =
     (case validate_client_version E client_version of
        Err _ \<Rightarrow> reply (session_reply [] request_id STATUS_BAD_REQUEST (Some (RespSession resp_session_default))) s
      | Panic \<Rightarrow> Panic
      | Ok version \<Rightarrow>
          (let session = fst (prepare_challenge_response rnd (ev_difficulty E));
               session_id = gen_new_challenge E src (epoch T);
               session = session\<lparr> rs_challenge_req := map_option (\<lambda>c. c\<lparr> cq_challenge := session_challenge E session_id \<rparr>)
                           (rs_challenge_req session) \<rparr> in
           reply (session_reply session_id request_id STATUS_OK (Some (RespSession session))) s))"

definition session_handle :: "env \<Rightarrow> times \<Rightarrow> bytes \<Rightarrow> socket_addr \<Rightarrow> u64 \<Rightarrow> session_id option \<Rightarrow> req_session \<Rightarrow>
    server_state \<Rightarrow> handled" where
  "session_handle E T rnd src request_id session_id req_session s =
     (case session_id of
        Some session_id \<Rightarrow>
          (case qs_challenge_resp req_session of
             Some challenge_resp \<Rightarrow>
               session_handle_response E T src request_id session_id challenge_resp
                 (qs_supported_encryptions req_session) s
           | None \<Rightarrow> no_reply s)
      | None \<Rightarrow> session_handle_start E T rnd src request_id (qs_client_version req_session) s)"

section \<open>Registration\<close>

definition IP_CACHE_AGE :: nat where "IP_CACHE_AGE = 60 * NANOS"

definition register_handle :: "env \<Rightarrow> times \<Rightarrow> socket_addr \<Rightarrow> u64 \<Rightarrow> session_id \<Rightarrow> server_state \<Rightarrow> handled" where
  "register_handle E T src request_id session_id s =
     (case find_session (ev_hash E) session_id (ss_sessions s) of
        None \<Rightarrow> reply (packet_response request_id session_id STATUS_UNAUTHORIZED (RespRegister [])) s
      | Some r \<Rightarrow>
          (let s = touch (clock_at E T) r s in
           case ss_ip_cache s src of
             Some (ts, v) \<Rightarrow>
               if tm_now T - ts < IP_CACHE_AGE then
                 (let s = set_addr_status r (addr_set_valid (tm_now T) v) s;
                      endpoints = option_list (session_endpoint (ev_v6 E) (deref (ss_sessions s) r));
                      s = with_sessions (link_sessions r) s in
                  reply (packet_response request_id session_id STATUS_OK (RespRegister endpoints)) s)
               else no_reply (check_ip_status (tm_now T) r (ResolveRegister request_id) s)
           | None \<Rightarrow> no_reply (check_ip_status (tm_now T) r (ResolveRegister request_id) s)))"

section \<open>Forwarding\<close>

definition own_session :: "env \<Rightarrow> socket_addr \<Rightarrow> session_id \<Rightarrow> server_state \<Rightarrow> sref option" where
  "own_session E src session_id s =
     (case find_session (ev_hash E) session_id (ss_sessions s) of
        Some r \<Rightarrow> if se_peer (deref (ss_sessions s) r) = src then Some r else None
      | None \<Rightarrow> None)"

definition forward_source :: "env \<Rightarrow> times \<Rightarrow> socket_addr \<Rightarrow> session_id \<Rightarrow> server_state \<Rightarrow>
    (u32 option \<times> server_state, server_error) result" where
  "forward_source E T src session_id s =
     (case own_session E src session_id s of
        None \<Rightarrow> Ok (None, s)
      | Some r \<Rightarrow>
          rbind (slot_manager_slot (se_node_id (deref (ss_sessions s) r)) (ss_slots s)) (\<lambda>(src_slot, slots).
          Ok (Some src_slot, touch (clock_at E T) r (s\<lparr> ss_slots := slots \<rparr>))))"

definition node_session_of :: "node_id \<Rightarrow> server_state \<Rightarrow> sref option \<times> server_state" where
  "node_session_of node_id s =
     (let (found, m) = node_session node_id (ss_sessions s) in (found, s\<lparr> ss_sessions := m \<rparr>))"

definition forward_target :: "slot_id \<Rightarrow> server_state \<Rightarrow> (socket_addr \<times> session_id) option \<times> server_state" where
  "forward_target slot s =
     (case slot_manager_node slot (ss_slots s) of
        None \<Rightarrow> (None, s)
      | Some node_id \<Rightarrow>
          (let (found, s) = node_session_of node_id s in
           (map_option (\<lambda>r. let d = deref (ss_sessions s) r in (se_peer d, se_session_id d)) found, s)))"

definition forward_handle :: "env \<Rightarrow> times \<Rightarrow> socket_addr \<Rightarrow> session_id \<Rightarrow> slot_id \<Rightarrow> u16 \<Rightarrow> payload \<Rightarrow> server_state \<Rightarrow> handled" where
  "forward_handle E T src session_id slot flags pl s =
     rbind (forward_source E T src session_id s) (\<lambda>(src_info, s).
      let (dst_info, s) = forward_target slot s in
      case (src_info, dst_info) of
        (Some src_slot, Some (dst_addr, dst_session_id)) \<Rightarrow>
          no_reply (send_to (PKForward \<lparr> fw_session_id = dst_session_id, fw_slot = src_slot, fw_flags = flags,
            fw_payload = pl \<rparr>) dst_addr s)
      | (None, _) \<Rightarrow> reply (packet_control session_id (CtlDisconnected (Some (BySessionId session_id)))) s
      | (Some _, None) \<Rightarrow> reply (packet_control session_id (CtlDisconnected (Some (BySlot slot)))) s)"

section \<open>Queries\<close>

text \<open>The description of a session of a node; the slot table may grow.\<close>

definition node_reply :: "env \<Rightarrow> u64 \<Rightarrow> u64 \<Rightarrow> session_id \<Rightarrow> sref \<Rightarrow> node_id \<Rightarrow> server_state \<Rightarrow> handled" where
  "node_reply E rel_ts request_id session_id r node_id s =
     rbind (to_node_info E rel_ts (deref (ss_sessions s) r) node_id True (ss_slots s)) (\<lambda>(node, slots).
     reply (packet_response request_id session_id STATUS_OK (RespNode node)) (s\<lparr> ss_slots := slots \<rparr>))"

definition slot_handle :: "env \<Rightarrow> times \<Rightarrow> socket_addr \<Rightarrow> u64 \<Rightarrow> session_id \<Rightarrow> slot_id \<Rightarrow> server_state \<Rightarrow> handled" where
  "slot_handle E T src request_id session_id slot s =
     (case own_session E src session_id s of
        None \<Rightarrow> reply (packet_response request_id session_id STATUS_UNAUTHORIZED (RespNode resp_node_default)) s
      | Some r \<Rightarrow>
          (let s = touch (clock_at E T) r s in
           case slot_manager_node slot (ss_slots s) of
             None \<Rightarrow> no_reply s
           | Some node_id \<Rightarrow>
               rbind (state_decoder E T) (\<lambda>rel_ts.
               let (found, s) = node_session_of node_id s in
               case found of
                 Some r' \<Rightarrow> node_reply E rel_ts request_id session_id r' node_id s
               | None \<Rightarrow> reply (packet_response request_id session_id STATUS_NOT_FOUND (RespNode resp_node_default)) s)))"

definition node_handle :: "env \<Rightarrow> times \<Rightarrow> socket_addr \<Rightarrow> u64 \<Rightarrow> session_id \<Rightarrow> bytes \<Rightarrow> server_state \<Rightarrow> handled" where
  "node_handle E T src request_id session_id node s =
     (case own_session E src session_id s of
        None \<Rightarrow> reply (packet_response request_id session_id STATUS_UNAUTHORIZED (RespNode resp_node_default)) s
      | Some r \<Rightarrow>
          (let s = touch (clock_at E T) r s in
           rbind (state_decoder E T) (\<lambda>rel_ts.
           case node_id_of (ev_ext E) node of
             None \<Rightarrow> reply (packet_response request_id session_id STATUS_BAD_REQUEST (RespNode resp_node_default)) s
           | Some node_id \<Rightarrow>
               (let (found, s) = node_session_of node_id s in
                case found of
                  Some r' \<Rightarrow> node_reply E rel_ts request_id session_id r' node_id s
                | None \<Rightarrow> reply (packet_response request_id session_id STATUS_NOT_FOUND (RespNode resp_node_default)) s))))"

fun node_infos :: "env \<Rightarrow> u64 \<Rightarrow> session_manager \<Rightarrow> sref list \<Rightarrow> slot_manager \<Rightarrow>
    (resp_node list \<times> slot_manager, 'e) result" where
  "node_infos E rel_ts m [] slots = Ok ([], slots)"
| "node_infos E rel_ts m (r # rs) slots =
     rbind (to_node_info E rel_ts (deref m r) (se_node_id (deref m r)) False slots) (\<lambda>(node, slots).
     rbind (node_infos E rel_ts m rs slots) (\<lambda>(nodes, slots). Ok (node # nodes, slots)))"

definition neighbours_handle :: "env \<Rightarrow> times \<Rightarrow> socket_addr \<Rightarrow> u64 \<Rightarrow> session_id \<Rightarrow> u32 \<Rightarrow> server_state \<Rightarrow> handled" where
  "neighbours_handle E T src request_id session_id count s =
     rbind (state_decoder E T) (\<lambda>rel_ts.
      case own_session E src session_id s of
        None \<Rightarrow> reply (packet_response request_id session_id STATUS_UNAUTHORIZED (RespNeighbours [])) s
      | Some r \<Rightarrow>
          (let (found, m) = neighbours (se_node_id (deref (ss_sessions s) r)) (unat count) (ss_sessions s) in
           rbind (node_infos E rel_ts m found (ss_slots s)) (\<lambda>(nodes, slots).
           reply (packet_response request_id session_id STATUS_OK (RespNeighbours nodes))
             (s\<lparr> ss_sessions := m, ss_slots := slots \<rparr>))))"

definition rc_handle :: "env \<Rightarrow> times \<Rightarrow> socket_addr \<Rightarrow> u64 \<Rightarrow> session_id \<Rightarrow> bytes \<Rightarrow> server_state \<Rightarrow> handled" where
  "rc_handle E T src request_id session_id node s =
     (case own_session E src session_id s of
        None \<Rightarrow> reply (packet_response request_id session_id STATUS_UNAUTHORIZED RespReverseConnection) s
      | Some r \<Rightarrow>
          (case node_id_of (ev_ext E) node of
             None \<Rightarrow> reply (packet_response request_id session_id STATUS_BAD_REQUEST RespReverseConnection) s
           | Some request_node_id \<Rightarrow>
               (let s = touch (clock_at E T) r s;
                    session = deref (ss_sessions s) r in
                case session_endpoint (ev_v6 E) session of
                  None \<Rightarrow> reply (packet_response request_id session_id STATUS_BAD_REQUEST RespReverseConnection) s
                | Some endpoint \<Rightarrow>
                    (let (found, s) = node_session_of request_node_id s in
                     case found of
                       None \<Rightarrow> reply (packet_response request_id session_id STATUS_NOT_FOUND RespReverseConnection) s
                     | Some r' \<Rightarrow>
                         (let dst = deref (ss_sessions s) r';
                              s = send_to (PKPacket (packet_control (se_session_id dst)
                                    (CtlReverseConnection (se_node_id session) [endpoint]))) (se_peer dst) s in
                          reply (packet_response request_id session_id STATUS_OK RespReverseConnection) s)))))"

definition handle_ping :: "env \<Rightarrow> times \<Rightarrow> socket_addr \<Rightarrow> u64 \<Rightarrow> session_id \<Rightarrow> server_state \<Rightarrow> handled" where
  "handle_ping E T src request_id session_id s =
     (case own_session E src session_id s of
        Some r \<Rightarrow>
          reply (session_reply session_id request_id STATUS_OK (Some RespPong)) (touch (clock_at E T) r s)
      | None \<Rightarrow>
          (let (marked, s) = mark_session E T session_id s in
           if marked then reply (packet_control session_id (CtlDisconnected (Some (BySessionId session_id)))) s
           else no_reply s))"

section \<open>The worker\<close>

datatype unreachable_reason =
    UnreachableNetwork | UnreachableHost | UnreachableProtocol | UnreachablePort | UnreachableOther u8

datatype packet_type = TypeData | TypeUnreachable unreachable_reason | TypeOther

definition decode_reason :: "u8 \<Rightarrow> unreachable_reason" where
  "decode_reason code =
     (if code = 0 then UnreachableNetwork else if code = 1 then UnreachableHost
      else if code = 2 then UnreachableProtocol else if code = 3 then UnreachablePort
      else UnreachableOther code)"

definition UNREACHABLE_AGE :: nat where "UNREACHABLE_AGE = 300 * NANOS"

text \<open>A report that one of the server's own packets did not arrive: the session it was sent to may be removed.\<close>

definition remove_unreachable :: "env \<Rightarrow> times \<Rightarrow> socket_addr \<Rightarrow> session_id \<Rightarrow> server_state \<Rightarrow> server_state" where
  "remove_unreachable E T src session_id s =
     (case own_session E src session_id s of
        Some r \<Rightarrow>
          if addr_age (tm_now T) (se_addr_status (deref (ss_sessions s) r)) > UNREACHABLE_AGE
          then with_sessions (\<lambda>m. snd (remove_session (ev_hash E) session_id m)) s
          else s
      | None \<Rightarrow> s)"

definition handle_unreachable :: "env \<Rightarrow> times \<Rightarrow> socket_addr \<Rightarrow> packet_kind \<Rightarrow> server_state \<Rightarrow> server_state" where
  "handle_unreachable E T src pkt s =
     (case pkt of
        PKForward f \<Rightarrow> remove_unreachable E T src (fw_session_id f) s
      | PKPacket p \<Rightarrow>
          (case pk_kind p of
             Some (KControl (Some (CtlReverseConnection _ _))) \<Rightarrow>
               (case session_id_try_from (pk_session_id p) of
                  Ok session_id \<Rightarrow> remove_unreachable E T src session_id s
                | _ \<Rightarrow> s)
           | _ \<Rightarrow> s)
      | PKForwardCtd _ \<Rightarrow> s)"

definition handle_request :: "env \<Rightarrow> times \<Rightarrow> bytes \<Rightarrow> socket_addr \<Rightarrow> u64 \<Rightarrow> session_id option \<Rightarrow> request_kind \<Rightarrow>
    server_state \<Rightarrow> handled" where
  "handle_request E T rnd src request_id session_id request s =
     (case request of
        ReqSession session \<Rightarrow> session_handle E T rnd src request_id session_id session s
      | _ \<Rightarrow>
          (case session_id of
             None \<Rightarrow> no_reply s
           | Some session_id \<Rightarrow>
               (case request of
                  ReqPing \<Rightarrow> handle_ping E T src request_id session_id s
                | ReqNeighbours count _ \<Rightarrow> neighbours_handle E T src request_id session_id count s
                | ReqNode node _ \<Rightarrow> node_handle E T src request_id session_id node s
                | ReqSlot slot _ \<Rightarrow> slot_handle E T src request_id session_id slot s
                | ReqRegister _ \<Rightarrow> register_handle E T src request_id session_id s
                | ReqReverseConnection node \<Rightarrow> rc_handle E T src request_id session_id node s
                | ReqSession _ \<Rightarrow> no_reply s)))"

definition handle_data :: "env \<Rightarrow> times \<Rightarrow> bytes \<Rightarrow> socket_addr \<Rightarrow> packet_kind \<Rightarrow> server_state \<Rightarrow> handled" where
  "handle_data E T rnd src pkt s =
     (case pkt of
        PKForward f \<Rightarrow> forward_handle E T src (fw_session_id f) (fw_slot f) (fw_flags f) (fw_payload f) s
      | PKPacket p \<Rightarrow>
          (case pk_kind p of
             Some (KRequest req) \<Rightarrow>
               (case rq_kind req of
                  Some request \<Rightarrow>
                    rbind (map_err CoreError (session_id_from_wire (pk_session_id p))) (\<lambda>session_id.
                    handle_request E T rnd src (rq_request_id req) session_id request s)
                | None \<Rightarrow> no_reply s)
           | Some (KControl (Some (CtlDisconnected (Some (BySessionId to_close))))) \<Rightarrow>
               (case session_id_try_from (pk_session_id p) of
                  Ok session_id \<Rightarrow>
                    if session_id = to_close
                    then no_reply (with_sessions (\<lambda>m. snd (remove_session_from (ev_hash E) session_id src m)) s)
                    else no_reply s
                | _ \<Rightarrow> no_reply s)
           | _ \<Rightarrow> no_reply s)
      | PKForwardCtd _ \<Rightarrow> no_reply s)"

definition worker :: "env \<Rightarrow> times \<Rightarrow> bytes \<Rightarrow> packet_type \<Rightarrow> bytes \<Rightarrow> socket_addr \<Rightarrow> server_state \<Rightarrow>
    (server_state, server_error) result" where
  "worker E T rnd pt datagram src s =
     rbind (map_err CodecError (fst (datagram_decode (ev_prost E) datagram))) (\<lambda>p.
     rbind (case pt of
        TypeOther \<Rightarrow> no_reply s
      | TypeUnreachable reason \<Rightarrow> no_reply (handle_unreachable E T src p s)
      | TypeData \<Rightarrow> handle_data E T rnd src p s) (\<lambda>(response, s).
     Ok (case response of None \<Rightarrow> s | Some p \<Rightarrow> send_to (PKPacket p) src s)))"

section \<open>The receiver of address checks\<close>

definition checker_recv :: "env \<Rightarrow> times \<Rightarrow> packet_type \<Rightarrow> bytes \<Rightarrow> socket_addr \<Rightarrow> server_state \<Rightarrow> server_state" where
  "checker_recv E T pt datagram peer s =
     (case packet_decode (ev_prost E) datagram of
        None \<Rightarrow> s
      | Some p \<Rightarrow>
          (case pt of
             TypeData \<Rightarrow>
               (case pk_kind p of
                  Some (KResponse r) \<Rightarrow>
                    if rp_kind r = Some RespPong
                    then (case resolve_success E T peer (pk_session_id p) s of Ok s' \<Rightarrow> s' | _ \<Rightarrow> s)
                    else s
                | _ \<Rightarrow> s)
           | TypeUnreachable _ \<Rightarrow> resolve_unreachable E T peer s
           | TypeOther \<Rightarrow> s))"

section \<open>Commands of the operator\<close>

datatype control_command = DropSession session_id bool | CheckIp session_id | SetMode list_mode

definition control_handle :: "env \<Rightarrow> times \<Rightarrow> control_command \<Rightarrow> server_state \<Rightarrow> server_state" where
  "control_handle E T command s =
     (case command of
        DropSession session_id silent \<Rightarrow>
          (case remove_session (ev_hash E) session_id (ss_sessions s) of
             (Some r, m) \<Rightarrow>
               (let peer = se_peer (deref (ss_sessions s) r); s = s\<lparr> ss_sessions := m \<rparr> in
                if \<not> silent
                then send_to (PKPacket (packet_control session_id (CtlDisconnected (Some (BySessionId session_id))))) peer s
                else s)
           | (None, m) \<Rightarrow> s\<lparr> ss_sessions := m \<rparr>)
      | SetMode list_mode \<Rightarrow> with_sessions (set_mode list_mode) s
      | CheckIp session_id \<Rightarrow>
          (case find_session (ev_hash E) session_id (ss_sessions s) of
             Some r \<Rightarrow> check_ip_status (tm_now T) r ResolveControl s
           | None \<Rightarrow> s\<lparr> ss_control_replies := ss_control_replies s @ [False] \<rparr>))"

end
