(* ===== verification/Persistence.thy ===== *)
theory Persistence
  imports Sessions Slots
begin

text \<open>
  Saving the server's tables and loading them at the next start (\<^verbatim>\<open>save\<close>, \<^verbatim>\<open>load\<close> and \<^verbatim>\<open>load_old\<close> of
  \<^verbatim>\<open>server/src/state/session_manager.rs\<close>, \<^verbatim>\<open>save_state\<close> and the start of \<^verbatim>\<open>run\<close> in \<^verbatim>\<open>server/src/server.rs\<close>). The
  serialisation library is a pair of arguments: the bytes of a record, and the record at the head of a
  byte string with what follows it. Opening and writing files succeeds.
\<close>


section \<open>Records\<close>

record session_data =
  sd_session_id :: session_id
  sd_peer :: socket_addr
  sd_session_key :: "(bytes \<times> (node_id \<rightharpoonup> bytes)) option"
  sd_keys :: "bytes list"
  sd_supported_encryptions :: "string list"
  sd_addr_valid :: bool
  sd_flags :: u64

record session_data_old =
  so_session_id :: session_id
  so_peer :: socket_addr
  so_session_key :: "bytes option"
  so_keys :: "bytes list"
  so_supported_encryptions :: "string list"
  so_addr_valid :: bool
  so_flags :: u64

text \<open>\<^verbatim>\<open>PubKey::decode\<close>: the \<open>unwrap\<close> panics on bytes that are no key.\<close>

definition pub_key_decode :: "ext \<Rightarrow> bytes \<Rightarrow> (identity, string) result" where
  "pub_key_decode X inner =
     (case pk_from_slice X inner of
        None \<Rightarrow> Panic
      | Some public_key \<Rightarrow> Ok \<lparr> id_node_id = pk_address X public_key, id_public_key = public_key \<rparr>)"

text \<open>\<^verbatim>\<open>serde_bytes_array::deserialize\<close>.\<close>

definition bytes_array :: "nat \<Rightarrow> bytes \<Rightarrow> (bytes, string) result" where
  "bytes_array N bs = (if length bs = N then Ok bs else Err ''invalid length'')"

section \<open>Saving\<close>

definition session_data_of :: "session \<Rightarrow> session_data" where
  "session_data_of s = \<lparr> sd_session_id = se_session_id s, sd_peer = se_peer s, sd_session_key = se_session_key s,
     sd_keys = map id_public_key (se_keys s), sd_supported_encryptions = se_supported_encryptions s,
     sd_addr_valid = addr_is_valid (se_addr_status s), sd_flags = 0 \<rparr>"

fun write_all :: "('a \<Rightarrow> (bytes, string) result) \<Rightarrow> 'a list \<Rightarrow> (bytes, string) result" where
  "write_all ser [] = Ok []"
| "write_all ser (d # ds) = rbind (ser d) (\<lambda>b. rbind (write_all ser ds) (\<lambda>bs. Ok (b @ bs)))"

definition manager_save :: "(session_data \<Rightarrow> (bytes, string) result) \<Rightarrow> session_manager \<Rightarrow> (bytes, string) result" where
  "manager_save ser m = write_all ser (map (\<lambda>r. session_data_of (deref m r)) (shard_values (sm_sessions m)))"

section \<open>Loading\<close>

text \<open>Decoding one record; the lengths of the keys are checked while their fields are read.\<close>

definition read_data :: "(bytes \<Rightarrow> (session_data \<times> bytes, string) result) \<Rightarrow> bytes \<Rightarrow> (session_data \<times> bytes, string) result" where
  "read_data de file =
     rbind (de file) (\<lambda>(d, rest).
     rbind (case sd_session_key d of None \<Rightarrow> Ok [] | Some (pk, _) \<Rightarrow> bytes_array 64 pk) (\<lambda>_.
     rbind (collect_results (bytes_array 64) (sd_keys d)) (\<lambda>_. Ok (d, rest))))"

definition read_data_old :: "(bytes \<Rightarrow> (session_data_old \<times> bytes, string) result) \<Rightarrow> bytes \<Rightarrow> (session_data \<times> bytes, string) result" where
  "read_data_old de file =
     rbind (de file) (\<lambda>(d, rest).
     rbind (case so_session_key d of None \<Rightarrow> Ok [] | Some pk \<Rightarrow> bytes_array 64 pk) (\<lambda>_.
     rbind (collect_results (bytes_array 64) (so_keys d)) (\<lambda>_.
     Ok (\<lparr> sd_session_id = so_session_id d, sd_peer = so_peer d, sd_session_key = None, sd_keys = so_keys d,
       sd_supported_encryptions = so_supported_encryptions d, sd_addr_valid = so_addr_valid d, sd_flags = so_flags d \<rparr>, rest))))"

definition load_session :: "ext \<Rightarrow> (session_id \<Rightarrow> u64) \<Rightarrow> nat \<Rightarrow> u32 \<Rightarrow> session_data \<Rightarrow> session_manager \<Rightarrow> (session_manager, string) result" where
  "load_session X H now ts d me =
     rbind (collect_results (pub_key_decode X) (sd_keys d)) (\<lambda>keys.
     rbind (ok_or ''invalid data'' (case keys of [] \<Rightarrow> None | k # _ \<Rightarrow> Some (id_node_id k))) (\<lambda>node_id.
     rbind (case sd_session_key d of
              None \<Rightarrow> Ok None
            | Some (pk, nl) \<Rightarrow> rbind (pub_key_decode X pk) (\<lambda>i. Ok (Some (id_public_key i, nl)))) (\<lambda>session_key.
     let session = \<lparr> se_session_id = sd_session_id d, se_peer = sd_peer d, se_ts = ts, se_node_id = node_id, se_keys = keys,
           se_supported_encryptions = sd_supported_encryptions d, se_addr_status = addr_set_valid now (sd_addr_valid d),
           se_session_key = session_key \<rparr>;
         r = length (sm_heap me) in
     Ok (link_sessions r (insert_session H session me)))))"

text \<open>
  The loop over the file. The times are those read for each session, by its number. \<^term>\<open>None\<close> is a loop that does
  not end within the fuel, one round per byte of the file and one more, which suffices when every record takes a byte.
\<close>

fun load_sessions_loop :: "nat \<Rightarrow> ext \<Rightarrow> (session_id \<Rightarrow> u64) \<Rightarrow> (nat \<Rightarrow> nat) \<Rightarrow> (nat \<Rightarrow> u32) \<Rightarrow>
    (bytes \<Rightarrow> (session_data \<times> bytes, string) result) \<Rightarrow> bytes \<Rightarrow> session_manager \<Rightarrow> (session_manager, string) result option" where
  "load_sessions_loop 0 X H now ts rd file me = None"
| "load_sessions_loop (Suc fuel) X H now ts rd file me =
     (if file = [] then Some (Ok me)
      else
        (case rd file of
           Ok (d, rest) \<Rightarrow>
             (case load_session X H (now (length (sm_heap me))) (ts (length (sm_heap me))) d me of
                Ok me \<Rightarrow> load_sessions_loop fuel X H now ts rd rest me
              | Err e \<Rightarrow> Some (Err e)
              | Panic \<Rightarrow> Some Panic)
         | Err e \<Rightarrow> Some (Err e)
         | Panic \<Rightarrow> Some Panic))"

definition manager_load :: "ext \<Rightarrow> (session_id \<Rightarrow> u64) \<Rightarrow> (nat \<Rightarrow> nat) \<Rightarrow> (nat \<Rightarrow> u32) \<Rightarrow>
    (bytes \<Rightarrow> (session_data \<times> bytes, string) result) \<Rightarrow> bytes \<Rightarrow> (session_manager, string) result option" where
  "manager_load X H now ts de file = load_sessions_loop (Suc (length file)) X H now ts (read_data de) file session_manager_new"

definition manager_load_old :: "ext \<Rightarrow> (session_id \<Rightarrow> u64) \<Rightarrow> (nat \<Rightarrow> nat) \<Rightarrow> (nat \<Rightarrow> u32) \<Rightarrow>
    (bytes \<Rightarrow> (session_data_old \<times> bytes, string) result) \<Rightarrow> bytes \<Rightarrow> (session_manager, string) result option" where
  "manager_load_old X H now ts de file = load_sessions_loop (Suc (length file)) X H now ts (read_data_old de) file session_manager_new"

section \<open>Restarting the server\<close>

text \<open>The files of the state directory; a file that does not exist is \<^term>\<open>None\<close>.\<close>

record state_files =
  sf_slots :: "bytes option"
  sf_sessions :: "bytes option"
  sf_sessions_old :: "bytes option"

definition save_state :: "(session_data \<Rightarrow> (bytes, string) result) \<Rightarrow> slot_manager \<Rightarrow> session_manager \<Rightarrow> state_files \<Rightarrow> (state_files, string) result" where
  "save_state ser slots sessions files =
     (let files = files\<lparr> sf_slots := Some (slot_manager_save slots) \<rparr> in
      rbind (manager_save ser sessions) (\<lambda>f. Ok (files\<lparr> sf_sessions := Some f \<rparr>)))"

text \<open>Where \<^verbatim>\<open>run\<close> gets its tables from; a file that cannot be read is replaced by an empty table.\<close>

definition restore_state :: "node_id \<Rightarrow> (bytes \<Rightarrow> (session_manager, string) result option) \<Rightarrow>
    (bytes \<Rightarrow> (session_manager, string) result option) \<Rightarrow> state_files option \<Rightarrow> (slot_manager \<times> session_manager, string) result option" where
  "restore_state default_id load load_old state_dir =
     (case state_dir of
        None \<Rightarrow> Some (Ok (slot_manager_new default_id, session_manager_new))
      | Some files \<Rightarrow>
          (let slots = (case sf_slots files of
                          None \<Rightarrow> Ok (slot_manager_new default_id)
                        | Some f \<Rightarrow> (case slot_manager_load f of Err e \<Rightarrow> Ok (slot_manager_new default_id) | r \<Rightarrow> map_err (\<lambda>_. []) r));
               sessions = (case sf_sessions files of
                             Some f \<Rightarrow> load f
                           | None \<Rightarrow> (case sf_sessions_old files of Some f \<Rightarrow> load_old f | None \<Rightarrow> Some (Ok session_manager_new))) in
           map_option (\<lambda>r. rbind slots (\<lambda>slots. case r of
               Ok m \<Rightarrow> Ok (slots, m)
             | Err e \<Rightarrow> Ok (slots, session_manager_new)
             | Panic \<Rightarrow> Panic)) sessions))"

section \<open>Restored sessions\<close>

text \<open>
  A restored session is the saved one with a new time stamp; its address is known to be valid or taken to be invalid.
\<close>

definition restored :: "session \<Rightarrow> session \<Rightarrow> bool" where
  "restored s s' \<longleftrightarrow> s' = s\<lparr> se_ts := se_ts s', se_addr_status := se_addr_status s' \<rparr>
     \<and> addr_is_valid (se_addr_status s') = addr_is_valid (se_addr_status s) \<and> \<not> addr_is_pending (se_addr_status s')"

text \<open>The keys of a session are keys of the library, with their addresses as node identifiers, the first one being the session's.\<close>

definition keys_ok :: "ext \<Rightarrow> session \<Rightarrow> bool" where
  "keys_ok X s \<longleftrightarrow> (case se_keys s of [] \<Rightarrow> False | k # _ \<Rightarrow> se_node_id s = id_node_id k)
     \<and> list_all (\<lambda>k. length (id_public_key k) = 64 \<and> pk_from_slice X (id_public_key k) = Some (id_public_key k)
         \<and> pk_address X (id_public_key k) = id_node_id k) (se_keys s)
     \<and> (case se_session_key s of None \<Rightarrow> True | Some (pk, _) \<Rightarrow> length pk = 64 \<and> pk_from_slice X pk = Some pk)"

text \<open>Every session of the table is found under each of its nodes.\<close>

definition linked :: "(session_id \<Rightarrow> u64) \<Rightarrow> session_manager \<Rightarrow> bool" where
  "linked H m \<longleftrightarrow> (\<forall>sid r k. find_session H sid m = Some r \<longrightarrow> k \<in> set (se_keys (deref m r)) \<longrightarrow> r \<in> set (node_refs m (id_node_id k)))"

lemma keys_decode:
  assumes "list_all (\<lambda>k. length (id_public_key k) = 64 \<and> pk_from_slice X (id_public_key k) = Some (id_public_key k)
         \<and> pk_address X (id_public_key k) = id_node_id k) ks"
  shows "collect_results (pub_key_decode X) (map id_public_key ks) = Ok ks"
    and "collect_results (bytes_array 64) (map id_public_key ks) = Ok (map id_public_key ks)"
  using assms by (induction ks) (simp_all add: pub_key_decode_def bytes_array_def)

lemma node_refs_link_key:
  "node_refs (link_key r n m) k =
     (if k = n then (let g = filter (live m) (node_refs m n) in if r \<in> set g then g else g @ [r]) else node_refs m k)"
  by (auto simp: link_key_def node_refs_def update_conv Let_def)

lemma live_link_key [simp]: "live (link_key r n m) = live m"
  by (simp add: live_def fun_eq_iff)

lemma link_keys_refs:
  assumes "live m x" "x \<in> set (node_refs m k) \<or> x = r \<and> k \<in> set ns"
  shows "x \<in> set (node_refs (fold (link_key r) ns m) k)"
  using assms
proof (induction ns arbitrary: m)
  case (Cons n ns)
  then have "x \<in> set (node_refs (link_key r n m) k) \<or> x = r \<and> k \<in> set ns"
    by (auto simp: node_refs_link_key Let_def)
  then show ?case using Cons.IH [of "link_key r n m"] Cons.prems(1) by simp
qed simp

lemma link_sessions_linked:
  assumes "manager_wf H m" "find_session H sid m = Some r"
    "\<And>sid' r' k. find_session H sid' m = Some r' \<Longrightarrow> sid' \<noteq> sid \<Longrightarrow> k \<in> set (se_keys (deref m r')) \<Longrightarrow> r' \<in> set (node_refs m (id_node_id k))"
  shows "linked H (link_sessions r m)"
proof -
  have live: "live m r'" if "find_session H sid' m = Some r'" for sid' r'
    using that manager_wfD(1) [OF assms(1)] by (auto simp: live_def st.vals_get find_session_def)
  note l = link_sessions_wf [OF assms(1) live [OF assms(2)]]
  have "r' \<in> set (node_refs (link_sessions r m) (id_node_id k))"
    if "find_session H sid' m = Some r'" "k \<in> set (se_keys (deref m r'))" for sid' r' k
    unfolding link_sessions_def
    by (rule link_keys_refs [OF live [OF that(1)]]) (use assms that in \<open>cases "sid' = sid", auto\<close>)
  then show ?thesis using l by (simp add: linked_def find_session_def deref_def)
qed

lemma load_session_step:
  assumes "manager_wf H me" "linked H me" "keys_ok X s"
  shows "\<exists>me' s'. load_session X H now ts (session_data_of s) me = Ok me' \<and> manager_wf H me' \<and> linked H me' \<and> restored s s'
    \<and> sm_heap me' = sm_heap me @ [s']
    \<and> (\<forall>sid. find_session H sid me' = (if sid = se_session_id s then Some (length (sm_heap me)) else find_session H sid me))"
proof -
  define s' where "s' = s\<lparr> se_ts := ts, se_addr_status := addr_set_valid now (addr_is_valid (se_addr_status s)) \<rparr>"
  define m1 where "m1 = insert_session H s' me"
  have keys: "collect_results (pub_key_decode X) (map id_public_key (se_keys s)) = Ok (se_keys s)"
    using assms(3) by (simp add: keys_ok_def keys_decode)
  have "load_session X H now ts (session_data_of s) me = Ok (link_sessions (length (sm_heap me)) m1)"
    using assms(3) keys
    by (cases s) (auto simp: load_session_def session_data_of_def keys_ok_def ok_or_def pub_key_decode_def m1_def s'_def Let_def
        split: list.splits option.splits)
  moreover have wf1: "manager_wf H m1" unfolding m1_def by (rule insert_session_wf [OF assms(1)])
  moreover have f: "find_session H sid m1 = (if sid = se_session_id s then Some (length (sm_heap me)) else find_session H sid me)" for sid
    using manager_wfD(1) [OF assms(1)] by (simp add: m1_def s'_def insert_session_def find_session_def)
  moreover have "live m1 (length (sm_heap me))"
    using f [of "se_session_id s"] manager_wfD(1) [OF wf1] by (auto simp: live_def st.vals_get find_session_def)
  note l = link_sessions_wf [OF wf1 this]
  moreover have "linked H (link_sessions (length (sm_heap me)) m1)"
  proof (rule link_sessions_linked [OF wf1, of "se_session_id s"])
    fix sid' r' k
    assume a: "find_session H sid' m1 = Some r'" "sid' \<noteq> se_session_id s" "k \<in> set (se_keys (deref m1 r'))"
    then have r': "find_session H sid' me = Some r'" using f by simp
    then have "deref m1 r' = deref me r'"
      using manager_wfD(2) [OF assms(1)] by (auto simp: find_session_def m1_def insert_session_def deref_def nth_append)
    then show "r' \<in> set (node_refs m1 (id_node_id k))"
      using assms(2) r' a(3) by (simp add: linked_def m1_def insert_session_def node_refs_def)
  qed (simp add: f)
  moreover have "restored s s'" by (simp add: restored_def s'_def addr_set_valid_def)
  ultimately show ?thesis by (auto simp: find_session_def m1_def insert_session_def)
qed

text \<open>A manager read from any file, of either format, is one the operations of the server can start from.\<close>

lemma load_session_reaches:
  assumes "manager_reaches H me" "load_session X H now ts d me = Ok me'"
  shows "manager_reaches H me'"
proof -
  obtain s where me': "me' = link_sessions (length (sm_heap me)) (insert_session H s me)"
    using assms(2) by (auto simp: load_session_def rbind_eq_Ok_iff Let_def)
  have r: "manager_reaches H (insert_session H s me)" by (rule manager_reaches.load [OF assms(1)])
  have "find_session H (se_session_id s) (insert_session H s me) = Some (length (sm_heap me))"
    using manager_wfD(1) [OF manager_reaches_wf [OF assms(1)]] by (simp add: find_session_def insert_session_def)
  then have "live (insert_session H s me) (length (sm_heap me))"
    using manager_wfD(1) [OF manager_reaches_wf [OF r]] by (auto simp: live_def st.vals_get find_session_def)
  then show ?thesis unfolding me' by (rule manager_reaches.link [OF r])
qed

lemma load_loop_reaches:
  "manager_reaches H me \<Longrightarrow> load_sessions_loop fuel X H now ts rd f me = Some (Ok me') \<Longrightarrow> manager_reaches H me'"
proof (induction fuel arbitrary: f me)
  case (Suc fuel)
  then show ?case
    using load_session_reaches [OF Suc.prems(1)] by (auto split: if_splits result.splits) blast
qed simp

lemma manager_load_reaches:
  "manager_load X H now ts de f = Some (Ok m) \<Longrightarrow> manager_reaches H m"
  "manager_load_old X H now ts de_old f = Some (Ok m) \<Longrightarrow> manager_reaches H m"
  unfolding manager_load_def manager_load_old_def by (rule load_loop_reaches [OF manager_reaches.init], assumption)+

section \<open>Properties\<close>

text \<open>What one record is read as when the decoder undoes the encoder on it.\<close>

definition decodes :: "(session_data \<Rightarrow> (bytes, string) result) \<Rightarrow> (bytes \<Rightarrow> (session_data \<times> bytes, string) result) \<Rightarrow> session_data \<Rightarrow> bool" where
  "decodes ser de d \<longleftrightarrow> (\<exists>b. ser d = Ok b \<and> b \<noteq> [] \<and> (\<forall>rest. de (b @ rest) = Ok (d, rest)))"

lemma read_data_Ok:
  assumes "keys_ok X s" "de file = Ok (session_data_of s, rest)"
  shows "read_data de file = Ok (session_data_of s, rest)"
  using assms keys_decode(2) [of X "se_keys s"]
  by (auto simp: read_data_def keys_ok_def session_data_of_def bytes_array_def split: option.splits)

lemma load_sessions_restores:
  assumes "manager_wf H me" "linked H me" "\<forall>s \<in> set ss. keys_ok X s \<and> decodes ser de (session_data_of s)"
    and "set ss \<subseteq> D"
    and "\<forall>sid r. find_session H sid me = Some r \<longrightarrow> (\<exists>s \<in> D. se_session_id s = sid \<and> restored s (deref me r))"
  shows "\<exists>bs me'. write_all ser (map session_data_of ss) = Ok bs
    \<and> (\<forall>fuel > length bs. load_sessions_loop fuel X H now ts (read_data de) bs me = Some (Ok me'))
    \<and> manager_wf H me' \<and> linked H me'
    \<and> (\<forall>s' \<in> set (sm_heap me'). s' \<in> set (sm_heap me) \<or> (\<exists>s \<in> set ss. restored s s'))
    \<and> (\<forall>sid r. find_session H sid me' = Some r \<longrightarrow> (\<exists>s \<in> D. se_session_id s = sid \<and> restored s (deref me' r)))
    \<and> (\<forall>sid. find_session H sid me' = None \<longleftrightarrow> find_session H sid me = None \<and> sid \<notin> se_session_id ` set ss)"
  using assms
proof (induction ss arbitrary: me)
  case Nil
  have "load_sessions_loop fuel X H now ts (read_data de) [] me = Some (Ok me)" if "0 < fuel" for fuel
    using that by (cases fuel) simp_all
  then show ?case using Nil by auto
next
  case (Cons s ss)
  obtain b where b: "ser (session_data_of s) = Ok b" "b \<noteq> []" "\<And>rest. de (b @ rest) = Ok (session_data_of s, rest)"
    using Cons.prems(3) by (auto simp: decodes_def)
  define n where "n = length (sm_heap me)"
  obtain me1 s1 where m1: "load_session X H (now n) (ts n) (session_data_of s) me = Ok me1" "manager_wf H me1" "linked H me1"
      "restored s s1" "sm_heap me1 = sm_heap me @ [s1]"
      "\<And>sid. find_session H sid me1 = (if sid = se_session_id s then Some n else find_session H sid me)"
    using load_session_step [OF Cons.prems(1,2), of X s "now n" "ts n"] Cons.prems(3) by (auto simp: n_def)
  have "\<exists>s' \<in> D. se_session_id s' = sid \<and> restored s' (deref me1 r)" if "find_session H sid me1 = Some r" for sid r
  proof (cases "sid = se_session_id s")
    case True
    then show ?thesis using that m1 Cons.prems(4) by (auto simp: deref_def n_def)
  next
    case False
    then have r: "find_session H sid me = Some r" using that m1(6) by simp
    then have "deref me1 r = deref me r"
      using manager_wfD(2) [OF Cons.prems(1)] m1(5) by (auto simp: find_session_def deref_def nth_append)
    then show ?thesis using Cons.prems(5) r by auto
  qed
  with Cons.IH [OF m1(2,3)] Cons.prems(3,4) obtain bs me' where IH: "write_all ser (map session_data_of ss) = Ok bs"
      "\<And>fuel. length bs < fuel \<Longrightarrow> load_sessions_loop fuel X H now ts (read_data de) bs me1 = Some (Ok me')"
      "manager_wf H me'" "linked H me'" "\<forall>s' \<in> set (sm_heap me'). s' \<in> set (sm_heap me1) \<or> (\<exists>s \<in> set ss. restored s s')"
      "\<And>sid r. find_session H sid me' = Some r \<Longrightarrow> \<exists>s \<in> D. se_session_id s = sid \<and> restored s (deref me' r)"
      "\<And>sid. find_session H sid me' = None \<longleftrightarrow> find_session H sid me1 = None \<and> sid \<notin> se_session_id ` set ss"
    by auto
  have "read_data de (b @ bs) = Ok (session_data_of s, bs)" using read_data_Ok Cons.prems(3) b(3) by auto
  then have "load_sessions_loop fuel X H now ts (read_data de) (b @ bs) me = Some (Ok me')" if "length (b @ bs) < fuel" for fuel
    using that b(2) m1(1) IH(2) by (cases fuel; cases b) (auto simp: n_def)
  then show ?case using IH m1(4,5,6) b(1) by (intro exI [of _ "b @ bs"] exI [of _ me'] conjI) auto
qed

lemma sessions_saved_load:
  assumes "manager_reaches H m"
    and "\<forall>r \<in> set (shard_values (sm_sessions m)). keys_ok X (deref m r) \<and> decodes ser de (session_data_of (deref m r))"
  shows "\<exists>file m'. manager_save ser m = Ok file \<and> manager_load X H now ts de file = Some (Ok m') \<and> linked H m'
    \<and> (\<forall>s' \<in> set (sm_heap m'). \<exists>r. live m r \<and> restored (deref m r) s')
    \<and> (\<forall>sid. rel_option restored (map_option (deref m) (find_session H sid m)) (map_option (deref m') (find_session H sid m')))"
proof -
  note wf = manager_reaches_wf [OF assms(1)]
  define ss where "ss = map (deref m) (shard_values (sm_sessions m))"
  have mem: "s \<in> set ss \<longleftrightarrow> (\<exists>sid r. find_session H sid m = Some r \<and> s = deref m r)" for s
    using st.vals_get [OF manager_wfD(1) [OF wf]] by (simp add: ss_def find_session_def image_iff Bex_def) blast
  have new: "manager_wf H session_manager_new" "linked H session_manager_new" "find_session H sid session_manager_new = None" for sid
    using manager_reaches_wf [OF manager_reaches.init] by (simp_all add: linked_def find_session_def session_manager_new_def)
  obtain f m' where l: "write_all ser (map session_data_of ss) = Ok f"
      "load_sessions_loop (Suc (length f)) X H now ts (read_data de) f session_manager_new = Some (Ok m')" "linked H m'"
      "\<forall>s' \<in> set (sm_heap m'). \<exists>s \<in> set ss. restored s s'"
      "\<And>sid r. find_session H sid m' = Some r \<Longrightarrow> \<exists>s \<in> set ss. se_session_id s = sid \<and> restored s (deref m' r)"
      "\<And>sid. find_session H sid m' = None \<longleftrightarrow> sid \<notin> se_session_id ` set ss"
    using load_sessions_restores [OF new(1,2), of ss X ser de "set ss" now ts] assms(2) new(3) by (auto simp: ss_def session_manager_new_def)
  have id: "se_session_id (deref m r) = sid" if "find_session H sid m = Some r" for sid r
    using manager_wfD(2) [OF wf] that by (auto simp: find_session_def deref_def)
  have "rel_option restored (map_option (deref m) (find_session H sid m)) (map_option (deref m') (find_session H sid m'))" for sid
  proof (cases "find_session H sid m'")
    case None
    then have "find_session H sid m = None" using l(6) [of sid] mem id by (cases "find_session H sid m") force+
    then show ?thesis using None by simp
  next
    case (Some r')
    then obtain s where s: "s \<in> set ss" "se_session_id s = sid" "restored s (deref m' r')" using l(5) by blast
    then obtain sid' r where r: "find_session H sid' m = Some r" "s = deref m r" using mem [of s] by auto
    then have "sid' = sid" using id [OF r(1)] s(2) by simp
    then show ?thesis using r Some s(3) by simp
  qed
  moreover have "\<forall>s' \<in> set (sm_heap m'). \<exists>r. live m r \<and> restored (deref m r) s'"
    using l(4) by (auto simp: ss_def live_def)
  ultimately show ?thesis
    using l(1-3) by (auto simp: manager_save_def manager_load_def ss_def o_def)
qed

text \<open>
  C18: The state survives a restart: when the serialisation library reads back what it wrote for the saved
  sessions, the files load without error or panic, and every session is found again under its identifier and under
  each of its nodes, unchanged except for its time stamp; an address that was confirmed stays confirmed and any other
  counts as not reachable, so none is left pending; no session appears that was not saved. The slot table comes back as it
  was when it has at most 409 slots; a larger one is refused by its reader and replaced by an empty one.
\<close>

theorem restart_restores:
  assumes "manager_reaches H m" "slots_wf sl" "\<forall>s \<in> set (sl_slots sl). length s = 20"
    and "\<forall>r \<in> set (shard_values (sm_sessions m)). keys_ok X (deref m r) \<and> decodes ser de (session_data_of (deref m r))"
  shows "\<exists>files' m'. save_state ser sl m files = Ok files'
    \<and> restore_state default_id (manager_load X H now ts de) load_old (Some files') =
        Some (Ok (if length (sl_slots sl) \<le> 409 then sl else slot_manager_new default_id, m'))
    \<and> linked H m'
    \<and> (\<forall>sid. rel_option restored (map_option (deref m) (find_session H sid m)) (map_option (deref m') (find_session H sid m')))"
proof -
  obtain f m' where f: "manager_save ser m = Ok f" "manager_load X H now ts de f = Some (Ok m')" "linked H m'"
      "\<forall>sid. rel_option restored (map_option (deref m) (find_session H sid m)) (map_option (deref m') (find_session H sid m'))"
    using sessions_saved_load [OF assms(1,4), of now ts] by auto
  show ?thesis
    by (intro exI [of _ "files\<lparr> sf_slots := Some (slot_manager_save sl), sf_sessions := Some f \<rparr>"] exI [of _ m'])
      (use f slots_save_load [OF assms(2,3)] in \<open>simp add: save_state_def restore_state_def Let_def\<close>)
qed

definition sample_saved :: session_manager where
  "sample_saved = snd (new_session (\<lambda>_. 0) sample_clock [1] sample_addr [7] [\<lparr> id_node_id = [7], id_public_key = replicate 64 7 \<rparr>] [] None
     session_manager_new)"

theorem restart_restores_witness:
  "\<exists>X ser de files' m'. save_state ser (slot_manager_new (replicate 20 0)) sample_saved
      \<lparr> sf_slots = None, sf_sessions = None, sf_sessions_old = None \<rparr> = Ok files'
    \<and> restore_state [] (manager_load X (\<lambda>_. 0) id (\<lambda>_. 0) de) (\<lambda>_. None) (Some files') =
        Some (Ok (slot_manager_new (replicate 20 0), m'))
    \<and> find_session (\<lambda>_. 0) [1] m' \<noteq> None"
proof -
  define X :: ext where "X = \<lparr> sha256 = id, ec_recover = (\<lambda>_ _ _ _. None), pk_from_slice = Some, pk_address = (\<lambda>_. [7]), node_id_of = Some \<rparr>"
  define d where "d = session_data_of (deref sample_saved 0)"
  define ser :: "session_data \<Rightarrow> (bytes, string) result" where "ser = (\<lambda>_. Ok [1])"
  define de :: "bytes \<Rightarrow> (session_data \<times> bytes, string) result" where "de = (\<lambda>file. Ok (d, tl file))"
  have r: "manager_reaches (\<lambda>_. 0) sample_saved" unfolding sample_saved_def by (rule manager_reaches.new [OF manager_reaches.init])
  have v: "shard_values (sm_sessions sample_saved) = [0]" "find_session (\<lambda>_. 0) [1] sample_saved = Some 0"
    by (simp_all add: sample_saved_def new_session_def session_manager_new_def shards_new_def shard_values_def shard_insert_def
        shard_get_def session_slot_def find_session_def numeral_eq_Suc Let_def)
  have "keys_ok X (deref sample_saved 0)"
    by (simp add: keys_ok_def X_def sample_saved_def new_session_def session_manager_new_def deref_def Let_def)
  moreover have "decodes ser de (session_data_of (deref sample_saved 0))" by (simp add: decodes_def ser_def de_def d_def)
  ultimately obtain files' m' where f: "save_state ser (slot_manager_new (replicate 20 0)) sample_saved
        \<lparr> sf_slots = None, sf_sessions = None, sf_sessions_old = None \<rparr> = Ok files'"
      "restore_state [] (manager_load X (\<lambda>_. 0) id (\<lambda>_. 0) de) (\<lambda>_. None) (Some files') = Some (Ok (slot_manager_new (replicate 20 0), m'))"
      "\<forall>sid. rel_option restored (map_option (deref sample_saved) (find_session (\<lambda>_. 0) sid sample_saved))
        (map_option (deref m') (find_session (\<lambda>_. 0) sid m'))"
    using restart_restores [OF r slots_wf_new, of "replicate 20 0" X ser de
        "\<lparr> sf_slots = None, sf_sessions = None, sf_sessions_old = None \<rparr>" "[]" id "\<lambda>_. 0" "\<lambda>_. None"] v
    by (auto simp: slot_manager_new_def)
  have "find_session (\<lambda>_. 0) [1] m' \<noteq> None"
    using spec [OF f(3), of "[1]"] v by (cases "find_session (\<lambda>_. 0) [1] m'") auto
  then show ?thesis using f(1,2) by blast
qed

end
