(* ===== verification/Server_Spec.thy ===== *)
theory Server_Spec
  imports Handlers Persistence
begin

text \<open>
  What the server guarantees over all its executions: datagrams handled by any of its workers, address checks, timers,
  operator commands and restarts from the saved state, in any order. Every session is tied to the address it
  was created for and to the identities that answered its challenge.
\<close>

section \<open>Executions\<close>

text \<open>The state of a server that starts with the given tables.\<close>

definition server_start :: "slot_manager \<Rightarrow> session_manager \<Rightarrow> list_mode \<Rightarrow> nat \<Rightarrow> server_state" where
  "server_start slots sessions list_mode retry_cnt = \<lparr> ss_sessions = set_mode list_mode sessions, ss_slots = slots,
     ss_ip_cache = Map.empty, ss_disconnect = Map.empty, ss_queue = [], ss_requests = [],
     ss_retry_cnt = retry_cnt, ss_next_request_id = 0, ss_sent = [], ss_control_replies = [] \<rparr>"

definition server_new :: "node_id \<Rightarrow> list_mode \<Rightarrow> nat \<Rightarrow> server_state" where
  "server_new default_id list_mode retry_cnt = server_start (slot_manager_new default_id) session_manager_new list_mode retry_cnt"

text \<open>
  What a restart relies on: the serialisation library reads back what it wrote for the saved sessions, the keys in them are keys of
  the signature library, and node identifiers have 20 bytes.
\<close>

definition saved_readable :: "ext \<Rightarrow> (session_data \<Rightarrow> (bytes, string) result) \<Rightarrow>
    (bytes \<Rightarrow> (session_data \<times> bytes, string) result) \<Rightarrow> server_state \<Rightarrow> bool" where
  "saved_readable X ser de s \<longleftrightarrow>
     (\<forall>r \<in> set (shard_values (sm_sessions (ss_sessions s))).
        keys_ok X (deref (ss_sessions s) r) \<and> decodes ser de (session_data_of (deref (ss_sessions s) r)))
   \<and> (\<forall>n \<in> set (sl_slots (ss_slots s)). length n = 20)"

text \<open>
  The states a server can reach, over all its runs. \<open>W\<close> holds the salt and the difficulty of every session handler that
  has been at work, one per worker and run; the environment is that of the current run. A datagram is handled
  by one of the workers. Another worker brings its own cache and pending checks, of which nothing is assumed. A server
  that is started again loads the files saved by the last run, possibly with another configuration.
\<close>

inductive server_reaches :: "(bytes \<times> u64) set \<Rightarrow> env \<Rightarrow> server_state \<Rightarrow> bool" for W where
  start: "server_reaches W E (server_new default_id list_mode retry_cnt)"
| datagram: "server_reaches W E s \<Longrightarrow> H = session_handler_new E salt \<Longrightarrow> (ev_salt H, ev_difficulty H) \<in> W \<Longrightarrow>
    worker H T rnd pt bs src s = Ok s' \<Longrightarrow> server_reaches W E s'"
| other_worker: "server_reaches W E s \<Longrightarrow>
    server_reaches W E (s\<lparr> ss_disconnect := disconnect, ss_queue := queue, ss_requests := requests \<rparr>)"
| check_received: "server_reaches W E s \<Longrightarrow> server_reaches W E (checker_recv E T pt bs peer s)"
| check_queued: "server_reaches W E s \<Longrightarrow> server_reaches W E (ping_job s)"
| check_retry: "server_reaches W E s \<Longrightarrow> server_reaches W E (send_pings E T timeout s)"
| clean: "server_reaches W E s \<Longrightarrow> server_reaches W E (with_sessions (cleanup purge (clock_at E T)) s)"
| command: "server_reaches W E s \<Longrightarrow> server_reaches W E (control_handle E T c s)"
| restart: "server_reaches W E s \<Longrightarrow> saved_readable (ev_ext E) ser de s \<Longrightarrow>
    save_state ser (ss_slots s) (ss_sessions s) files = Ok files' \<Longrightarrow>
    restore_state default_id (manager_load (ev_ext E) (ev_hash E) now ts de) load_old (Some files') = Some (Ok (slots, sessions)) \<Longrightarrow>
    server_reaches W (E\<lparr> ev_difficulty := difficulty, ev_config_salt := config_salt, ev_min_version := min_version,
        ev_server_start := started \<rparr>) (server_start slots sessions list_mode retry_cnt)"

section \<open>The invariant\<close>

text \<open>
  A session is bound: for one of the session handlers, its identifier was derived from its peer's address, and its
  identities and session key were recovered from a valid answer to the challenge derived from that identifier.
\<close>

definition session_bound :: "(bytes \<times> u64) set \<Rightarrow> env \<Rightarrow> session \<Rightarrow> bool" where
  "session_bound W E se \<longleftrightarrow> (\<exists>(salt, difficulty) \<in> W. let H = E\<lparr> ev_salt := salt, ev_difficulty := difficulty \<rparr> in
     (\<exists>ep. se_session_id se = gen_new_challenge H (se_peer se) ep)
   \<and> (\<exists>cr. recovered (ev_ext E) (ev_digest E) (session_challenge H (se_session_id se)) difficulty cr None
        (se_node_id se) (se_keys se) (se_session_key se)))"

text \<open>The slot table has as many nodes as slots, and is consistent as long as its numbers fit into 32 bits.\<close>

definition slots_ok :: "slot_manager \<Rightarrow> bool" where
  "slots_ok m \<longleftrightarrow> slots_counted m \<and> (length (sl_slots m) \<le> 2 ^ 32 \<longrightarrow> slots_wf m)"

definition server_ok :: "(bytes \<times> u64) set \<Rightarrow> env \<Rightarrow> server_state \<Rightarrow> bool" where
  "server_ok W E s \<longleftrightarrow> manager_reaches (ev_hash E) (ss_sessions s) \<and> slots_ok (ss_slots s)
     \<and> (\<forall>se \<in> set (sm_heap (ss_sessions s)). session_bound W E se)"

lemma session_bound_simps [simp]:
  "session_bound W E (se_ts_update f se) = session_bound W E se"
  "session_bound W E (se_addr_status_update g se) = session_bound W E se"
  by (simp_all add: session_bound_def)

lemma session_bound_env [simp]:
  "session_bound W (E\<lparr> ev_salt := salt \<rparr>) = session_bound W E"
  "session_bound W (E\<lparr> ev_difficulty := d, ev_config_salt := cs, ev_min_version := v, ev_server_start := t \<rparr>) = session_bound W E"
  by (simp_all add: session_bound_def fun_eq_iff gen_new_challenge_def session_challenge_def Let_def)

lemma restored_bound: "restored s s' \<Longrightarrow> session_bound W E s' = session_bound W E s"
  unfolding restored_def using session_bound_simps by metis

lemma slots_ok_slot:
  assumes "slots_ok m" "slot_manager_slot n m = (Ok (sl, m') :: (u32 \<times> slot_manager, 'e) result)"
  shows "slots_ok m'"
proof (cases "map_of (sl_nodes m) n")
  case None
  then have "length (sl_slots m') = Suc (length (sl_slots m))"
    using assms slot_new [of m n, where ?'a = 'e] by (auto simp: slots_ok_def)
  then show ?thesis
    using assms slots_wf_slot [of m n sl m'] slot_counted [of m n, where ?'a = 'e] by (auto simp: slots_ok_def)
qed (use assms slot_known [of m n, where ?'a = 'e] in auto)

lemma server_ok_cong:
  "ss_sessions s' = ss_sessions s \<Longrightarrow> ss_slots s' = ss_slots s \<Longrightarrow> server_ok W E s' = server_ok W E s"
  by (simp add: server_ok_def)

lemma server_ok_fields [simp]:
  "server_ok W E (send_to p a s) = server_ok W E s"
  "server_ok W E (s\<lparr> ss_ip_cache := c \<rparr>) = server_ok W E s"
  "server_ok W E (s\<lparr> ss_disconnect := d \<rparr>) = server_ok W E s"
  "server_ok W E (s\<lparr> ss_queue := q \<rparr>) = server_ok W E s"
  "server_ok W E (s\<lparr> ss_requests := rq \<rparr>) = server_ok W E s"
  "server_ok W E (s\<lparr> ss_next_request_id := i \<rparr>) = server_ok W E s"
  "server_ok W E (s\<lparr> ss_control_replies := cr \<rparr>) = server_ok W E s"
  by (simp_all add: server_ok_def send_to_def)

lemma server_ok_slots: "server_ok W E s \<Longrightarrow> slots_ok sl \<Longrightarrow> server_ok W E (s\<lparr> ss_slots := sl \<rparr>)"
  by (simp add: server_ok_def)

lemma server_ok_slots_ok: "server_ok W E s \<Longrightarrow> slots_ok (ss_slots s)"
  by (simp add: server_ok_def)

lemma slots_ok_to_node_info:
  "to_node_info E rel se n pk sl = Ok (info, sl') \<Longrightarrow> slots_ok sl \<Longrightarrow> slots_ok sl'"
  by (auto simp: to_node_info_def Let_def rbind_eq_Ok_iff case_prod_unfold dest: slots_ok_slot split: prod.splits)

lemma slots_ok_node_infos:
  "node_infos E rel m rs sl = Ok (infos, sl') \<Longrightarrow> slots_ok sl \<Longrightarrow> slots_ok sl'"
  by (induction rs arbitrary: sl infos) (auto simp: rbind_eq_Ok_iff dest: slots_ok_to_node_info split: prod.splits)

lemma server_ok_manager:
  assumes "server_ok W E s" "manager_reaches (ev_hash E) m" "set (sm_heap m) \<subseteq> set (sm_heap (ss_sessions s))"
  shows "server_ok W E (s\<lparr> ss_sessions := m \<rparr>)"
  using assms by (auto simp: server_ok_def)

lemma server_ok_reaches: "server_ok W E s \<Longrightarrow> manager_reaches (ev_hash E) (ss_sessions s)"
  by (simp add: server_ok_def)

lemma update_session_bound:
  assumes "\<forall>se \<in> set (sm_heap m). session_bound W E se" "\<And>se. session_bound W E (f se) = session_bound W E se"
  shows "\<forall>se \<in> set (sm_heap (update_session r f m)). session_bound W E se"
proof (cases "r < length (sm_heap m)")
  case True
  then show ?thesis
    using assms set_update_subset_insert [of "sm_heap m" r] by (fastforce simp: update_session_def)
next
  case False
  then show ?thesis using assms(1) by (simp add: update_session_def list_update_beyond)
qed

lemma server_ok_touch [simp]: "server_ok W E s \<Longrightarrow> server_ok W E (touch c r s)"
  using manager_reaches.touch [of "ev_hash E" "ss_sessions s" r "ck_ts c"]
    update_session_bound [of "ss_sessions s" W E "se_ts_update (\<lambda>_. ck_ts c)" r]
  by (auto simp: server_ok_def touch_def with_sessions_def)

lemma server_ok_addr [simp]: "server_ok W E s \<Longrightarrow> server_ok W E (set_addr_status r st s)"
  using manager_reaches.addr [of "ev_hash E" "ss_sessions s" r st]
    update_session_bound [of "ss_sessions s" W E "se_addr_status_update (\<lambda>_. st)" r]
  by (auto simp: server_ok_def set_addr_status_def with_sessions_def)

lemma server_ok_link:
  assumes "server_ok W E s" "live (ss_sessions s) r"
  shows "server_ok W E (with_sessions (link_sessions r) s)"
proof -
  have "manager_wf (ev_hash E) (ss_sessions s)" using assms(1) by (simp add: server_ok_def manager_reaches_wf)
  then have "sm_heap (link_sessions r (ss_sessions s)) = sm_heap (ss_sessions s)"
    using link_sessions_wf assms(2) by blast
  moreover have "manager_reaches (ev_hash E) (link_sessions r (ss_sessions s))"
    using assms by (simp add: server_ok_def manager_reaches.link)
  ultimately show ?thesis using assms(1) by (simp add: server_ok_def with_sessions_def)
qed

lemma node_session_heap [simp]:
  "sm_heap (snd (node_session n m)) = sm_heap m" "sm_sessions (snd (node_session n m)) = sm_sessions m"
  "sm_held (snd (node_session n m)) = sm_held m" "sm_mode (snd (node_session n m)) = sm_mode m"
  by (simp_all add: node_session_def Let_def split: option.splits)

lemma node_session_of_eq:
  "node_session_of n s = (fst (node_session n (ss_sessions s)), s\<lparr> ss_sessions := snd (node_session n (ss_sessions s)) \<rparr>)"
  by (simp add: node_session_of_def split: prod.splits)

lemma server_ok_node_session:
  assumes "server_ok W E s" "node_session_of n s = (found, s')"
  shows "server_ok W E s'"
proof -
  have "server_ok W E (s\<lparr> ss_sessions := snd (node_session n (ss_sessions s)) \<rparr>)"
    using assms(1) by (intro server_ok_manager manager_reaches.lookup server_ok_reaches) simp_all
  then show ?thesis using assms(2) by (auto simp: node_session_of_eq)
qed

lemma server_ok_remove: "server_ok W E s \<Longrightarrow> server_ok W E (with_sessions (\<lambda>m. snd (remove_session (ev_hash E) sid m)) s)"
  using manager_reaches.remove [of "ev_hash E" "ss_sessions s" sid]
  by (simp add: server_ok_def with_sessions_def remove_session_def)

lemma server_ok_remove_from:
  "server_ok W E s \<Longrightarrow> server_ok W E (with_sessions (\<lambda>m. snd (remove_session_from (ev_hash E) sid peer m)) s)"
  using manager_reaches.remove_from [of "ev_hash E" "ss_sessions s" sid peer]
  by (auto simp: server_ok_def with_sessions_def remove_session_from_def split: option.splits)

lemma server_ok_cleanup: "server_ok W E s \<Longrightarrow> server_ok W E (with_sessions (cleanup purge c) s)"
  using manager_reaches.clean [of "ev_hash E" "ss_sessions s" purge c]
  by (simp add: server_ok_def with_sessions_def cleanup_def clean_node_sessions_def Let_def)

lemma server_ok_mode: "server_ok W E s \<Longrightarrow> server_ok W E (with_sessions (set_mode md) s)"
  using manager_reaches.mode_set [of "ev_hash E" "ss_sessions s" md]
  by (simp add: server_ok_def with_sessions_def set_mode_def)

lemma found_live:
  assumes "server_ok W E s" "find_session (ev_hash E) sid (ss_sessions s) = Some r"
  shows "live (ss_sessions s) r"
  using assms manager_wfD(1) [OF manager_reaches_wf [OF server_ok_reaches [OF assms(1)]]]
  by (auto simp: live_def find_session_def st.vals_get)

lemma live_updates [simp]:
  "live (update_session r f m) = live m"
  "live (ss_sessions (touch c r s)) = live (ss_sessions s)"
  "live (ss_sessions (set_addr_status r st s)) = live (ss_sessions s)"
  "live (ss_sessions (send_to p a s)) = live (ss_sessions s)"
  by (simp_all add: live_def fun_eq_iff update_session_def touch_def set_addr_status_def with_sessions_def send_to_def)

lemma server_ok_new:
  assumes "server_ok W E s" "new_session (ev_hash E) c sid peer nid keys encs key (ss_sessions s) = (res, m)"
    and "(ev_salt E, ev_difficulty E) \<in> W" "sid = gen_new_challenge E peer ep"
    and "recovered (ev_ext E) (ev_digest E) (session_challenge E sid) (ev_difficulty E) cr None nid keys key"
  shows "server_ok W E (s\<lparr> ss_sessions := m \<rparr>)"
proof -
  have "manager_reaches (ev_hash E) m"
    using manager_reaches.new [OF server_ok_reaches [OF assms(1)], of c sid peer nid keys encs key] assms(2) by simp
  moreover have "\<forall>se \<in> set (sm_heap m). session_bound W E se"
  proof -
    have "session_bound W E \<lparr> se_session_id = sid, se_peer = peer, se_ts = ts, se_node_id = nid, se_keys = keys,
        se_supported_encryptions = encs, se_addr_status = st, se_session_key = key \<rparr>" for ts st
      using assms(4,5) by (auto simp: session_bound_def intro!: bexI [OF _ assms(3)])
    then show ?thesis
      using assms(1,2) by (auto simp: new_session_def server_ok_def Let_def split: option.splits)
  qed
  ultimately show ?thesis using assms(1) by (simp add: server_ok_def)
qed

section \<open>Handlers keep the invariant\<close>

definition keeps :: "(bytes \<times> u64) set \<Rightarrow> env \<Rightarrow> handled \<Rightarrow> bool" where
  "keeps W E h \<longleftrightarrow> (\<forall>p s. h = Ok (p, s) \<longrightarrow> server_ok W E s)"

lemma keeps_intros [intro]:
  "server_ok W E s \<Longrightarrow> keeps W E (reply p s)"
  "server_ok W E s \<Longrightarrow> keeps W E (no_reply s)"
  "keeps W E Panic" "keeps W E (Err e)"
  "(\<And>x. m = Ok x \<Longrightarrow> keeps W E (f x)) \<Longrightarrow> keeps W E (rbind m f)"
  by (auto simp: keeps_def reply_def no_reply_def rbind_eq_Ok_iff)

lemma check_session_id_True:
  "check_session_id E T sid addr = Ok True \<Longrightarrow> \<exists>ep. sid = gen_new_challenge E addr ep"
proof -
  have "check_epochs E sid addr ep ns = Ok True \<Longrightarrow> \<exists>e. sid = gen_new_challenge E addr e" for ep ns
    by (induction ns) (auto simp: rbind_eq_Ok_iff split: if_splits)
  then show "check_session_id E T sid addr = Ok True \<Longrightarrow> \<exists>ep. sid = gen_new_challenge E addr ep"
    unfolding check_session_id_def by blast
qed

lemma keeps_session_response:
  assumes "server_ok W E s" "(ev_salt E, ev_difficulty E) \<in> W"
  shows "keeps W E (session_handle_response E T src rid sid cr encs s)"
proof (cases "recover_identities_with_proof (ev_ext E) (ev_digest E) (session_challenge E sid) (ev_difficulty E) (Some cr) None")
  case (Ok res)
  obtain nid keys key where res: "res = (nid, keys, key)" by (cases res)
  have rec: "recovered (ev_ext E) (ev_digest E) (session_challenge E sid) (ev_difficulty E) cr None nid keys key"
    using recover_identities_Ok Ok res by fastforce
  obtain nres m where n: "new_session (ev_hash E) (clock_at E T) sid src nid keys encs key (ss_sessions s) = (nres, m)"
    by fastforce
  have ok: "server_ok W E (s\<lparr> ss_sessions := m \<rparr>)" if "check_session_id E T sid src = Ok True"
    using check_session_id_True [OF that] server_ok_new [OF assms(1) n assms(2) _ rec] by blast
  show ?thesis
    using assms Ok res n ok
    by (cases nres) (auto simp: session_handle_response_def Let_def intro!: keeps_intros split: result.splits)
qed (use assms in \<open>auto simp: session_handle_response_def Let_def\<close>)

lemma keeps_session:
  assumes "server_ok W E s" "(ev_salt E, ev_difficulty E) \<in> W"
  shows "keeps W E (session_handle E T rnd src rid sid req s)"
  using assms keeps_session_response [OF assms]
  by (auto simp: session_handle_def session_handle_start_def Let_def split: option.splits result.splits)

lemma keeps_register:
  assumes "server_ok W E s"
  shows "keeps W E (register_handle E T src rid sid s)"
proof (cases "find_session (ev_hash E) sid (ss_sessions s)")
  case (Some r)
  then have "live (ss_sessions s) r" using found_live [OF assms] by blast
  then have "server_ok W E (with_sessions (link_sessions r) (set_addr_status r st (touch c r s)))" for st c
    using assms by (intro server_ok_link) simp_all
  then show ?thesis
    using Some assms by (auto simp: register_handle_def Let_def check_ip_status_def split: option.splits)
qed (use assms in \<open>auto simp: register_handle_def\<close>)

lemma server_ok_forward_source:
  "server_ok W E s \<Longrightarrow> forward_source E T src sid s = Ok (x, s') \<Longrightarrow> server_ok W E s'"
  by (auto simp: forward_source_def rbind_eq_Ok_iff dest: slots_ok_slot [OF server_ok_slots_ok] split: option.splits
      intro!: server_ok_touch server_ok_slots)

lemma server_ok_forward_target: "server_ok W E s \<Longrightarrow> forward_target slot s = (x, s') \<Longrightarrow> server_ok W E s'"
  by (auto simp: forward_target_def Let_def split: option.splits prod.splits dest: server_ok_node_session)

lemma keeps_forward:
  assumes "server_ok W E s"
  shows "keeps W E (forward_handle E T src sid slot flags pl s)"
proof -
  have "keeps W E (let (dst_info, s) = forward_target slot s1 in
      case (si, dst_info) of
        (Some src_slot, Some (dst_addr, dst_session_id)) \<Rightarrow>
          no_reply (send_to (PKForward \<lparr> fw_session_id = dst_session_id, fw_slot = src_slot, fw_flags = flags,
            fw_payload = pl \<rparr>) dst_addr s)
      | (None, _) \<Rightarrow> reply (packet_control sid (CtlDisconnected (Some (BySessionId sid)))) s
      | (Some _, None) \<Rightarrow> reply (packet_control sid (CtlDisconnected (Some (BySlot slot)))) s)"
    if 1: "forward_source E T src sid s = Ok (si, s1)" for si s1
  proof -
    obtain di s2 where 2: "forward_target slot s1 = (di, s2)" by fastforce
    have "server_ok W E s2" using server_ok_forward_target [OF server_ok_forward_source [OF assms 1] 2] .
    then show ?thesis by (cases si; cases di) (auto simp: 2)
  qed
  then show ?thesis unfolding forward_handle_def by (intro keeps_intros) (auto split: prod.splits)
qed

lemma keeps_node_reply: "server_ok W E s \<Longrightarrow> keeps W E (node_reply E rel rid sid r n s)"
  by (auto simp: node_reply_def server_ok_slots_ok split: prod.splits intro!: keeps_intros server_ok_slots dest: slots_ok_to_node_info)

lemma keeps_lookup_node:
  assumes "server_ok W E s"
  shows "keeps W E (let (found, s) = node_session_of n s in
    case found of Some r' \<Rightarrow> node_reply E rel rid sid r' n s | None \<Rightarrow> reply p s)"
  using assms keeps_node_reply server_ok_node_session [OF assms]
  by (auto split: prod.splits option.splits)

lemma keeps_slot: "server_ok W E s \<Longrightarrow> keeps W E (slot_handle E T src rid sid slot s)"
  using keeps_lookup_node [of W E "touch (clock_at E T) _ s"]
  by (auto simp: slot_handle_def Let_def split: option.splits intro!: keeps_intros)

lemma keeps_node: "server_ok W E s \<Longrightarrow> keeps W E (node_handle E T src rid sid node s)"
  using keeps_lookup_node [of W E "touch (clock_at E T) _ s"]
  by (auto simp: node_handle_def Let_def split: option.splits intro!: keeps_intros)

lemma neighbours_state: "snd (neighbours n c m) = (if sm_mode m = 1 then snd (node_session n m) else m)"
  by (auto simp: neighbours_def Let_def split: prod.splits option.splits if_splits)

lemma keeps_neighbours: "server_ok W E s \<Longrightarrow> keeps W E (neighbours_handle E T src rid sid count s)"
proof -
  assume ok: "server_ok W E s"
  have "server_ok W E (s\<lparr> ss_sessions := snd (neighbours n c (ss_sessions s)) \<rparr>)" for n c
    unfolding neighbours_state using ok
    by (auto intro!: server_ok_manager manager_reaches.lookup server_ok_reaches)
  then have "server_ok W E (s\<lparr> ss_sessions := m, ss_slots := sl \<rparr>)"
    if "neighbours n c (ss_sessions s) = (x, m)" "slots_ok sl" for n c x m sl
    using that by (metis server_ok_slots snd_conv)
  then show ?thesis
    using ok slots_ok_node_infos server_ok_slots_ok [OF ok]
    by (fastforce simp: neighbours_handle_def split: option.splits prod.splits intro!: keeps_intros)
qed

lemma keeps_rc:
  assumes ok: "server_ok W E s"
  shows "keeps W E (rc_handle E T src rid sid node s)"
proof -
  have "server_ok W E (snd (node_session_of n (touch c r s)))" for n c r
    using server_ok_node_session [of W E "touch c r s" n] ok by (cases "node_session_of n (touch c r s)") simp
  then show ?thesis
    using ok by (auto simp: rc_handle_def Let_def case_prod_unfold split: option.splits intro!: keeps_intros)
qed

lemma keeps_ping: "server_ok W E s \<Longrightarrow> keeps W E (handle_ping E T src rid sid s)"
  by (auto simp: handle_ping_def mark_session_def Let_def split: option.splits prod.splits if_splits intro!: keeps_intros)

lemmas keeps_handlers = keeps_session keeps_register keeps_forward keeps_slot keeps_node keeps_neighbours keeps_rc keeps_ping

lemma keeps_request: "server_ok W E s \<Longrightarrow> (ev_salt E, ev_difficulty E) \<in> W \<Longrightarrow> keeps W E (handle_request E T rnd src rid sid req s)"
  by (auto simp: handle_request_def keeps_handlers split: request_kind.splits option.splits)

lemma keeps_data: "server_ok W E s \<Longrightarrow> (ev_salt E, ev_difficulty E) \<in> W \<Longrightarrow> keeps W E (handle_data E T rnd src pkt s)"
  by (auto simp: handle_data_def keeps_forward keeps_request server_ok_remove_from split: packet_kind.splits option.splits
      packet_body.splits control_kind.splits disconnected_by.splits result.splits intro!: keeps_intros)

lemma server_ok_unreachable: "server_ok W E s \<Longrightarrow> server_ok W E (handle_unreachable E T src pkt s)"
  by (auto simp: handle_unreachable_def remove_unreachable_def server_ok_remove
      split: packet_kind.splits option.splits packet_body.splits control_kind.splits result.splits)

lemma server_ok_worker:
  assumes "server_ok W E s" "(ev_salt E, ev_difficulty E) \<in> W" "worker E T rnd pt bs src s = Ok s'"
  shows "server_ok W E s'"
proof -
  have "keeps W E (case pt of TypeOther \<Rightarrow> no_reply s | TypeUnreachable reason \<Rightarrow> no_reply (handle_unreachable E T src p s)
      | TypeData \<Rightarrow> handle_data E T rnd src p s)" for p
    using assms(1,2) by (cases pt) (auto simp: keeps_data server_ok_unreachable)
  then show ?thesis
    using assms(3) by (auto simp: worker_def rbind_eq_Ok_iff keeps_def split: option.splits prod.splits)
qed



lemma server_ok_resolve:
  assumes "server_ok W E s" "live (ss_sessions s) r"
  shows "server_ok W E (resolve_request E T status r how s)"
proof (cases how)
  case (ResolveRegister rid)
  have "server_ok W E (with_sessions (link_sessions r) (set_addr_status r st s))" for st
    using assms by (intro server_ok_link) simp_all
  then have "server_ok W E (with_sessions (link_sessions r) (set_addr_status r st s\<lparr> ss_ip_cache := c \<rparr>))" for st c
    using server_ok_cong [of "with_sessions (link_sessions r) (set_addr_status r st s\<lparr> ss_ip_cache := c \<rparr>)"
        "with_sessions (link_sessions r) (set_addr_status r st s)" W E]
    by (simp add: with_sessions_def)
  then show ?thesis using ResolveRegister by (simp add: resolve_request_def Let_def)
qed (use assms in \<open>simp add: resolve_request_def Let_def\<close>)

lemma server_ok_ping_packet [simp]: "server_ok W E (ping_packet sid addr s) = server_ok W E s"
  by (simp add: ping_packet_def split: prod.splits)

lemma server_ok_ping_job: "server_ok W E s \<Longrightarrow> server_ok W E (ping_job s)"
  by (auto simp: ping_job_def do_ping_def Let_def split: list.splits)

lemma server_ok_retry: "server_ok W E s \<Longrightarrow> server_ok W E (snd (snd (retry_requests E T timeout reqs s)))"
  by (induction reqs arbitrary: s) (auto simp: server_ok_resolve case_prod_unfold Let_def)

lemma server_ok_retry_entries: "server_ok W E s \<Longrightarrow> server_ok W E (snd (snd (retry_entries E T timeout entries s)))"
proof (induction entries arbitrary: s)
  case (Cons e entries)
  then show ?case using server_ok_retry [OF Cons.prems] by (cases e) (simp add: case_prod_unfold Let_def)
qed simp

lemma server_ok_send_pings:
  assumes "server_ok W E s"
  shows "server_ok W E (send_pings E T timeout s)"
proof -
  have "server_ok W E (fold (\<lambda>r s. ping_packet (se_session_id (deref (ss_sessions s) r)) (se_peer (deref (ss_sessions s) r)) s)
      rs s1) = server_ok W E s1" for rs s1
    by (induction rs arbitrary: s1) simp_all
  then show ?thesis
    using server_ok_retry_entries [OF assms] by (simp add: send_pings_def Let_def case_prod_unfold)
qed

lemma server_ok_matching: "server_ok W E s \<Longrightarrow> server_ok W E (snd (resolve_matching E T sid reqs s))"
  by (induction reqs arbitrary: s) (auto simp: server_ok_resolve case_prod_unfold Let_def)

lemma server_ok_checker:
  assumes "server_ok W E s"
  shows "server_ok W E (checker_recv E T pt bs peer s)"
proof -
  have "server_ok W E s'" if "resolve_success E T peer sid s = Ok s'" for sid s'
    using that assms server_ok_matching [OF assms]
    by (auto simp: resolve_success_def rbind_eq_Ok_iff case_prod_unfold Let_def split: option.splits if_splits)
  moreover have "server_ok W E (fold f reqs s1)"
    if "server_ok W E s1" "\<And>req s. server_ok W E s \<Longrightarrow> server_ok W E (f req s)" for reqs s1 and f :: "check_request \<Rightarrow> _"
    using that by (induction reqs arbitrary: s1) simp_all
  then have "server_ok W E (resolve_unreachable E T peer s)"
    unfolding resolve_unreachable_def using assms by (simp add: server_ok_resolve)
  ultimately show ?thesis
    using assms by (auto simp: checker_recv_def split: option.splits packet_type.splits packet_body.splits result.splits)
qed

lemma server_ok_command:
  assumes "server_ok W E s"
  shows "server_ok W E (control_handle E T c s)"
proof -
  have "server_ok W E (s\<lparr> ss_sessions := m \<rparr>)" if "remove_session (ev_hash E) sid (ss_sessions s) = (x, m)" for sid x m
    using server_ok_remove [OF assms, of sid] that by (simp add: with_sessions_def)
  then show ?thesis
    using assms by (auto simp: control_handle_def Let_def check_ip_status_def server_ok_mode
        split: control_command.splits option.splits prod.splits)
qed

lemma server_ok_env [simp]:
  "server_ok W (E\<lparr> ev_salt := salt \<rparr>) = server_ok W E" "server_ok W (session_handler_new E salt) = server_ok W E"
  by (simp_all add: server_ok_def session_handler_new_def fun_eq_iff)

lemma server_ok_start:
  assumes "manager_reaches (ev_hash E) m" "slots_ok sl" "\<forall>se \<in> set (sm_heap m). session_bound W E se"
  shows "server_ok W E (server_start sl m list_mode retry_cnt)"
  using assms manager_reaches.mode_set [OF assms(1)] by (simp add: server_ok_def server_start_def) (simp add: set_mode_def)

lemma slots_restored:
  assumes "slots_ok sl" "\<forall>n \<in> set (sl_slots sl). length n = 20"
  shows "case slot_manager_load (slot_manager_save sl) of Ok sl' \<Rightarrow> sl' = sl | Err e \<Rightarrow> True | Panic \<Rightarrow> False"
proof (cases "length (sl_slots sl) \<le> 409")
  case True
  then have "slots_wf sl" using assms(1) by (simp add: slots_ok_def)
  moreover have "load_loop ([], concat (sl_slots sl)) [] = Ok (sl_slots sl)" by (rule load_loop_short [OF assms(2) True])
  ultimately show ?thesis
    using fold_update_distinct [of "[]" "sl_nodes sl"]
    by (simp add: slot_manager_load_def slot_manager_save_def slots_wf_def)
next
  case False
  then show ?thesis using load_loop_long [OF assms(2)] by (simp add: slot_manager_load_def slot_manager_save_def)
qed

lemma server_ok_restart:
  assumes ok: "server_ok W E s" and "saved_readable (ev_ext E) ser de s"
    and "save_state ser (ss_slots s) (ss_sessions s) files = Ok files'"
    and "restore_state default_id (manager_load (ev_ext E) (ev_hash E) now ts de) load_old (Some files') = Some (Ok (sl, m))"
  shows "server_ok W E (server_start sl m list_mode retry_cnt)"
proof -
  obtain f m' where f: "manager_save ser (ss_sessions s) = Ok f" "manager_load (ev_ext E) (ev_hash E) now ts de f = Some (Ok m')"
    "\<forall>s' \<in> set (sm_heap m'). \<exists>r. live (ss_sessions s) r \<and> restored (deref (ss_sessions s) r) s'"
    using sessions_saved_load [OF server_ok_reaches [OF ok]] assms(2) unfolding saved_readable_def by metis
  have files: "sf_slots files' = Some (slot_manager_save (ss_slots s))" "sf_sessions files' = Some f"
    using assms(3) f(1) by (auto simp: save_state_def)
  have m: "m = m'" and sl: "sl = ss_slots s \<or> sl = slot_manager_new default_id"
    using assms(2,4) slots_restored [OF server_ok_slots_ok [OF ok]]
    by (auto simp: restore_state_def files f(2) saved_readable_def rbind_eq_Ok_iff map_err_eq_Ok Let_def split: result.splits)
  have "session_bound W E se" if se: "se \<in> set (sm_heap m')" for se
  proof -
    obtain r where r: "live (ss_sessions s) r" "restored (deref (ss_sessions s) r) se" using f(3) se by blast
    then have "session_bound W E (deref (ss_sessions s) r)"
      using ok live_bound [OF manager_reaches_wf [OF server_ok_reaches [OF ok]]] by (auto simp: server_ok_def deref_def)
    then show ?thesis using restored_bound [OF r(2)] by blast
  qed
  moreover have "slots_ok sl"
    using sl server_ok_slots_ok [OF ok] slots_wf_new slots_wf_counted by (auto simp: slots_ok_def)
  ultimately show ?thesis using manager_load_reaches(1) [OF f(2)] by (intro server_ok_start) (simp_all add: m)
qed

lemma server_reaches_ok: "server_reaches W E s \<Longrightarrow> server_ok W E s"
proof (induction rule: server_reaches.induct)
  case (start E default_id list_mode retry_cnt)
  show ?case
    unfolding server_new_def
    by (rule server_ok_start) (use slots_wf_new slots_wf_counted in
        \<open>auto simp: manager_reaches.init slots_ok_def, simp add: session_manager_new_def\<close>)
next
  case (datagram E s H salt T rnd pt bs src s')
  then show ?case using server_ok_worker [of W H s] by simp
next
  case (restart E s ser de files files' default_id now ts load_old slots sessions difficulty config_salt min_version started
      list_mode retry_cnt)
  then have "server_ok W E (server_start slots sessions list_mode retry_cnt)" by (intro server_ok_restart)
  then show ?case by (simp add: server_ok_def)
qed (auto intro: server_ok_checker server_ok_ping_job server_ok_send_pings server_ok_cleanup server_ok_command)

end
