(* ===== verification/Server_Props.thy ===== *)
theory Server_Props
  imports Server_Spec "HOL-Library.Multiset"
begin

text \<open>
  The guarantees of the server: sessions belong to who answered the challenge, the handshake of an honest client
  succeeds, frames are relayed unchanged between owners of sessions, address checks end, what is served about a
  node convinces a client, and no datagram stops a worker.
\<close>

section \<open>Accepting a session\<close>

lemma word_le_two: "(d :: u64) \<le> 2 \<Longrightarrow> d = 0 \<or> d = 1 \<or> d = 2"
proof -
  assume "d \<le> 2"
  then have "unat d \<le> 2" by (simp add: word_le_nat_alt)
  then have "unat d = 0 \<or> unat d = 1 \<or> unat d = 2" by auto
  then show ?thesis by (simp add: word_unat_eq_iff)
qed

lemma check_session_id_recent:
  assumes "epoch T1 \<le> epoch T2" "epoch T2 - epoch T1 \<le> 2"
  shows "check_session_id E T2 (gen_new_challenge E src (epoch T1)) src = Ok True"
proof -
  define d where "d = epoch T2 - epoch T1"
  have e: "epoch T1 = epoch T2 - d" and le: "d \<le> epoch T2"
    using assms(1) by (simp_all add: d_def word_sub_le)
  have "d = 0 \<or> d = 1 \<or> d = 2" using assms(2) d_def word_le_two by blast
  moreover have "1 \<le> epoch T2" if "2 \<le> epoch T2" using that by (simp add: word_le_nat_alt)
  ultimately show ?thesis using le by (auto simp: check_session_id_def e sub_panic_def)
qed

lemma new_session_fresh:
  assumes "manager_wf H m" "find_session H sid m = None"
  shows "\<exists>r m'. new_session H c sid peer nid keys encs key m = (Ok r, m') \<and> find_session H sid m' = Some r
    \<and> deref m' r = \<lparr> se_session_id = sid, se_peer = peer, se_ts = clock_last_seen c, se_node_id = nid, se_keys = keys,
        se_supported_encryptions = encs, se_addr_status = AddrUnknown, se_session_key = key \<rparr>"
  using assms manager_wfD(1) [OF assms(1)]
  by (simp add: new_session_def find_session_def Let_def deref_def)

lemma session_response_honest:
  assumes ok: "server_ok W E s" and fresh: "find_session (ev_hash E) sid (ss_sessions s) = None"
    and "check_session_id E T sid src = (Ok True :: (bool, server_error) result)"
    and "\<forall>x. ev_digest E x \<noteq> []" "list_all2 (signer_ok (ev_ext E)) signers pks" "signers \<noteq> []"
    and "pk_from_slice (ev_ext E) spk = Some spk"
    and "solve (ev_ext E) (ev_digest E) (session_challenge E sid) (ev_difficulty E) signers spk = Ok resp"
  shows "\<exists>proofs r m. session_handle_response E T src rid sid resp encs s =
        reply (session_reply sid rid STATUS_OK (Some (RespSession resp_session_default))) (s\<lparr> ss_sessions := m \<rparr>)
    \<and> new_session (ev_hash E) (clock_at E T) sid src (pk_address (ev_ext E) (hd pks))
        (map (identity_from_key (ev_ext E)) pks) encs (Some (spk, proofs)) (ss_sessions s) = (Ok r, m)
    \<and> find_session (ev_hash E) sid m = Some r
    \<and> deref m r = \<lparr> se_session_id = sid, se_peer = src, se_ts = clock_last_seen (clock_at E T),
        se_node_id = pk_address (ev_ext E) (hd pks), se_keys = map (identity_from_key (ev_ext E)) pks,
        se_supported_encryptions = encs, se_addr_status = AddrUnknown, se_session_key = Some (spk, proofs) \<rparr>
    \<and> dom proofs = pk_address (ev_ext E) ` set pks"
proof -
  obtain proofs where p: "recover_identities_with_proof (ev_ext E) (ev_digest E) (session_challenge E sid) (ev_difficulty E)
      (Some resp) None = Ok (pk_address (ev_ext E) (hd pks), map (identity_from_key (ev_ext E)) pks, Some (spk, proofs))"
    and d: "dom proofs = pk_address (ev_ext E) ` set pks"
    using honest_response_recovered [OF assms(4-8), of None] by blast
  have wf: "manager_wf (ev_hash E) (ss_sessions s)" by (rule manager_reaches_wf [OF server_ok_reaches [OF ok]])
  obtain r m where "new_session (ev_hash E) (clock_at E T) sid src (pk_address (ev_ext E) (hd pks))
      (map (identity_from_key (ev_ext E)) pks) encs (Some (spk, proofs)) (ss_sessions s) = (Ok r, m)"
    "find_session (ev_hash E) sid m = Some r"
    "deref m r = \<lparr> se_session_id = sid, se_peer = src, se_ts = clock_last_seen (clock_at E T),
        se_node_id = pk_address (ev_ext E) (hd pks), se_keys = map (identity_from_key (ev_ext E)) pks,
        se_supported_encryptions = encs, se_addr_status = AddrUnknown, se_session_key = Some (spk, proofs) \<rparr>"
    using new_session_fresh [OF wf fresh] by blast
  then show ?thesis
    using p d assms(3) by (intro exI [of _ proofs] exI [of _ r] exI [of _ m]) (simp add: session_handle_response_def)
qed

lemma session_response_repeated:
  assumes "find_session (ev_hash E) sid (ss_sessions s) = Some r"
    and "check_session_id E T sid src = (Ok True :: (bool, server_error) result)"
    and "\<forall>x. ev_digest E x \<noteq> []" "list_all2 (signer_ok (ev_ext E)) signers pks" "signers \<noteq> []"
    and "pk_from_slice (ev_ext E) spk = Some spk"
    and "solve (ev_ext E) (ev_digest E) (session_challenge E sid) (ev_difficulty E) signers spk = Ok resp"
  shows "session_handle_response E T src rid sid resp encs s =
    reply (session_reply sid rid
      (if se_node_id (deref (ss_sessions s) r) = pk_address (ev_ext E) (hd pks) then STATUS_OK else STATUS_CONFLICT)
      (Some (RespSession resp_session_default))) s"
proof -
  obtain proofs where "recover_identities_with_proof (ev_ext E) (ev_digest E) (session_challenge E sid) (ev_difficulty E)
      (Some resp) None = Ok (pk_address (ev_ext E) (hd pks), map (identity_from_key (ev_ext E)) pks, Some (spk, proofs))"
    using honest_response_recovered [OF assms(3-7), of None] by blast
  moreover have "new_session (ev_hash E) c sid src nid keys encs key (ss_sessions s) = (Err r, ss_sessions s)" for c nid keys key
    using assms(1) by (simp add: new_session_def find_session_def)
  ultimately show ?thesis using assms(2) by (simp add: session_handle_response_def)
qed

section \<open>A sample server\<close>

text \<open>
  The identifier the sample environment derives for \<^term>\<open>sample_addr\<close> in epoch 2, the answer to its
  challenge, and the packets of a client that opens a session, registers and answers the address check.
\<close>

definition sample_sid :: session_id where
  "sample_sid = [127, 0, 0, 1, 29, 40, 8, 0, 0, 0, 0, 0, 0, 0, 2, 0]"

definition sample_response :: challenge_response where
  "sample_response =
     (case solve sample_ext (\<lambda>x. [0, last x]) sample_sid 8 [sample_signer] (replicate 64 4) of
        Ok resp \<Rightarrow> resp
      | _ \<Rightarrow> \<lparr> cr_solution = [], cr_signatures = [], cr_session_sign = [], cr_session_pub_key = [] \<rparr>)"

definition sample_request :: request_kind where
  "sample_request = ReqSession \<lparr> qs_challenge_req = None, qs_challenge_resp = Some sample_response,
     qs_supported_encryptions = [], qs_identities = [], qs_client_version = [] \<rparr>"

definition sample_packets :: "bytes \<Rightarrow> packet option" where
  "sample_packets bs =
     (if bs = [0x12, 1] then Some \<lparr> pk_session_id = sample_sid,
        pk_kind = Some (KRequest \<lparr> rq_request_id = 1, rq_kind = Some sample_request \<rparr>) \<rparr>
      else if bs = [0x12, 2] then Some \<lparr> pk_session_id = sample_sid,
        pk_kind = Some (KRequest \<lparr> rq_request_id = 2, rq_kind = Some (ReqRegister []) \<rparr>) \<rparr>
      else if bs = [0x12, 3] then Some \<lparr> pk_session_id = sample_sid,
        pk_kind = Some (KResponse \<lparr> rp_request_id = 0, rp_code = STATUS_OK, rp_kind = Some RespPong \<rparr>) \<rparr>
      else None)"

definition sample_times :: times where
  "sample_times = \<lparr> tm_now = 1300 * NANOS, tm_unix = 1300 * NANOS \<rparr>"

definition sample_env :: env where
  "sample_env = \<lparr> ev_ext = sample_ext, ev_digest = (\<lambda>x. [0, last x]), ev_keccak = (\<lambda>bs. take 32 (bs @ replicate 32 0)),
     ev_hash = (\<lambda>_. 0), ev_prost = sample_prost\<lparr> packet_decode := sample_packets \<rparr>, ev_v6 = sample_v6,
     ev_version = Some, ev_version_less = (\<lambda>_ _. False), ev_evict_ip = (\<lambda>c. c), ev_evict_disconnect = (\<lambda>c. c),
     ev_difficulty = 8, ev_config_salt = Some [], ev_salt = [], ev_min_version = [], ev_server_start = 0 \<rparr>"

text \<open>The salt and the difficulty of the only session handler of the sample server.\<close>

definition sample_handlers :: "(bytes \<times> u64) set" where
  "sample_handlers = {([], 8)}"

definition run_or_stay :: "server_state \<Rightarrow> (server_state, server_error) result \<Rightarrow> server_state" where
  "run_or_stay s x = (case x of Ok s' \<Rightarrow> s' | _ \<Rightarrow> s)"

definition sample_start :: server_state where
  "sample_start = server_new (replicate 20 0) Humming 3"

definition sample_opened :: server_state where
  "sample_opened = run_or_stay sample_start (worker sample_env sample_times [] TypeData [0x12, 1] sample_addr sample_start)"

definition sample_registered :: server_state where
  "sample_registered =
     checker_recv sample_env sample_times TypeData [0x12, 3] sample_addr
       (ping_job (run_or_stay sample_opened
         (worker sample_env sample_times [] TypeData [0x12, 2] sample_addr sample_opened)))"

lemma sample_epoch [simp]: "epoch sample_times = 2"
  by (simp add: epoch_def sample_times_def NANOS_def)

lemma sample_now [simp]: "tm_now sample_times = 1300 * NANOS"
  by (simp add: sample_times_def)

lemma sample_sid_derived: "gen_new_challenge sample_env sample_addr 2 = sample_sid"
  by (simp add: sample_sid_def gen_new_challenge_def sample_env_def sample_addr_def u16_to_be_def u64_to_ne_def u64_to_be_def)

lemma sample_challenge: "session_challenge sample_env sample_sid = sample_sid"
  by (simp add: session_challenge_def sample_env_def sample_sid_def)

lemma sample_env_simps [simp]:
  "ev_ext sample_env = sample_ext" "ev_digest sample_env = (\<lambda>x. [0, last x])" "ev_hash sample_env = (\<lambda>_. 0)"
  "ev_difficulty sample_env = 8" "ev_version sample_env = Some" "ev_version_less sample_env = (\<lambda>_ _. False)"
  "ev_server_start sample_env = 0" "ev_evict_ip sample_env = (\<lambda>c. c)" "ev_v6 sample_env = sample_v6"
  "packet_decode (ev_prost sample_env) = sample_packets"
  by (simp_all add: sample_env_def)

lemma sample_solved: "solve sample_ext (\<lambda>x. [0, last x]) sample_sid 8 [sample_signer] (replicate 64 4) = Ok sample_response"
proof -
  have "\<exists>sol. solve_challenge (\<lambda>x. [0, last x]) sample_sid 8 = Ok sol"
    by (simp add: sample_sid_def solve_challenge_def solve_loop.simps challenge_digest_def leading_zeros_def Let_def)
  then show ?thesis
    by (auto simp: sample_response_def solve_def sign_with_def sample_signer_def Let_def)
qed

lemma sample_handler: "session_handler_new sample_env [] = sample_env" "(ev_salt sample_env, ev_difficulty sample_env) \<in> sample_handlers"
  by (simp_all add: session_handler_new_def sample_env_def sample_handlers_def)

lemma sample_handler_env: "sample_env\<lparr> ev_salt := [], ev_difficulty := 8 \<rparr> = sample_env"
  by (simp add: sample_env_def)

lemma sample_run_reaches:
  "server_reaches sample_handlers sample_env s \<Longrightarrow>
    server_reaches sample_handlers sample_env (run_or_stay s (worker sample_env T rnd pt bs src s))"
  by (cases "worker sample_env T rnd pt bs src s")
    (auto simp: run_or_stay_def intro: server_reaches.datagram [OF _ sample_handler(1) [symmetric] sample_handler(2)])

lemma sample_reached: "server_reaches sample_handlers sample_env sample_opened" "server_reaches sample_handlers sample_env sample_registered"
  unfolding sample_registered_def sample_opened_def sample_start_def
  by (intro server_reaches.check_received server_reaches.check_queued sample_run_reaches server_reaches.start)+

text \<open>The session of the sample client.\<close>

definition sample_session :: "(node_id \<rightharpoonup> bytes) \<Rightarrow> addr_status \<Rightarrow> session" where
  "sample_session proofs st = \<lparr> se_session_id = sample_sid, se_peer = sample_addr, se_ts = 1300,
     se_node_id = replicate 20 3, se_keys = [identity_from_key sample_ext (replicate 64 3)],
     se_supported_encryptions = [], se_addr_status = st, se_session_key = Some (replicate 64 4, proofs) \<rparr>"

lemma sample_decode:
  "worker sample_env T rnd TypeData [0x12, b] src s =
     (case sample_packets [0x12, b] of
        None \<Rightarrow> Err (CodecError ErrProtobufDecode)
      | Some p \<Rightarrow> rbind (handle_data sample_env T rnd src (PKPacket p) s) (\<lambda>(response, s).
          Ok (case response of None \<Rightarrow> s | Some p \<Rightarrow> send_to (PKPacket p) src s)))"
proof -
  obtain t where "peek_tag [0x12, b] = Ok (Some t)" "t \<noteq> 0" "t \<noteq> 1" using peek_tag_packet [of "0x12" "[b]"] by auto
  then have "read_datagram [0x12, b] = (Ok (Some [0x12, b]), [])"
    by (simp add: read_datagram_def read_bytes_inner_def slice_from_def Let_def)
  then show ?thesis by (simp add: worker_def datagram_decode_def split: option.splits)
qed

lemma sample_sid_read: "session_id_from_wire sample_sid = Ok (Some sample_sid)" "session_id_try_from sample_sid = Ok sample_sid"
  by (simp_all add: session_id_from_wire_def session_id_try_from_def sample_sid_def SESSION_ID_SIZE_def)

definition sample_sessions :: "(node_id \<rightharpoonup> bytes) \<Rightarrow> session_manager" where
  "sample_sessions proofs = session_manager_new\<lparr> sm_heap := [sample_session proofs AddrUnknown],
     sm_sessions := shard_insert (\<lambda>_. 0) sample_sid 0 shards_new \<rparr>"

lemma sample_opened_sessions:
  "\<exists>proofs sent. sample_opened = sample_start\<lparr> ss_sessions := sample_sessions proofs, ss_sent := sent \<rparr>
     \<and> dom proofs = {replicate 20 3}"
proof -
  have ok: "server_ok sample_handlers sample_env sample_start"
    unfolding sample_start_def by (intro server_reaches_ok server_reaches.start)
  have fresh: "find_session (\<lambda>_. 0) sample_sid (ss_sessions sample_start) = None"
    by (simp add: sample_start_def server_new_def server_start_def set_mode_def session_manager_new_def find_session_def shard_get_def shards_new_def
        session_slot_def)
  have chk: "check_session_id sample_env sample_times sample_sid sample_addr = Ok True"
    using check_session_id_recent [of sample_times sample_times sample_env sample_addr] by (simp add: sample_sid_derived)
  have pk: "pk_from_slice sample_ext (replicate 64 4) = Some (replicate 64 4)"
    "pk_address sample_ext (replicate 64 3) = replicate 20 3" by (simp_all add: sample_ext_def)
  obtain proofs r m where h: "session_handle_response sample_env sample_times sample_addr 1 sample_sid sample_response []
      sample_start = reply (session_reply sample_sid 1 STATUS_OK (Some (RespSession resp_session_default)))
        (sample_start\<lparr> ss_sessions := m \<rparr>)"
    and n: "new_session (\<lambda>_. 0) (clock_at sample_env sample_times) sample_sid sample_addr (replicate 20 3)
        [identity_from_key sample_ext (replicate 64 3)] [] (Some (replicate 64 4, proofs)) (ss_sessions sample_start) = (Ok r, m)"
    and d: "dom proofs = {replicate 20 3}"
    using session_response_honest [of sample_handlers sample_env sample_start sample_sid sample_times sample_addr "[sample_signer]"
        "[replicate 64 3]" "replicate 64 4" sample_response 1 "[]"] ok fresh chk sample_signer_ok sample_solved
    by (auto simp: sample_challenge pk)
  have m: "m = sample_sessions proofs"
    using n fresh by (simp add: new_session_def find_session_def sample_sessions_def sample_start_def server_new_def server_start_def
        set_mode_def session_manager_new_def sample_session_def clock_at_def clock_now_def clock_last_seen_def sample_times_def NANOS_def Let_def)
  have "sample_opened = send_to (PKPacket (session_reply sample_sid 1 STATUS_OK (Some (RespSession resp_session_default))))
      sample_addr (sample_start\<lparr> ss_sessions := m \<rparr>)"
    by (simp add: sample_opened_def sample_decode sample_packets_def handle_data_def sample_sid_read handle_request_def
        sample_request_def session_handle_def h run_or_stay_def reply_def)
  then show ?thesis using d by (auto simp: m send_to_def)
qed

lemma sample_sessions_facts:
  "find_session (\<lambda>_. 0) sample_sid (sample_sessions proofs) = Some 0"
  "deref (sample_sessions proofs) 0 = sample_session proofs AddrUnknown"
  by (simp_all add: sample_sessions_def find_session_def shard_get_def shard_insert_def shards_new_def session_slot_def
      deref_def)

definition sample_linked :: "(node_id \<rightharpoonup> bytes) \<Rightarrow> session_manager" where
  "sample_linked proofs = (sample_sessions proofs)\<lparr> sm_heap := [sample_session proofs (AddrValid (1300 * NANOS))],
     sm_node_sessions := [(replicate 20 3, [0])], sm_node_events := [NodeNew (replicate 20 3)] \<rparr>"

lemma sample_live: "live (sample_sessions proofs) = (\<lambda>r. r = 0)" "live (sample_linked proofs) = (\<lambda>r. r = 0)"
proof -
  have "shard_values (shard_insert (\<lambda>_. 0) sample_sid v shards_new) = [v]" for v :: sref
    by (simp add: shard_insert_def shards_new_def session_slot_def shard_values_def numeral_eq_Suc)
  then show "live (sample_sessions proofs) = (\<lambda>r. r = 0)" "live (sample_linked proofs) = (\<lambda>r. r = 0)"
    by (simp_all add: fun_eq_iff live_def sample_linked_def sample_sessions_def session_manager_new_def)
qed

definition sample_check :: check_request where
  "sample_check = \<lparr> cq_session_w = 0, cq_addr = sample_addr, cq_ts = 1300 * NANOS, cq_retry_cnt = 3,
     cq_resolve = ResolveRegister 2 \<rparr>"

lemma sample_touch:
  "ss_sessions s = sample_sessions proofs \<Longrightarrow> touch (clock_at sample_env sample_times) 0 s = s"
  by (simp add: touch_def with_sessions_def update_session_def sample_sessions_def sample_session_def clock_at_def
      clock_now_def sample_times_def NANOS_def)

lemma sample_queue:
  assumes "ss_sessions s = sample_sessions proofs" "ss_ip_cache s = Map.empty" "ss_queue s = []" "ss_requests s = []"
    and "ss_retry_cnt s = 3"
  shows "ping_job (run_or_stay s (worker sample_env sample_times [] TypeData [0x12, 2] sample_addr s)) =
    (do_ping sample_check s)\<lparr> ss_requests := [(sample_addr, [sample_check])] \<rparr>"
proof -
  have "run_or_stay s (worker sample_env sample_times [] TypeData [0x12, 2] sample_addr s) = s\<lparr> ss_queue := [sample_check] \<rparr>"
    using assms
    by (simp add: sample_decode sample_packets_def handle_data_def sample_sid_read handle_request_def register_handle_def
        sample_sessions_facts run_or_stay_def sample_touch no_reply_def check_ip_status_def sample_session_def
        sample_check_def Let_def)
  moreover have "ping_job (s\<lparr> ss_queue := [sample_check] \<rparr>) = (do_ping sample_check s)\<lparr> ss_requests := [(sample_addr, [sample_check])] \<rparr>"
    using assms
    by (simp add: ping_job_def do_ping_def ping_packet_def packet_request_def request_from_def send_to_def requests_for_def
       sample_check_def sample_live Let_def)
  ultimately show ?thesis by simp
qed

lemma sample_resolved:
  assumes "ss_sessions s = sample_sessions proofs" "ss_requests s = [(sample_addr, [sample_check])]"
  shows "ss_sessions (checker_recv sample_env sample_times TypeData [0x12, 3] sample_addr s) = sample_linked proofs
    \<and> ss_slots (checker_recv sample_env sample_times TypeData [0x12, 3] sample_addr s) = ss_slots s"
proof -
  have set: "update_session 0 (se_addr_status_update (\<lambda>_. st)) (sample_sessions proofs) =
      (sample_sessions proofs)\<lparr> sm_heap := [sample_session proofs st] \<rparr>" for st
    by (simp add: update_session_def sample_sessions_def sample_session_def)
  have link: "link_sessions 0 ((sample_sessions proofs)\<lparr> sm_heap := [sample_session proofs (AddrValid (1300 * NANOS))] \<rparr>) =
      sample_linked proofs"
    by (simp add: link_sessions_def link_key_def deref_def sample_session_def sample_linked_def sample_sessions_def
        node_refs_def session_manager_new_def identity_from_key_def sample_ext_def Let_def)
  have dr: "se_session_id (deref (sample_sessions proofs) 0) = sample_sid"
    by (simp add: sample_sessions_facts sample_session_def)
  show ?thesis
    using assms
    by (simp add: checker_recv_def sample_packets_def resolve_success_def sample_sid_read sample_live sample_check_def dr
       resolve_request_def set_addr_status_def with_sessions_def addr_set_valid_def set link send_to_def
       Let_def)
qed

lemma sample_registered_sessions:
  "\<exists>proofs. ss_sessions sample_registered = sample_linked proofs \<and> dom proofs = {replicate 20 3}"
  "ss_slots sample_registered = slot_manager_new (replicate 20 0)"
proof -
  obtain proofs sent where o: "sample_opened = sample_start\<lparr> ss_sessions := sample_sessions proofs, ss_sent := sent \<rparr>"
    and d: "dom proofs = {replicate 20 3}" using sample_opened_sessions by blast
  have f: "ss_sessions sample_opened = sample_sessions proofs" "ss_ip_cache sample_opened = Map.empty" "ss_queue sample_opened = []"
    "ss_requests sample_opened = []" "ss_retry_cnt sample_opened = 3" "ss_slots sample_opened = slot_manager_new (replicate 20 0)"
    by (simp_all add: o sample_start_def server_new_def server_start_def)
  let ?q = "(do_ping sample_check sample_opened)\<lparr> ss_requests := [(sample_addr, [sample_check])] \<rparr>"
  have q: "ss_sessions ?q = sample_sessions proofs" "ss_slots ?q = slot_manager_new (replicate 20 0)"
    by (simp_all add: f do_ping_def ping_packet_def packet_request_def request_from_def send_to_def)
  have "ss_sessions sample_registered = sample_linked proofs \<and> ss_slots sample_registered = slot_manager_new (replicate 20 0)"
    unfolding sample_registered_def sample_queue [OF f(1-5)] using sample_resolved [of ?q proofs] q by simp
  then show "\<exists>proofs. ss_sessions sample_registered = sample_linked proofs \<and> dom proofs = {replicate 20 3}"
    "ss_slots sample_registered = slot_manager_new (replicate 20 0)" using d by auto
qed

text \<open>The sample server, stopped after its first session and started again with another difficulty.\<close>

lemma sample_restarted:
  "\<exists>sl m r. server_reaches sample_handlers
      (sample_env\<lparr> ev_difficulty := 9, ev_config_salt := None, ev_min_version := [], ev_server_start := 5 \<rparr>)
      (server_start sl m Humming 3)
    \<and> find_session (\<lambda>_. 0) sample_sid m = Some r \<and> restored (deref (ss_sessions sample_opened) 0) (deref m r)"
proof -
  obtain proofs sent where o: "sample_opened = sample_start\<lparr> ss_sessions := sample_sessions proofs, ss_sent := sent \<rparr>"
    using sample_opened_sessions by blast
  have f: "ss_sessions sample_opened = sample_sessions proofs" "ss_slots sample_opened = slot_manager_new (replicate 20 0)"
    by (simp_all add: o sample_start_def server_new_def server_start_def)
  define d where "d = session_data_of (sample_session proofs AddrUnknown)"
  define ser :: "session_data \<Rightarrow> (bytes, string) result" where "ser = (\<lambda>_. Ok [1])"
  define de :: "bytes \<Rightarrow> (session_data \<times> bytes, string) result" where "de = (\<lambda>f0. Ok (d, tl f0))"
  have v: "shard_values (sm_sessions (sample_sessions proofs)) = [0]"
    by (simp add: sample_sessions_def shard_insert_def shards_new_def session_slot_def shard_values_def numeral_eq_Suc)
  have "keys_ok sample_ext (sample_session proofs AddrUnknown)"
    by (simp add: keys_ok_def sample_session_def identity_from_key_def sample_ext_def)
  moreover have "decodes ser de d" by (simp add: decodes_def ser_def de_def)
  ultimately have ok: "keys_ok sample_ext (deref (sample_sessions proofs) 0) \<and> decodes ser de (session_data_of (deref (sample_sessions proofs) 0))"
    by (simp add: sample_sessions_facts d_def)
  have readable: "saved_readable (ev_ext sample_env) ser de sample_opened"
    using ok by (simp add: saved_readable_def f v slot_manager_new_def)
  obtain f0 m where m: "manager_save ser (sample_sessions proofs) = Ok f0"
      "manager_load sample_ext (\<lambda>_. 0) id (\<lambda>_. 0) de f0 = Some (Ok m)"
      "\<forall>sid. rel_option restored (map_option (deref (sample_sessions proofs)) (find_session (\<lambda>_. 0) sid (sample_sessions proofs)))
        (map_option (deref m) (find_session (\<lambda>_. 0) sid m))"
    using sessions_saved_load [of "\<lambda>_. 0" "sample_sessions proofs" sample_ext ser de id "\<lambda>_. 0"] ok
      server_ok_reaches [OF server_reaches_ok [OF sample_reached(1)]] by (auto simp: f v)
  obtain sl where "restore_state [] (manager_load sample_ext (\<lambda>_. 0) id (\<lambda>_. 0) de) (\<lambda>_. None) (Some \<lparr> sf_slots =
      Some (slot_manager_save (ss_slots sample_opened)), sf_sessions = Some f0, sf_sessions_old = None \<rparr>) = Some (Ok (sl, m))"
    using slots_restored [OF server_ok_slots_ok [OF server_reaches_ok [OF sample_reached(1)]]] readable m(2)
    by (auto simp: restore_state_def saved_readable_def Let_def split: result.splits)
  moreover have "save_state ser (ss_slots sample_opened) (ss_sessions sample_opened) \<lparr> sf_slots = None, sf_sessions = None, sf_sessions_old = None \<rparr> =
      Ok \<lparr> sf_slots = Some (slot_manager_save (ss_slots sample_opened)), sf_sessions = Some f0, sf_sessions_old = None \<rparr>"
    using m(1) by (simp add: save_state_def f)
  ultimately have "server_reaches sample_handlers (sample_env\<lparr> ev_difficulty := 9, ev_config_salt := None, ev_min_version := [],
      ev_server_start := 5 \<rparr>) (server_start sl m Humming 3)"
    using server_reaches.restart [OF sample_reached(1) readable] by simp
  moreover obtain r where "find_session (\<lambda>_. 0) sample_sid m = Some r" "restored (deref (sample_sessions proofs) 0) (deref m r)"
    using spec [OF m(3), of sample_sid] sample_sessions_facts(1) [of proofs] by (cases "find_session (\<lambda>_. 0) sample_sid m") auto
  ultimately show ?thesis using f by auto
qed

section \<open>Properties\<close>

text \<open>
  C1: Sessions are authentic: in every state the server can reach, whatever datagrams its workers received and however
  often it was started again from its own saved state, a session found under an identifier carries that identifier. One of
  the session handlers that have been at work (each worker of each run has one, with its own salt when none is
  configured) derived the identifier from the address the session is bound to, and the node identifier, the
  identities and the session key were recovered from an answer that solves the challenge this handler derives from the
  identifier and is signed by each identity. A start from files the server has not written itself is not covered.
\<close>

theorem server_sessions_authentic:
  assumes "server_reaches W E s" "find_session (ev_hash E) sid (ss_sessions s) = Some r" "se = deref (ss_sessions s) r"
  shows "se_session_id se = sid
    \<and> (\<exists>(salt, difficulty) \<in> W. let H = E\<lparr> ev_salt := salt, ev_difficulty := difficulty \<rparr> in
        (\<exists>ep. sid = gen_new_challenge H (se_peer se) ep)
      \<and> (\<exists>cr. recovered (ev_ext E) (ev_digest E) (session_challenge H sid) difficulty cr None
            (se_node_id se) (se_keys se) (se_session_key se)))"
proof -
  have ok: "server_ok W E s" using assms(1) by (rule server_reaches_ok)
  have wf: "manager_wf (ev_hash E) (ss_sessions s)" by (rule manager_reaches_wf [OF server_ok_reaches [OF ok]])
  have lv: "live (ss_sessions s) r" using ok assms(2) by (rule found_live)
  have "se_session_id se = sid"
    using assms(2,3) manager_wfD [OF wf] by (auto simp: find_session_def deref_def)
  moreover have "session_bound W E se"
    using ok live_bound [OF wf lv] assms(3) by (auto simp: server_ok_def deref_def)
  ultimately show ?thesis by (simp add: session_bound_def)
qed

theorem server_sessions_authentic_witness:
  "\<exists>proofs. deref (ss_sessions sample_opened) 0 = sample_session proofs AddrUnknown
    \<and> (\<exists>cr. recovered sample_ext (\<lambda>x. [0, last x]) sample_sid 8 cr None
        (replicate 20 3) [identity_from_key sample_ext (replicate 64 3)] (Some (replicate 64 4, proofs)))
    \<and> (\<exists>E s r. server_reaches sample_handlers E s \<and> ev_difficulty E = 9 \<and> find_session (\<lambda>_. 0) sample_sid (ss_sessions s) = Some r
        \<and> (\<exists>ep. sample_sid = gen_new_challenge (E\<lparr> ev_salt := [], ev_difficulty := 8 \<rparr>) (se_peer (deref (ss_sessions s) r)) ep))"
proof -
  obtain proofs sent where o: "sample_opened = sample_start\<lparr> ss_sessions := sample_sessions proofs, ss_sent := sent \<rparr>"
    using sample_opened_sessions by blast
  have f: "ss_sessions sample_opened = sample_sessions proofs" by (simp add: o)
  define E where "E = sample_env\<lparr> ev_difficulty := 9, ev_config_salt := None, ev_min_version := [], ev_server_start := 5 \<rparr>"
  obtain s r where s: "server_reaches sample_handlers E s" "find_session (\<lambda>_. 0) sample_sid (ss_sessions s) = Some r"
    using sample_restarted by (fastforce simp: E_def server_start_def set_mode_def find_session_def)
  moreover have e: "ev_hash E = (\<lambda>_. 0)" "ev_difficulty E = 9" by (simp_all add: E_def)
  moreover have "\<exists>ep. sample_sid = gen_new_challenge (E\<lparr> ev_salt := [], ev_difficulty := 8 \<rparr>) (se_peer (deref (ss_sessions s) r)) ep"
    using server_sessions_authentic [OF s(1), of sample_sid r, OF _ refl] s(2) e by (auto simp: sample_handlers_def Let_def)
  moreover have "\<exists>cr. recovered sample_ext (\<lambda>x. [0, last x]) sample_sid 8 cr None
        (replicate 20 3) [identity_from_key sample_ext (replicate 64 3)] (Some (replicate 64 4, proofs))"
    using server_sessions_authentic [OF sample_reached(1), of sample_sid 0, OF _ refl] sample_handler_env
    by (simp add: f sample_sessions_facts sample_challenge sample_handlers_def Let_def) (auto simp: sample_session_def)
  ultimately show ?thesis
    by (intro exI [of _ proofs]) (auto simp: f sample_sessions_facts)
qed

section \<open>Relaying\<close>

lemma node_session_found:
  assumes "manager_wf H m" "node_session n m = (Some r, m')"
  shows "live m r \<and> n \<in> id_node_id ` set (se_keys (deref m r))"
proof -
  obtain g where g: "map_of (sm_node_sessions m) n = Some g"
    using assms(2) by (cases "map_of (sm_node_sessions m) n") (auto simp: node_session_def)
  then obtain rest where "dropWhile (\<lambda>r. \<not> live m r) (rev g) = r # rest"
    using assms(2) by (cases "dropWhile (\<lambda>r. \<not> live m r) (rev g)") (auto simp: node_session_def Let_def)
  then have "live m r" "r \<in> set g"
    using hd_dropWhile [of "\<lambda>r. \<not> live m r" "rev g"] set_dropWhileD [of r "\<lambda>r. \<not> live m r" "rev g"] by simp_all
  then show ?thesis using node_refs_wf [OF assms(1), of r n] g by (simp add: node_refs_def deref_def)
qed

lemma update_session_deref: "\<lbrakk>\<And>se. f (g se) = f se\<rbrakk> \<Longrightarrow> f (deref (update_session r g m) d) = f (deref m d)"
  by (cases "r < length (sm_heap m)"; cases "r = d") (simp_all add: deref_def update_session_def list_update_beyond)

lemma touch_fields [simp]:
  "se_session_id (deref (ss_sessions (touch c r s)) d) = se_session_id (deref (ss_sessions s) d)"
  "se_peer (deref (ss_sessions (touch c r s)) d) = se_peer (deref (ss_sessions s) d)"
  "se_keys (deref (ss_sessions (touch c r s)) d) = se_keys (deref (ss_sessions s) d)"
  "se_node_id (deref (ss_sessions (touch c r s)) d) = se_node_id (deref (ss_sessions s) d)"
  "ss_sent (touch c r s) = ss_sent s" "ss_slots (touch c r s) = ss_slots s"
  by (simp_all add: touch_def with_sessions_def update_session_deref)

lemma node_session_deref [simp]: "deref (snd (node_session n m)) r = deref m r"
  by (simp add: deref_def)

lemma node_session_none:
  assumes "node_session n m = (None, m')"
  shows "filter (live m) (node_refs m n) = []"
proof (cases "map_of (sm_node_sessions m) n")
  case (Some g)
  then have "dropWhile (\<lambda>r. \<not> live m r) (rev g) = []"
    using assms by (auto simp: node_session_def Let_def split: list.splits)
  then show ?thesis using Some by (simp add: node_refs_def filter_empty_conv)
qed (simp add: node_refs_def)

lemma forward_target_found:
  assumes "server_ok W E s" "forward_target slot s = (target, s')"
  shows "ss_sent s' = ss_sent s \<and> ss_slots s' = ss_slots s \<and> (case target of
      None \<Rightarrow> (\<forall>n. slot_manager_node slot (ss_slots s) = Some n \<longrightarrow> filter (live (ss_sessions s)) (node_refs (ss_sessions s) n) = [])
    | Some (addr, sid) \<Rightarrow> (\<exists>n d. slot_manager_node slot (ss_slots s) = Some n \<and> live (ss_sessions s) d
      \<and> n \<in> id_node_id ` set (se_keys (deref (ss_sessions s) d))
      \<and> addr = se_peer (deref (ss_sessions s) d) \<and> sid = se_session_id (deref (ss_sessions s) d)))"
proof (cases "slot_manager_node slot (ss_slots s)")
  case (Some n)
  have wf: "manager_wf (ev_hash E) (ss_sessions s)" by (rule manager_reaches_wf [OF server_ok_reaches [OF assms(1)]])
  obtain found m where f: "node_session n (ss_sessions s) = (found, m)" by fastforce
  have m: "m = snd (node_session n (ss_sessions s))" by (simp add: f)
  have "target = map_option (\<lambda>r. (se_peer (deref (ss_sessions s) r), se_session_id (deref (ss_sessions s) r))) found"
    "s' = s\<lparr> ss_sessions := m \<rparr>"
    using assms(2) Some by (simp_all add: forward_target_def node_session_of_eq Let_def f, simp_all add: m)
  then show ?thesis
    using Some f node_session_found [OF wf, of n] node_session_none [of n "ss_sessions s"] by (cases found) auto
qed (use assms in \<open>simp add: forward_target_def\<close>)

lemma touch_refs [simp]: "node_refs (ss_sessions (touch c r s)) n = node_refs (ss_sessions s) n"
  by (simp add: touch_def with_sessions_def update_session_def node_refs_def)

lemma own_session_iff:
  "own_session E src sid s = Some r \<longleftrightarrow>
     find_session (ev_hash E) sid (ss_sessions s) = Some r \<and> se_peer (deref (ss_sessions s) r) = src"
  "own_session E src sid s = None \<longleftrightarrow>
     (\<forall>r. find_session (ev_hash E) sid (ss_sessions s) = Some r \<longrightarrow> se_peer (deref (ss_sessions s) r) \<noteq> src)"
  by (auto simp: own_session_def split: option.splits)

lemma forward_source_Ok:
  assumes "slots_counted (ss_slots s)"
  shows "\<exists>src_info s'. forward_source E T src sid s = Ok (src_info, s')"
proof (cases "own_session E src sid s")
  case (Some r)
  then show ?thesis
    using slot_counted [OF assms, of "se_node_id (deref (ss_sessions s) r)", where ?'a = server_error] by (auto simp: forward_source_def)
qed (simp add: forward_source_def)

lemma forward_handle_Ok:
  assumes "slots_counted (ss_slots s)"
  shows "\<exists>response s'. forward_handle E T src sid slot flags pl s = Ok (response, s')"
  using forward_source_Ok [OF assms, of E T src sid]
  by (auto simp: forward_handle_def reply_def no_reply_def split: prod.splits option.splits)

lemma server_ok_counted: "server_ok W E s \<Longrightarrow> slots_counted (ss_slots s)"
  by (simp add: server_ok_def slots_ok_def)

lemma forward_relays:
  assumes "server_ok W E s" "length (sl_slots (ss_slots s)) < 2 ^ 32"
    and "forward_handle E T src sid slot flags pl s = Ok (response, s')"
  shows "case find_session (ev_hash E) sid (ss_sessions s) of
      None \<Rightarrow> response = Some (packet_control sid (CtlDisconnected (Some (BySessionId sid)))) \<and> ss_sent s' = ss_sent s
    | Some r \<Rightarrow>
        if se_peer (deref (ss_sessions s) r) \<noteq> src
        then response = Some (packet_control sid (CtlDisconnected (Some (BySessionId sid)))) \<and> ss_sent s' = ss_sent s
        else
          (response = Some (packet_control sid (CtlDisconnected (Some (BySlot slot)))) \<and> ss_sent s' = ss_sent s
            \<and> (\<forall>n. slot_manager_node slot (ss_slots s') = Some n \<longrightarrow>
                 filter (live (ss_sessions s)) (node_refs (ss_sessions s) n) = []))
        \<or> (response = None \<and> (\<exists>d n src_slot.
              slot_manager_node slot (ss_slots s') = Some n \<and> live (ss_sessions s) d
            \<and> n \<in> id_node_id ` set (se_keys (deref (ss_sessions s) d))
            \<and> slot_manager_node src_slot (ss_slots s') = Some (se_node_id (deref (ss_sessions s) r))
            \<and> ss_sent s' = ss_sent s @ [(PKForward \<lparr> fw_session_id = se_session_id (deref (ss_sessions s) d), fw_slot = src_slot,
                 fw_flags = flags, fw_payload = pl \<rparr>, se_peer (deref (ss_sessions s) d))]))"
proof (cases "own_session E src sid s")
  case None
  obtain di s2 where t: "forward_target slot s = (di, s2)" by fastforce
  then show ?thesis
    using None assms(3) forward_target_found [OF assms(1) t]
    by (auto simp: forward_handle_def forward_source_def reply_def own_session_iff split: option.splits)
next
  case (Some r)
  have owner: "find_session (ev_hash E) sid (ss_sessions s) = Some r" "se_peer (deref (ss_sessions s) r) = src"
    using Some by (simp_all add: own_session_iff)
  obtain src_slot sl where sl: "slot_manager_slot (se_node_id (deref (ss_sessions s) r)) (ss_slots s) =
      (Ok (src_slot, sl) :: (u32 \<times> slot_manager, server_error) result)"
    using slot_counted [OF server_ok_counted [OF assms(1)], where ?'a = server_error] by blast
  define s1 where "s1 = touch (clock_at E T) r (s\<lparr> ss_slots := sl \<rparr>)"
  have src: "forward_source E T src sid s = Ok (Some src_slot, s1)" by (simp add: forward_source_def Some sl s1_def)
  have ok: "server_ok W E s1" by (rule server_ok_forward_source [OF assms(1) src])
  have "slots_wf (ss_slots s)"
    using server_ok_slots_ok [OF assms(1)] assms(2) by (simp add: slots_ok_def)
  then have at: "slot_manager_node src_slot sl = Some (se_node_id (deref (ss_sessions s) r))"
    using slot_assigned sl assms(2) by blast
  have s1: "ss_slots s1 = sl" "ss_sent s1 = ss_sent s" "live (ss_sessions s1) = live (ss_sessions s)"
    "node_refs (ss_sessions s1) n = node_refs (ss_sessions s) n" for n by (simp_all add: s1_def)
  obtain di s2 where t: "forward_target slot s1 = (di, s2)" by fastforce
  note found = forward_target_found [OF ok t, unfolded s1]
  show ?thesis
  proof (cases di)
    case None
    then show ?thesis using assms(3) src t owner found by (simp add: forward_handle_def reply_def)
  next
    case (Some dst)
    obtain addr dsid where dst: "dst = (addr, dsid)" by (cases dst)
    have deref1: "se_peer (deref (ss_sessions s1) d) = se_peer (deref (ss_sessions s) d)"
      "se_session_id (deref (ss_sessions s1) d) = se_session_id (deref (ss_sessions s) d)"
      "se_keys (deref (ss_sessions s1) d) = se_keys (deref (ss_sessions s) d)" for d by (simp_all add: s1_def)
    obtain n d where "slot_manager_node slot sl = Some n" "live (ss_sessions s) d"
      "n \<in> id_node_id ` set (se_keys (deref (ss_sessions s) d))" "addr = se_peer (deref (ss_sessions s) d)"
      "dsid = se_session_id (deref (ss_sessions s) d)"
      using found unfolding deref1 Some dst by auto
    moreover have "response = None" "ss_slots s' = sl" "ss_sent s' = ss_sent s @ [(PKForward \<lparr> fw_session_id = dsid,
        fw_slot = src_slot, fw_flags = flags, fw_payload = pl \<rparr>, addr)]"
      using assms(3) src t Some dst found by (auto simp: forward_handle_def no_reply_def send_to_def)
    ultimately show ?thesis using at owner by auto
  qed
qed

text \<open>
  C2: Relaying keeps frames intact and attributes them: in every reachable state, a frame is relayed only when
  its sender's address owns the session it names; it then leaves once, to the address and with the identifier of a
  live session that holds an identity of the node at the requested slot, with its flags and payload unchanged and
  the slot that resolves to the sender's node. When the sender owns no such session, or
  no live session is linked to the node at the slot, nothing is sent on and the sender is told which of the two is gone.
  The handler always returns. Slots are attributed as long as the table fits the 32 bits of a slot number.
\<close>

theorem forward_attributed:
  assumes "server_reaches W E s" "H = session_handler_new E salt" "length (sl_slots (ss_slots s)) < 2 ^ 32"
  shows "\<exists>response s'. forward_handle H T src sid slot flags pl s = Ok (response, s') \<and> (case find_session (ev_hash E) sid (ss_sessions s) of
      None \<Rightarrow> response = Some (packet_control sid (CtlDisconnected (Some (BySessionId sid)))) \<and> ss_sent s' = ss_sent s
    | Some r \<Rightarrow>
        if se_peer (deref (ss_sessions s) r) \<noteq> src
        then response = Some (packet_control sid (CtlDisconnected (Some (BySessionId sid)))) \<and> ss_sent s' = ss_sent s
        else
          (response = Some (packet_control sid (CtlDisconnected (Some (BySlot slot)))) \<and> ss_sent s' = ss_sent s
            \<and> (\<forall>n. slot_manager_node slot (ss_slots s') = Some n \<longrightarrow>
                 filter (live (ss_sessions s)) (node_refs (ss_sessions s) n) = []))
        \<or> (response = None \<and> (\<exists>d n src_slot.
              slot_manager_node slot (ss_slots s') = Some n \<and> live (ss_sessions s) d
            \<and> n \<in> id_node_id ` set (se_keys (deref (ss_sessions s) d))
            \<and> slot_manager_node src_slot (ss_slots s') = Some (se_node_id (deref (ss_sessions s) r))
            \<and> ss_sent s' = ss_sent s @ [(PKForward \<lparr> fw_session_id = se_session_id (deref (ss_sessions s) d), fw_slot = src_slot,
                 fw_flags = flags, fw_payload = pl \<rparr>, se_peer (deref (ss_sessions s) d))])))"
proof -
  have ok: "server_ok W H s" using server_reaches_ok [OF assms(1)] by (simp add: assms(2))
  obtain response s' where h: "forward_handle H T src sid slot flags pl s = Ok (response, s')"
    using forward_handle_Ok [OF server_ok_counted [OF ok]] by blast
  have "ev_hash H = ev_hash E" by (simp add: assms(2) session_handler_new_def)
  then show ?thesis using h forward_relays [OF ok assms(3) h] by simp
qed

theorem forward_attributed_witness:
  "\<exists>s'. forward_handle sample_env sample_times sample_addr sample_sid 1 5 (PVec [9]) sample_registered = no_reply s'
    \<and> (\<exists>src_slot. slot_manager_node src_slot (ss_slots s') = Some (replicate 20 3)
      \<and> ss_sent s' = ss_sent sample_registered @ [(PKForward \<lparr> fw_session_id = sample_sid, fw_slot = src_slot, fw_flags = 5,
          fw_payload = PVec [9] \<rparr>, sample_addr)])"
proof -
  obtain proofs where m: "ss_sessions sample_registered = sample_linked proofs" using sample_registered_sessions(1) by blast
  note sl = sample_registered_sessions(2)
  have d: "deref (sample_linked proofs) 0 = sample_session proofs (AddrValid (1300 * NANOS))"
    by (simp add: sample_linked_def deref_def)
  have own: "own_session sample_env sample_addr sample_sid sample_registered = Some 0"
    using sample_sessions_facts(1) [of proofs] d
    by (simp add: own_session_def m sample_linked_def find_session_def sample_session_def)
  have slot: "slot_manager_slot (replicate 20 3) (slot_manager_new (replicate 20 0)) =
      (Ok (1, \<lparr> sl_nodes = [(replicate 20 0, 0), (replicate 20 3, 1)], sl_slots = [replicate 20 0, replicate 20 3] \<rparr>)
        :: (u32 \<times> slot_manager, server_error) result)"
    by (simp add: slot_manager_slot_def slot_manager_new_def Let_def)
  define s1 where "s1 = touch (clock_at sample_env sample_times) 0 (sample_registered\<lparr> ss_slots :=
    \<lparr> sl_nodes = [(replicate 20 0, 0), (replicate 20 3, 1)], sl_slots = [replicate 20 0, replicate 20 3] \<rparr> \<rparr>)"
  have "live (ss_sessions s1) 0" "map_of (sm_node_sessions (ss_sessions s1)) (replicate 20 3) = Some [0]"
    by (simp_all add: s1_def m sample_live) (simp add: touch_def with_sessions_def update_session_def m sample_linked_def)
  then have "fst (node_session (replicate 20 3) (ss_sessions s1)) = Some 0" by (simp add: node_session_def Let_def)
  moreover have "slot_manager_node 1 (ss_slots s1) = Some (replicate 20 3)" by (simp add: s1_def slot_manager_node_def)
  ultimately obtain addr dsid s2 where t: "forward_target 1 s1 = (Some (addr, dsid), s2)"
    by (simp add: forward_target_def node_session_of_eq Let_def)
  have src: "forward_source sample_env sample_times sample_addr sample_sid sample_registered = Ok (Some 1, s1)"
    using own slot d by (simp add: forward_source_def m sl sample_session_def s1_def)
  obtain s' where h: "forward_handle sample_env sample_times sample_addr sample_sid 1 5 (PVec [9]) sample_registered = Ok (None, s')"
    using src t by (simp add: forward_handle_def no_reply_def)
  have len: "length (sl_slots (ss_slots sample_registered)) < 2 ^ 32" by (simp add: sl slot_manager_new_def)
  show ?thesis
    using forward_attributed [OF sample_reached(2) sample_handler(1) [symmetric] len, of sample_times sample_addr sample_sid 1 5 "PVec [9]"] h own [unfolded own_session_iff] d
    by (auto simp: no_reply_def m sample_live sample_session_def)
qed

text \<open>
  C3: The handshake completes: for a client version the server accepts, the first request is answered with a
  session identifier and a challenge of the configured difficulty. The client's answer to that challenge, produced
  by \<^const>\<open>solve\<close>, is sent from the same address within the next two epochs and handled with the same salt (by the same worker,
  or with a configured salt). When the identifier is not in use, the server confirms it and finds a session with
  the client's address, identities and session key. When the identifier is in use, the session that has it stays as it is, with its old
  session key, and the answer is a confirmation or, if that session belongs to another node, a conflict.
\<close>

theorem handshake_completes:
  assumes "server_reaches W E s2" "H = session_handler_new E salt"
    and "validate_client_version H (qs_client_version req1) = Ok version"
    and "sid = gen_new_challenge H src (epoch T1)" "epoch T1 \<le> epoch T2" "epoch T2 - epoch T1 \<le> 2"
    and "\<forall>x. ev_digest E x \<noteq> []" "list_all2 (signer_ok (ev_ext E)) signers pks" "signers \<noteq> []"
    and "pk_from_slice (ev_ext E) spk = Some spk"
    and "solve (ev_ext E) (ev_digest E) (session_challenge H sid) (ev_difficulty E) signers spk = Ok resp"
    and "qs_challenge_resp req2 = Some resp"
  shows "(\<exists>c. session_handle H T1 rnd src rid1 None req1 s1 =
        reply (session_reply sid rid1 STATUS_OK (Some (RespSession (resp_session_default\<lparr> rs_challenge_req := Some c \<rparr>)))) s1
      \<and> cq_challenge c = session_challenge H sid \<and> cq_difficulty c = ev_difficulty E)
    \<and> (case find_session (ev_hash E) sid (ss_sessions s2) of
      None \<Rightarrow> (\<exists>s3 r proofs.
          session_handle H T2 rnd' src rid2 (Some sid) req2 s2 =
            reply (session_reply sid rid2 STATUS_OK (Some (RespSession resp_session_default))) s3
        \<and> find_session (ev_hash E) sid (ss_sessions s3) = Some r
        \<and> se_peer (deref (ss_sessions s3) r) = src
        \<and> se_node_id (deref (ss_sessions s3) r) = pk_address (ev_ext E) (hd pks)
        \<and> se_keys (deref (ss_sessions s3) r) = map (identity_from_key (ev_ext E)) pks
        \<and> se_session_key (deref (ss_sessions s3) r) = Some (spk, proofs)
        \<and> dom proofs = pk_address (ev_ext E) ` set pks)
    | Some r \<Rightarrow> session_handle H T2 rnd' src rid2 (Some sid) req2 s2 =
        reply (session_reply sid rid2
          (if se_node_id (deref (ss_sessions s2) r) = pk_address (ev_ext E) (hd pks) then STATUS_OK else STATUS_CONFLICT)
          (Some (RespSession resp_session_default))) s2)"
proof -
  have H: "ev_hash H = ev_hash E" "ev_ext H = ev_ext E" "ev_digest H = ev_digest E" "ev_difficulty H = ev_difficulty E"
    by (simp_all add: assms(2) session_handler_new_def)
  have first: "\<exists>c. session_handle H T1 rnd src rid1 None req1 s1 =
        reply (session_reply sid rid1 STATUS_OK (Some (RespSession (resp_session_default\<lparr> rs_challenge_req := Some c \<rparr>)))) s1
    \<and> cq_challenge c = session_challenge H sid \<and> cq_difficulty c = ev_difficulty E"
    using assms(3,4) H by (auto simp: session_handle_def session_handle_start_def prepare_challenge_response_def
        prepare_challenge_def Let_def split: prod.splits)
  have ok: "server_ok W H s2" using server_reaches_ok [OF assms(1)] by (simp add: assms(2))
  have chk: "check_session_id H T2 sid src = Ok True" unfolding assms(4) by (rule check_session_id_recent [OF assms(5,6)])
  show ?thesis
    using first session_response_honest [OF ok _ chk, of signers pks spk resp rid2 "qs_supported_encryptions req2"]
      session_response_repeated [OF _ chk, of s2 _ signers pks spk resp rid2 "qs_supported_encryptions req2"] assms(7-12)
    unfolding H by (cases "find_session (ev_hash E) sid (ss_sessions s2)") (fastforce simp: session_handle_def)+
qed

theorem handshake_completes_witness:
  "\<exists>s3. session_handle sample_env sample_times [] sample_addr 2 (Some sample_sid)
      \<lparr> qs_challenge_req = None, qs_challenge_resp = Some sample_response, qs_supported_encryptions = [],
        qs_identities = [], qs_client_version = [] \<rparr> sample_start =
      reply (session_reply sample_sid 2 STATUS_OK (Some (RespSession resp_session_default))) s3
    \<and> find_session (\<lambda>_. 0) sample_sid (ss_sessions s3) \<noteq> None"
proof -
  define req where "req = \<lparr> qs_challenge_req = None, qs_challenge_resp = Some sample_response, qs_supported_encryptions = [],
        qs_identities = [], qs_client_version = [] \<rparr>"
  have reach: "server_reaches sample_handlers sample_env sample_start" unfolding sample_start_def by (rule server_reaches.start)
  have v: "validate_client_version sample_env (qs_client_version req) = Ok []"
    by (simp add: validate_client_version_def req_def ok_or_def)
  have fresh: "find_session (ev_hash sample_env) sample_sid (ss_sessions sample_start) = None"
    by (simp add: sample_start_def server_new_def server_start_def set_mode_def session_manager_new_def find_session_def shard_get_def
        shards_new_def session_slot_def)
  have pk: "pk_from_slice (ev_ext sample_env) (replicate 64 4) = Some (replicate 64 4)" by (simp add: sample_ext_def)
  show ?thesis
    using handshake_completes [OF reach sample_handler(1) [symmetric] v, of sample_sid sample_addr sample_times sample_times
        "[sample_signer]" "[replicate 64 3]" "replicate 64 4" sample_response req "[]" 1 sample_start "[]" 2] fresh pk sample_signer_ok sample_solved
    unfolding req_def [symmetric] by (auto simp: sample_sid_derived sample_challenge req_def)
qed

section \<open>Absence of panics\<close>

text \<open>
  Clock readings under which the arithmetic of the handlers is safe: at least two epochs after 1970, not less
  than the time the server has been running, and seconds that leave room for a 32-bit offset.
\<close>

definition times_ok :: "env \<Rightarrow> times \<Rightarrow> bool" where
  "times_ok E T \<longleftrightarrow> 2 \<le> epoch T \<and> tm_now T - ev_server_start E \<le> tm_unix T \<and> tm_unix T div NANOS < 2 ^ 63"

lemma reply_no_panic [simp]: "reply p s \<noteq> Panic" "no_reply s \<noteq> Panic"
  by (simp_all add: reply_def no_reply_def)

lemma check_session_id_no_panic: "2 \<le> epoch T \<Longrightarrow> check_session_id E T sid addr \<noteq> Panic"
proof -
  assume "2 \<le> epoch T"
  moreover then have "1 \<le> epoch T" by (simp add: word_le_nat_alt)
  ultimately show ?thesis by (simp add: check_session_id_def sub_panic_def)
qed

lemma state_decoder_small:
  assumes "times_ok E T"
  shows "\<exists>rel. state_decoder E T = Ok rel \<and> unat rel < 2 ^ 63"
proof -
  let ?n = "(tm_unix T - (tm_now T - ev_server_start E)) div NANOS"
  have "?n \<le> tm_unix T div NANOS" by (simp add: div_le_mono)
  then have "?n < 2 ^ 63" using assms by (simp add: times_ok_def)
  moreover have "unat (of_nat ?n :: u64) \<le> ?n" by (simp add: unsigned_of_nat take_bit_nat_less_eq_self)
  ultimately show ?thesis using assms by (auto simp: state_decoder_def ts_decoder_new_def times_ok_def)
qed

lemma to_node_info_no_panic:
  assumes r: "unat rel < 2 ^ 63" and sl: "slots_counted sl"
  shows "(to_node_info E rel se n pk sl :: (resp_node \<times> slot_manager, 'e) result) \<noteq> Panic"
proof -
  have t: "unat (se_ts se) < 2 ^ 32" using unat_u32_lt [of "se_ts se"] by simp
  moreover have "unat (ucast (se_ts se) :: u64) = unat (se_ts se)"
    using t by (simp add: unsigned_ucast_eq take_bit_nat_eq_self)
  ultimately have "unat (ucast (se_ts se) :: u64) + unat rel < 2 ^ LENGTH(64)" using r by simp
  then have "(ts_decode rel (se_ts se) :: (u64, 'e) result) \<noteq> Panic"
    unfolding ts_decode_def by (metis add_panic_unat result.distinct(3))
  then show ?thesis
    using slot_counted [OF sl, of n, where ?'a = 'e]
    by (auto simp: to_node_info_def rbind_eq_Panic_iff Let_def split: prod.splits)
qed

lemma to_node_info_counted:
  assumes "to_node_info E rel se n pk sl = (Ok (node, sl') :: (resp_node \<times> slot_manager, 'e) result)" "slots_counted sl"
  shows "slots_counted sl'"
  using assms(1) slot_counted [OF assms(2), of n, where ?'a = 'e]
  by (auto simp: to_node_info_def rbind_eq_Ok_iff Let_def split: prod.splits)

lemma node_infos_no_panic: "unat rel < 2 ^ 63 \<Longrightarrow> slots_counted sl \<Longrightarrow> node_infos E rel m rs sl \<noteq> Panic"
  by (induction rs arbitrary: sl) (auto simp: rbind_eq_Panic_iff to_node_info_no_panic dest: to_node_info_counted)

lemma session_handle_no_panic: "2 \<le> epoch T \<Longrightarrow> session_handle E T rnd src rid sid req s \<noteq> Panic"
  by (auto simp: session_handle_def session_handle_response_def session_handle_start_def validate_client_version_def
      recover_identities_no_panic check_session_id_no_panic rbind_eq_Panic_iff new_session_def ok_or_def Let_def
      split: option.splits result.splits prod.splits if_splits)

lemma query_no_panic:
  assumes "times_ok E T" and sl: "slots_counted (ss_slots s)"
  shows "slot_handle E T src rid sid slot s \<noteq> Panic" "node_handle E T src rid sid node s \<noteq> Panic"
    "neighbours_handle E T src rid sid cnt s \<noteq> Panic"
proof -
  obtain rel where d: "state_decoder E T = (Ok rel :: (u64, server_error) result)" "unat rel < 2 ^ 63" using state_decoder_small [OF assms(1)] by blast
  have n: "node_reply E rel rid sid r k s1 \<noteq> Panic" if "ss_slots s1 = ss_slots s" for r k s1
    using that sl by (auto simp: node_reply_def rbind_eq_Panic_iff to_node_info_no_panic [OF d(2)])
  have f: "ss_slots s2 = ss_slots s" if "node_session_of k (touch c r s) = (x, s2)" for k c r x s2
    using that by (auto simp: node_session_of_eq)
  show "slot_handle E T src rid sid slot s \<noteq> Panic" "node_handle E T src rid sid node s \<noteq> Panic"
    by (auto simp: slot_handle_def node_handle_def d n f Let_def split: option.splits prod.splits)
  show "neighbours_handle E T src rid sid cnt s \<noteq> Panic"
    by (simp add: neighbours_handle_def d rbind_eq_Panic_iff node_infos_no_panic [OF d(2) sl] split: option.splits prod.splits)
qed

lemma other_no_panic:
  "register_handle E T src rid sid s \<noteq> Panic" "rc_handle E T src rid sid node s \<noteq> Panic"
  "handle_ping E T src rid sid s \<noteq> Panic"
  by (simp_all add: register_handle_def rc_handle_def handle_ping_def Let_def split: option.splits prod.splits if_splits)

lemma forward_no_panic: "slots_counted (ss_slots s) \<Longrightarrow> forward_handle E T src sid slot flags pl s \<noteq> Panic"
  by (drule forward_handle_Ok [of s E T src sid slot flags pl]) auto

lemma session_id_no_panic: "session_id_from_wire bs \<noteq> Panic" "session_id_try_from bs \<noteq> Panic"
  by (simp_all add: session_id_from_wire_def session_id_try_from_def rbind_eq_Panic_iff)

lemma handle_data_no_panic: "times_ok E T \<Longrightarrow> slots_counted (ss_slots s) \<Longrightarrow> handle_data E T rnd src pkt s \<noteq> Panic"
  by (auto simp: handle_data_def handle_request_def rbind_eq_Panic_iff map_err_eq_Panic query_no_panic other_no_panic forward_no_panic session_id_no_panic
      session_handle_no_panic times_ok_def
      split: packet_kind.splits option.splits packet_body.splits control_kind.splits disconnected_by.splits
        result.splits request_kind.splits)

text \<open>
  C10: No datagram stops a worker: under sane clock readings, decoding and handling any bytes, from any address,
  in any state the server can reach and in any other whose slot table has as many nodes as slots, ends in a new state or in an error
  that drops the datagram, never in a panic. A table with a duplicate, which only a damaged file can bring, is excluded: there the
  debug assertion of the slot manager fails.
\<close>

theorem worker_never_panics:
  assumes "prost_keys_ok (ev_prost E)" "H = session_handler_new E salt" "times_ok H T"
    and "server_reaches W E s \<or> slots_counted (ss_slots s)"
  shows "worker H T rnd pt bs src s \<noteq> Panic"
proof -
  have "prost_keys_ok (ev_prost H)" using assms(1) by (simp add: assms(2) session_handler_new_def)
  moreover have "slots_counted (ss_slots s)" using assms(4) server_reaches_ok server_ok_counted by blast
  ultimately show ?thesis
    using datagram_decode_total [of "ev_prost H" bs] handle_data_no_panic [OF assms(3)]
    by (auto simp: worker_def rbind_eq_Panic_iff split: packet_type.splits option.splits)
qed

theorem worker_never_panics_witness:
  "worker sample_env sample_times [] TypeData [0x12, 1] sample_addr sample_registered \<noteq> Panic"
proof (rule worker_never_panics [OF _ sample_handler(1) [symmetric]])
  show "prost_keys_ok (ev_prost sample_env)"
    using sample_prost_ok(2) by (simp add: sample_env_def prost_keys_ok_def)
  show "times_ok sample_env sample_times"
    by (simp add: times_ok_def) (simp add: sample_times_def NANOS_def)
  show "server_reaches sample_handlers sample_env sample_registered \<or> slots_counted (ss_slots sample_registered)"
    using sample_reached(2) by blast
qed

section \<open>Requests of strangers\<close>

text \<open>
  C14: A ping, a request for a node, a slot or neighbours, or a request for a reverse connection changes nothing for a sender that does
  not own the session it names: it is refused without touching sessions, slots or pending checks, and nothing
  is sent to anybody else. Registrations, which do not check the sender, requests to open a session and frames to be forwarded
  are not among these requests.
\<close>

theorem strangers_refused:
  assumes "\<forall>r. find_session (ev_hash E) sid (ss_sessions s) = Some r \<longrightarrow> se_peer (deref (ss_sessions s) r) \<noteq> src"
    and "times_ok E T" "request \<in> {ReqPing, ReqNode node f, ReqSlot slot f, ReqReverseConnection node, ReqNeighbours cnt f}"
  shows "\<exists>response s'. handle_request E T rnd src rid (Some sid) request s = Ok (response, s')
    \<and> ss_sessions s' = ss_sessions s \<and> ss_slots s' = ss_slots s \<and> ss_sent s' = ss_sent s
    \<and> ss_queue s' = ss_queue s \<and> ss_requests s' = ss_requests s
    \<and> response \<in> insert None (insert (Some (packet_control sid (CtlDisconnected (Some (BySessionId sid)))))
        ((\<lambda>kind. Some (packet_response rid sid STATUS_UNAUTHORIZED kind))
          ` {RespNode resp_node_default, RespNeighbours [], RespReverseConnection}))"
proof -
  obtain rel where d: "state_decoder E T = (Ok rel :: (u64, server_error) result)" using state_decoder_small [OF assms(2)] by blast
  have "own_session E src sid s = None" using assms(1) by (simp add: own_session_iff)
  then show ?thesis
    using assms(3)
    by (auto simp: handle_request_def handle_ping_def node_handle_def slot_handle_def rc_handle_def neighbours_handle_def
        d reply_def no_reply_def mark_session_def split: option.splits)
qed

theorem strangers_refused_witness:
  "\<exists>response s'. handle_request sample_env sample_times [] (sample_addr\<lparr> sa_port := 9 \<rparr>) 7 (Some sample_sid) (ReqNode (replicate 20 3) False)
      sample_registered = Ok (response, s') \<and> ss_sessions s' = ss_sessions sample_registered"
proof -
  obtain proofs where m: "ss_sessions sample_registered = sample_linked proofs" using sample_registered_sessions(1) by blast
  have "\<forall>r. find_session (ev_hash sample_env) sample_sid (ss_sessions sample_registered) = Some r \<longrightarrow>
      se_peer (deref (ss_sessions sample_registered) r) \<noteq> sample_addr\<lparr> sa_port := 9 \<rparr>"
    using sample_sessions_facts(1) [of proofs]
    by (simp add: m sample_linked_def find_session_def sample_session_def deref_def sample_addr_def)
  moreover have "times_ok sample_env sample_times"
    by (simp add: times_ok_def) (simp add: sample_times_def NANOS_def)
  ultimately show ?thesis
    using strangers_refused [of sample_env sample_sid sample_registered "sample_addr\<lparr> sa_port := 9 \<rparr>" sample_times
        "ReqNode (replicate 20 3) False" "replicate 20 3" False 0 0 "[]" 7] by blast
qed

text \<open>
  C39: Registration does not check the sender: a registration that names a session of another address is
  accepted, and when the address it came from was checked within the last minute, the verdict about that address is
  recorded for the session: a positive one makes the server announce the owner's address, which it never reached.
\<close>

theorem register_ignores_sender:
  assumes "manager_reaches (ev_hash E) (ss_sessions s)" "find_session (ev_hash E) sid (ss_sessions s) = Some r"
    and "se_peer (deref (ss_sessions s) r) \<noteq> src" "ss_ip_cache s src = Some (ts, v)" "tm_now T - ts < IP_CACHE_AGE"
  shows "\<exists>s' se. register_handle E T src rid sid s =
        reply (packet_response rid sid STATUS_OK (RespRegister (option_list (session_endpoint (ev_v6 E) se)))) s'
    \<and> deref (ss_sessions s') r = se \<and> se_peer se = se_peer (deref (ss_sessions s) r)
    \<and> se_addr_status se = (if v then AddrValid (tm_now T) else AddrInvalid (tm_now T))"
proof -
  let ?st = "addr_set_valid (tm_now T) v"
  let ?s = "set_addr_status r ?st (touch (clock_at E T) r s)"
  have wf: "manager_wf (ev_hash E) (ss_sessions s)" using assms(1) by (rule manager_reaches_wf)
  have lv: "live (ss_sessions s) r"
    using assms(2) manager_wfD(1) [OF wf] by (auto simp: live_def find_session_def st.vals_get)
  have len: "r < length (sm_heap (ss_sessions s))" using wf lv by (rule live_bound)
  have "manager_wf (ev_hash E) (ss_sessions ?s)"
    using assms(1) by (intro manager_reaches_wf)
      (simp add: set_addr_status_def touch_def with_sessions_def manager_reaches.addr manager_reaches.touch)
  then have "deref (ss_sessions (with_sessions (link_sessions r) ?s)) r = deref (ss_sessions ?s) r"
    using link_sessions_wf [of "ev_hash E" "ss_sessions ?s" r] lv by (simp add: with_sessions_def deref_def)
  moreover have "deref (ss_sessions ?s) r = (deref (ss_sessions s) r)\<lparr> se_ts := ck_ts (clock_at E T), se_addr_status := ?st \<rparr>"
    using len by (simp add: set_addr_status_def touch_def with_sessions_def update_session_def deref_def)
  moreover have "register_handle E T src rid sid s =
      reply (packet_response rid sid STATUS_OK (RespRegister (option_list (session_endpoint (ev_v6 E) (deref (ss_sessions ?s) r)))))
        (with_sessions (link_sessions r) ?s)"
    using assms(2,4,5) by (simp add: register_handle_def Let_def) (simp add: touch_def with_sessions_def Let_def)
  ultimately show ?thesis
    by (intro exI [of _ "with_sessions (link_sessions r) ?s"] exI [of _ "deref (ss_sessions ?s) r"])
      (simp add: addr_set_valid_def)
qed

theorem register_ignores_sender_witness:
  "\<exists>s'. register_handle sample_env sample_times (sample_addr\<lparr> sa_port := 9 \<rparr>) 4 [5]
      (sample_start\<lparr> ss_sessions := sample_manager, ss_ip_cache := [sample_addr\<lparr> sa_port := 9 \<rparr> \<mapsto> (1290 * NANOS, True)] \<rparr>) =
      reply (packet_response 4 [5] STATUS_OK (RespRegister [\<lparr> em_protocol = PROTOCOL_UDP, em_address = ''127.0.0.1'',
        em_port = 7464 \<rparr>])) s'"
proof -
  let ?src = "sample_addr\<lparr> sa_port := 9 \<rparr>"
  let ?s = "sample_start\<lparr> ss_sessions := sample_manager, ss_ip_cache := [?src \<mapsto> (1290 * NANOS, True)] \<rparr>"
  have r: "manager_reaches (ev_hash sample_env) (ss_sessions ?s)" by (simp add: sample_manager_reaches)
  have f: "find_session (ev_hash sample_env) [5] (ss_sessions ?s) = Some 0" by simp
  have p: "se_peer (deref (ss_sessions ?s) 0) = sample_addr" by (simp add: sample_eval)
  have ne: "se_peer (deref (ss_sessions ?s) 0) \<noteq> ?src" unfolding p by (simp add: sample_addr_def)
  have shown: "show_ip sample_v6 (sa_ip sample_addr) = ''127.0.0.1''" by code_simp
  obtain s' se where h: "register_handle sample_env sample_times ?src 4 [5] ?s =
      reply (packet_response 4 [5] STATUS_OK (RespRegister (option_list (session_endpoint (ev_v6 sample_env) se)))) s'"
    and "se_peer se = sample_addr" "se_addr_status se = AddrValid (tm_now sample_times)"
    using register_ignores_sender [OF r f ne, of "1290 * NANOS" True sample_times 4] p
    by (auto simp: NANOS_def IP_CACHE_AGE_def)
  then have "session_endpoint (ev_v6 sample_env) se = Some \<lparr> em_protocol = PROTOCOL_UDP, em_address = ''127.0.0.1'', em_port = 7464 \<rparr>"
    using shown by (simp add: session_endpoint_def) (simp add: sample_addr_def)
  then show ?thesis using h by (auto simp: option_list_def)
qed

section \<open>Serving descriptions\<close>

lemma identities_survive:
  assumes "\<forall>i \<in> set ids. identity_wf X i \<and> pk_from_slice X (id_public_key i) = Some (id_public_key i)"
  shows "collect_results (identity_from_proto X) (map identity_to_proto ids) = Ok ids"
  using assms
  by (auto simp: collect_results_Ok_iff list_all2_conv_all_nth identity_from_proto_Ok identity_to_proto_def identity_wf_def
      identity_from_key_def)

lemma recovered_keys:
  assumes "recovered X D ch d cr remote nid ids (Some (pk, proofs))"
    and "\<forall>sig m k. recover X sig m = Ok k \<longrightarrow> pk_from_slice X k = Some k" "\<forall>bs k. pk_from_slice X bs = Some k \<longrightarrow> k = bs"
    and "inj_on (pk_address X) (id_public_key ` set ids)"
  shows "ids \<noteq> []" "nid = id_node_id (hd ids)" "pk_from_slice X pk = Some pk"
    and "\<forall>i \<in> set ids. identity_wf X i \<and> pk_from_slice X (id_public_key i) = Some (id_public_key i)"
    and "list_all2 (\<lambda>i p. p \<noteq> [] \<and> verify_session_key X pk p i = Ok ())
      ids (map (\<lambda>i. unwrap_or_default (proofs (id_node_id i))) ids)"
proof -
  note r = assms(1) [unfolded recovered_def, simplified]
  have pk: "pk = cr_session_pub_key cr" using r assms(3) by blast
  show "ids \<noteq> []" "nid = id_node_id (hd ids)" "pk_from_slice X pk = Some pk" using r pk by simp_all
  show wf: "\<forall>i \<in> set ids. identity_wf X i \<and> pk_from_slice X (id_public_key i) = Some (id_public_key i)"
  proof
    fix i assume "i \<in> set ids"
    then obtain sig where "recover X sig (sha256 X (cr_solution cr)) = Ok (id_public_key i)" "identity_wf X i"
      using r by (auto simp: list_all2_conv_all_nth in_set_conv_nth)
    then show "identity_wf X i \<and> pk_from_slice X (id_public_key i) = Some (id_public_key i)" using assms(2) by blast
  qed
  have "\<exists>p. proofs (id_node_id i) = Some p \<and> p \<noteq> [] \<and> verify_session_key X pk p i = Ok ()" if i: "i \<in> set ids" for i
  proof -
    obtain p where p: "proofs (id_node_id i) = Some p" using r i by blast
    then obtain j where j: "j \<in> set ids" "id_node_id j = id_node_id i" "verify_session_key X pk p j = Ok ()"
      using r pk by blast
    then have "id_public_key j = id_public_key i"
      using wf i assms(4) by (auto simp: identity_wf_def inj_on_def)
    then show ?thesis
      using p j recover_neq_Nil [of X p "hash_session_key X pk"] by (auto simp: verify_session_key_Ok)
  qed
  then show "list_all2 (\<lambda>i p. p \<noteq> [] \<and> verify_session_key X pk p i = Ok ())
      ids (map (\<lambda>i. unwrap_or_default (proofs (id_node_id i))) ids)"
    by (fastforce simp: list.rel_map unwrap_or_default_def intro!: list.rel_refl_strong)
qed

lemma node_info_of_proofs:
  assumes "rn_session_pub_key value = pk" "pk \<noteq> []" "pk_from_slice X pk = Some pk" "ids \<noteq> []"
    and "rn_session_key_proofs value = ps" "rn_session_key_proof value = hd ps"
    and l: "list_all2 (\<lambda>i p. p \<noteq> [] \<and> verify_session_key X pk p i = Ok ()) ids ps"
  shows "\<exists>auth. node_info_session_key X value ids (hd ids) = Ok (auth, Some pk) \<and> set auth = id_node_id ` set ids"
proof -
  obtain i ids' p ps' where c: "ids = i # ids'" "ps = p # ps'" using l assms(4) by (cases ids; cases ps) auto
  obtain auth where "authenticate_identities X pk (zip ids ps) [id_node_id (hd ids)] = Ok auth"
    "set auth = set [id_node_id (hd ids)] \<union> id_node_id ` set ids"
    using authenticate_all_ok [OF l] by blast
  then show ?thesis
    using assms list_all2_lengthD [OF l] c by (auto simp: node_info_session_key_def ok_or_def)
qed

text \<open>
  C4: What the server serves convinces a client: in any reachable state, the description of a session that has a session
  key and an IPv4 address, in the variant with the public key (the answer to a request for a node or a slot; the
  entries of a list of neighbours carry no key), is accepted by \<^const>\<open>node_info_try_from\<close> and yields the identities
  of the session, its session key with every identity authenticated, and its address exactly when a check found it
  reachable. It is stated for a signature library whose keys are the bytes they are read from, recovers valid keys
  only and does not give two keys of the session one address.
\<close>

theorem served_node_accepted:
  assumes "server_reaches W E s" "find_session (ev_hash E) sid (ss_sessions s) = Some r" "se = deref (ss_sessions s) r"
    and "se_session_key se = Some (pk, proofs)" "to_node_info E rel se n True sl = Ok (value, sl')"
    and "\<forall>sig m k. recover (ev_ext E) sig m = Ok k \<longrightarrow> pk_from_slice (ev_ext E) k = Some k"
    and "\<forall>bs k. pk_from_slice (ev_ext E) bs = Some k \<longrightarrow> k = bs \<and> k \<noteq> []"
    and "inj_on (pk_address (ev_ext E)) (id_public_key ` set (se_keys se))" "sa_ip (se_peer se) = IpAddrV4 a b c d"
  shows "\<exists>info. node_info_try_from (ev_ext E) V value = Ok info \<and> ni_identities info = se_keys se
    \<and> ni_session_key info = Some pk \<and> set (ni_authenticated_identities info) = id_node_id ` set (se_keys se)
    \<and> default_node_id info = (Ok (se_node_id se) :: (node_id, core_error) result)
    \<and> ni_endpoints info = (if addr_is_valid (se_addr_status se)
        then [\<lparr> ep_protocol = PROTOCOL_UDP, ep_address = se_peer se \<rparr>] else [])"
proof -
  let ?X = "ev_ext E"
  have ok: "server_ok W E s" using assms(1) by (rule server_reaches_ok)
  have "session_bound W E se"
    using ok live_bound [OF manager_reaches_wf [OF server_ok_reaches [OF ok]] found_live [OF ok assms(2)]]
    by (auto simp: server_ok_def deref_def assms(3))
  then obtain ch df cr where rec: "recovered ?X (ev_digest E) ch df cr None (se_node_id se) (se_keys se)
      (Some (pk, proofs))"
    unfolding session_bound_def assms(4) Let_def by blast
  have "\<forall>bs k. pk_from_slice ?X bs = Some k \<longrightarrow> k = bs" using assms(7) by blast
  note keyed = recovered_keys [OF rec assms(6) this assms(8)]
  have nonempty: "pk \<noteq> []" using keyed(3) assms(7) by blast
  have v: "rn_session_pub_key value = pk" "rn_session_key_proofs value = map (\<lambda>i. unwrap_or_default (proofs (id_node_id i))) (se_keys se)"
    "rn_session_key_proof value = hd (rn_session_key_proofs value)" "rn_identities value = map identity_to_proto (se_keys se)"
    "rn_endpoints value = option_list (session_endpoint (ev_v6 E) se)"
    using assms(4,5) keyed(1)
    by (auto simp: to_node_info_def session_key_fields_def rbind_eq_Ok_iff Let_def neq_Nil_conv case_prod_unfold)
  obtain auth where auth: "node_info_session_key ?X value (se_keys se) (hd (se_keys se)) = Ok (auth, Some pk)"
    "set auth = id_node_id ` set (se_keys se)"
    using node_info_of_proofs [OF v(1) nonempty keyed(3) keyed(1) v(2) _ keyed(5)] v(2,3) by auto
  have ep: "collect_results (\<lambda>e. map_err endpoint_core_error (endpoint_try_from V e)) (rn_endpoints value) =
      Ok (if addr_is_valid (se_addr_status se) then [\<lparr> ep_protocol = PROTOCOL_UDP, ep_address = se_peer se \<rparr>] else [])"
    using endpoint_roundtrip_v4(1) [of "\<lparr> ep_protocol = PROTOCOL_UDP, ep_address = se_peer se \<rparr>" a b c d V] assms(9)
    by (cases "se_addr_status se") (simp_all add: v option_list_def session_endpoint_def endpoint_to_proto_def valid_protocol_def)
  obtain i ids where c: "se_keys se = i # ids" using keyed(1) by (cases "se_keys se") auto
  show ?thesis
    using auth ep identities_survive [OF keyed(4)] keyed(2) unfolding v(4) c
    by (simp add: node_info_try_from_def default_node_id_def v(4) c)
qed

lemma sample_registered_facts:
  "\<exists>proofs. ss_sessions sample_registered = sample_linked proofs
    \<and> find_session (\<lambda>_. 0) sample_sid (ss_sessions sample_registered) = Some 0
    \<and> deref (ss_sessions sample_registered) 0 = sample_session proofs (AddrValid (1300 * NANOS))"
proof -
  obtain proofs where m: "ss_sessions sample_registered = sample_linked proofs" using sample_registered_sessions(1) by blast
  then show ?thesis
    using sample_sessions_facts(1) [of proofs]
    by (intro exI [of _ proofs]) (simp add: find_session_def sample_linked_def deref_def)
qed

theorem served_node_accepted_witness:
  "\<exists>value sl' info. to_node_info sample_env 0 (deref (ss_sessions sample_registered) 0) (replicate 20 3) True (ss_slots sample_registered)
      = (Ok (value, sl') :: (resp_node \<times> slot_manager, core_error) result)
    \<and> node_info_try_from sample_ext sample_v6 value = Ok info \<and> ni_session_key info = Some (replicate 64 4)
    \<and> ni_endpoints info = [\<lparr> ep_protocol = PROTOCOL_UDP, ep_address = sample_addr \<rparr>]"
proof -
  obtain proofs where f: "find_session (ev_hash sample_env) sample_sid (ss_sessions sample_registered) = Some 0"
    and d: "deref (ss_sessions sample_registered) 0 = sample_session proofs (AddrValid (1300 * NANOS))"
    using sample_registered_facts by auto
  have key: "se_session_key (sample_session proofs (AddrValid (1300 * NANOS))) = Some (replicate 64 4, proofs)"
    by (simp add: sample_session_def)
  obtain val sl' where t: "to_node_info sample_env 0 (sample_session proofs (AddrValid (1300 * NANOS))) (replicate 20 3) True
      (ss_slots sample_registered) = (Ok (val, sl') :: (resp_node \<times> slot_manager, core_error) result)"
    using slot_counted [OF server_ok_counted [OF server_reaches_ok [OF sample_reached(2)]], of "replicate 20 3", where ?'a = core_error]
    by (auto simp: to_node_info_def sample_session_def ts_decode_def add_panic_def Let_def case_prod_unfold)
  have rec: "\<forall>sig m k. recover (ev_ext sample_env) sig m = Ok k \<longrightarrow> pk_from_slice (ev_ext sample_env) k = Some k"
    by (auto simp: recover_def sample_ext_def SIGNATURE_SIZE_def ok_or_def rbind_eq_Ok_iff Relay_Prelude.slice_def
        split: if_splits option.splits)
  have slice: "\<forall>bs k. pk_from_slice (ev_ext sample_env) bs = Some k \<longrightarrow> k = bs \<and> k \<noteq> []"
    by (auto simp: sample_ext_def)
  show ?thesis
    using served_node_accepted [OF sample_reached(2) f d [symmetric] key t rec slice, of 127 0 0 1 sample_v6]
    by (auto simp: d t) (auto simp: sample_session_def sample_addr_def)
qed

section \<open>Address checks end\<close>

lemma resolve_unreached:
  assumes "server_ok W E s" "live (ss_sessions s) r" "s' = resolve_request E T False r how s"
  shows "server_ok W E s'" "live (ss_sessions s') = live (ss_sessions s)"
    and "se_session_id (deref (ss_sessions s') d) = se_session_id (deref (ss_sessions s) d)"
    and "se_peer (deref (ss_sessions s') d) = se_peer (deref (ss_sessions s) d)"
    and "ss_sent s' = ss_sent s @ (case how of ResolveControl \<Rightarrow> [] | ResolveRegister rid \<Rightarrow>
      [(PKPacket (packet_response rid (se_session_id (deref (ss_sessions s) r)) STATUS_OK (RespRegister [])),
        se_peer (deref (ss_sessions s) r))])"
proof -
  show "server_ok W E s'" unfolding assms(3) using assms(1,2) by (rule server_ok_resolve)
  define m where "m = update_session r (se_addr_status_update (\<lambda>_. AddrInvalid (tm_now T))) (ss_sessions s)"
  have fields: "live m = live (ss_sessions s)" "se_session_id (deref m d) = se_session_id (deref (ss_sessions s) d)"
    "se_peer (deref m d) = se_peer (deref (ss_sessions s) d)" for d by (simp_all add: m_def update_session_deref)
  have wf: "manager_wf (ev_hash E) (ss_sessions s)" by (rule manager_reaches_wf [OF server_ok_reaches [OF assms(1)]])
  have "manager_wf (ev_hash E) m"
    unfolding m_def using server_ok_reaches [OF assms(1)] by (intro manager_reaches_wf manager_reaches.addr)
  then have link: "sm_heap (link_sessions r m) = sm_heap m \<and> sm_sessions (link_sessions r m) = sm_sessions m
      \<and> sm_held (link_sessions r m) = sm_held m"
    using link_sessions_wf assms(2) fields(1) by metis
  have "se_addr_status (deref m r) = AddrInvalid (tm_now T)"
    using live_bound [OF wf assms(2)] by (simp add: m_def update_session_def deref_def)
  then have none: "session_endpoint V (deref m r) = None" for V by (simp add: session_endpoint_def)
  have res: "ss_sessions s' = (case how of ResolveControl \<Rightarrow> m | ResolveRegister _ \<Rightarrow> link_sessions r m)"
    "ss_sent s' = ss_sent s @ (case how of ResolveControl \<Rightarrow> [] | ResolveRegister rid \<Rightarrow>
      [(PKPacket (packet_response rid (se_session_id (deref m r)) STATUS_OK (RespRegister [])), se_peer (deref m r))])"
    using assms(3) none
    by (auto simp: m_def resolve_request_def addr_set_valid_def set_addr_status_def with_sessions_def send_to_def option_list_def Let_def
        split: resolve.splits)
  have l: "live (ss_sessions s') = live m" "deref (ss_sessions s') d = deref m d" for d
    using link by (auto simp: res live_def deref_def fun_eq_iff split: resolve.splits)
  show "live (ss_sessions s') = live (ss_sessions s)" by (simp add: l fields)
  show "se_session_id (deref (ss_sessions s') d) = se_session_id (deref (ss_sessions s) d)"
    "se_peer (deref (ss_sessions s') d) = se_peer (deref (ss_sessions s) d)" by (simp_all add: l fields)
  show "ss_sent s' = ss_sent s @ (case how of ResolveControl \<Rightarrow> [] | ResolveRegister rid \<Rightarrow>
      [(PKPacket (packet_response rid (se_session_id (deref (ss_sessions s) r)) STATUS_OK (RespRegister [])),
        se_peer (deref (ss_sessions s) r))])"
    by (cases how) (simp_all add: res fields)
qed

text \<open>What the server answers to a registration whose address could not be reached.\<close>

definition refusals :: "session_manager \<Rightarrow> check_request list \<Rightarrow> (packet_kind \<times> socket_addr) list" where
  "refusals m reqs = concat (map (\<lambda>req.
     if live m (cq_session_w req) then
       (case cq_resolve req of
          ResolveControl \<Rightarrow> []
        | ResolveRegister rid \<Rightarrow>
            [(PKPacket (packet_response rid (se_session_id (deref m (cq_session_w req))) STATUS_OK (RespRegister [])),
              se_peer (deref m (cq_session_w req)))])
     else []) reqs)"

lemma refusals_cong:
  assumes "live m = live m'" "\<And>d. se_session_id (deref m d) = se_session_id (deref m' d)"
    and "\<And>d. se_peer (deref m d) = se_peer (deref m' d)"
  shows "refusals m reqs = refusals m' reqs"
  using assms by (auto simp: refusals_def intro!: arg_cong [of _ _ concat] map_cong split: resolve.splits)

lemma retry_expired:
  assumes "server_ok W E s" "\<forall>req \<in> set reqs. timeout < tm_now T - cq_ts req"
  shows "\<exists>s'. retry_requests E T timeout reqs s = ([], [], s') \<and> server_ok W E s'
    \<and> (\<forall>qs. refusals (ss_sessions s') qs = refusals (ss_sessions s) qs) \<and> ss_sent s' = ss_sent s @ refusals (ss_sessions s) reqs"
  using assms
proof (induction reqs arbitrary: s)
  case (Cons req reqs)
  show ?case
  proof (cases "live (ss_sessions s) (cq_session_w req)")
    case True
    define s1 where "s1 = resolve_request E T False (cq_session_w req) (cq_resolve req) s"
    note r = resolve_unreached [OF Cons.prems(1) True s1_def]
    have c: "refusals (ss_sessions s1) qs = refusals (ss_sessions s) qs" for qs by (rule refusals_cong) (simp_all add: r)
    show ?thesis
      using Cons.IH [OF r(1)] Cons.prems(2) True c r(5) s1_def by (simp add: refusals_def split: resolve.splits)
  next
    case False
    then show ?thesis using Cons.IH [OF Cons.prems(1)] Cons.prems(2) by (simp add: refusals_def)
  qed
qed (simp add: refusals_def)

lemma retry_entries_expired:
  assumes "server_ok W E s" "\<forall>(a, reqs) \<in> set entries. \<forall>req \<in> set reqs. timeout < tm_now T - cq_ts req"
  shows "\<exists>s'. retry_entries E T timeout entries s = (map (\<lambda>(a, _). (a, [])) entries, [], s')
    \<and> ss_sent s' = ss_sent s @ refusals (ss_sessions s) (concat (map snd entries))"
  using assms
proof (induction entries arbitrary: s)
  case (Cons e entries)
  obtain a reqs where e: "e = (a, reqs)" by (cases e)
  obtain s1 where "retry_requests E T timeout reqs s = ([], [], s1)" "server_ok W E s1"
    "\<forall>qs. refusals (ss_sessions s1) qs = refusals (ss_sessions s) qs" "ss_sent s1 = ss_sent s @ refusals (ss_sessions s) reqs"
    using retry_expired [OF Cons.prems(1), of reqs timeout T] Cons.prems(2) e by auto
  then show ?case using Cons.IH [of s1] Cons.prems(2) e by (auto simp: refusals_def)
qed (simp add: refusals_def)

text \<open>
  C15: Address checks end: once all pending checks are older than the timeout, the next retry round leaves none
  pending, and every registration among them whose session is alive has been answered once with an empty list
  of endpoints, at the address of its session; nothing else is sent.
\<close>

theorem address_checks_end:
  assumes "server_reaches W E s" "\<forall>(a, reqs) \<in> set (ss_requests s). \<forall>req \<in> set reqs. timeout < tm_now T - cq_ts req"
  shows "ss_requests (send_pings E T timeout s) = []
    \<and> (\<exists>sent. ss_sent (send_pings E T timeout s) = ss_sent s @ sent
          \<and> mset sent = mset (refusals (ss_sessions s) (concat (map snd (ss_requests s)))))"
  using retry_entries_expired [OF server_reaches_ok [OF assms(1)] assms(2)]
  by (auto simp: send_pings_def filter_empty_conv)

definition sample_pending :: server_state where
  "sample_pending = ping_job (run_or_stay sample_opened
     (worker sample_env sample_times [] TypeData [0x12, 2] sample_addr sample_opened))"

theorem address_checks_end_witness:
  "ss_requests sample_pending = [(sample_addr, [sample_check])]
    \<and> ss_requests (send_pings sample_env (sample_times\<lparr> tm_now := 1310 * NANOS \<rparr>) (3 * NANOS) sample_pending) = []
    \<and> ss_sent (send_pings sample_env (sample_times\<lparr> tm_now := 1310 * NANOS \<rparr>) (3 * NANOS) sample_pending) =
      ss_sent sample_pending @ [(PKPacket (packet_response 2 sample_sid STATUS_OK (RespRegister [])), sample_addr)]"
proof -
  obtain proofs sent where o: "sample_opened = sample_start\<lparr> ss_sessions := sample_sessions proofs, ss_sent := sent \<rparr>"
    using sample_opened_sessions by blast
  have f: "ss_sessions sample_opened = sample_sessions proofs" "ss_ip_cache sample_opened = Map.empty" "ss_queue sample_opened = []"
    "ss_requests sample_opened = []" "ss_retry_cnt sample_opened = 3"
    by (simp_all add: o sample_start_def server_new_def server_start_def)
  have q: "sample_pending = (do_ping sample_check sample_opened)\<lparr> ss_requests := [(sample_addr, [sample_check])] \<rparr>"
    unfolding sample_pending_def by (rule sample_queue [OF f])
  have p: "ss_requests sample_pending = [(sample_addr, [sample_check])]" "ss_sessions sample_pending = sample_sessions proofs"
    unfolding q by (simp_all add: f do_ping_def ping_packet_def packet_request_def request_from_def send_to_def)
  have "server_reaches sample_handlers sample_env sample_pending"
    unfolding sample_pending_def by (intro server_reaches.check_queued sample_run_reaches sample_reached)
  moreover have "refusals (sample_sessions proofs) [sample_check] =
      [(PKPacket (packet_response 2 sample_sid STATUS_OK (RespRegister [])), sample_addr)]"
    by (simp add: refusals_def sample_live sample_check_def sample_sessions_facts sample_session_def)
  ultimately show ?thesis
    using address_checks_end [of sample_handlers sample_env sample_pending "3 * NANOS" "sample_times\<lparr> tm_now := 1310 * NANOS \<rparr>"] p
    by (simp add: sample_check_def NANOS_def)
qed

end
