(* ===== verification/Selector.thy ===== *)
theory Selector
  imports Sessions "HOL-Library.Sublist"
begin

text \<open>
  Selecting nodes by the text of their identifier, for the operator's queries
  (\<^verbatim>\<open>Selector\<close>, \<^verbatim>\<open>PrefixExt\<close> and \<^verbatim>\<open>nodes_for\<close> of \<^verbatim>\<open>server/src/state/session_manager.rs\<close>). Texts are read
  byte by byte; a character outside ASCII is an invalid digit either way. The order in which the node table is
  walked is that of its list.
\<close>


section \<open>Parsing\<close>

datatype selector = SelectAll | SelectPrefix u32 u32 | SelectExact bytes

datatype selector_error = InvalidChar char | OddDigits | RadixEmpty | RadixInvalidDigit | RadixOverflow

text \<open>\<^verbatim>\<open>char::to_digit(16)\<close>.\<close>

definition to_digit16 :: "char \<Rightarrow> nat option" where
  "to_digit16 ch =
     (let c = of_char ch :: nat in
      if 48 \<le> c \<and> c \<le> 57 then Some (c - 48)
      else if 97 \<le> c \<and> c \<le> 102 then Some (c - 87)
      else if 65 \<le> c \<and> c \<le> 70 then Some (c - 55)
      else None)"

fun radix_loop :: "nat \<Rightarrow> string \<Rightarrow> (nat, selector_error) result" where
  "radix_loop v [] = Ok v"
| "radix_loop v (ch # s) =
     (case to_digit16 ch of
        None \<Rightarrow> Err RadixInvalidDigit
      | Some d \<Rightarrow> if v * 16 + d < 2 ^ 32 then radix_loop (v * 16 + d) s else Err RadixOverflow)"

text \<open>\<^verbatim>\<open>u32::from_str_radix(s, 16)\<close>: a leading plus sign is accepted when digits follow.\<close>

definition from_str_radix16 :: "string \<Rightarrow> (u32, selector_error) result" where
  "from_str_radix16 s =
     (case s of
        [] \<Rightarrow> Err RadixEmpty
      | ch # rest \<Rightarrow>
          rbind (if rest \<noteq> [] \<and> ch = CHR ''+'' then radix_loop 0 rest else radix_loop 0 s) (\<lambda>v. Ok (word_of_nat v)))"

fun exact_bytes :: "string \<Rightarrow> (bytes, selector_error) result" where
  "exact_bytes [] = Ok []"
| "exact_bytes [ch] = (case to_digit16 ch of None \<Rightarrow> Err (InvalidChar ch) | Some _ \<Rightarrow> Err OddDigits)"
| "exact_bytes (ch # ch2 # s) =
     rbind (ok_or (InvalidChar ch) (to_digit16 ch)) (\<lambda>d1.
     rbind (ok_or (InvalidChar ch2) (to_digit16 ch2)) (\<lambda>d2.
     rbind (exact_bytes s) (\<lambda>bs. Ok (word_of_nat (d1 * 16 + d2) # bs))))"

definition selector_from_str :: "nat \<Rightarrow> string \<Rightarrow> (selector, selector_error) result" where
  "selector_from_str N s =
     (if s = ''all'' then Ok SelectAll
      else if length s = N * 2 then rbind (exact_bytes s) (\<lambda>bs. Ok (SelectExact bs))
      else
        rbind (from_str_radix16 s) (\<lambda>v.
        let bits = length s * 4 in
        if 32 < bits then Panic
        else Ok (SelectPrefix (push_bit (32 - bits) v) (push_bit (32 - bits) (- 1)))))"

section \<open>Matching\<close>

definition extract_prefix :: "bytes \<Rightarrow> u32" where
  "extract_prefix v = from_be (take 4 v)"

fun match_prefix :: "selector \<Rightarrow> bytes \<Rightarrow> bool" where
  "match_prefix SelectAll v = True"
| "match_prefix (SelectPrefix val msk) v = (extract_prefix v AND msk = val)"
| "match_prefix (SelectExact bs) v = (bs = v)"

definition nodes_for :: "selector \<Rightarrow> nat \<Rightarrow> session_manager \<Rightarrow> (node_id \<times> sref list) list" where
  "nodes_for sel limit m =
     (case sel of
        SelectExact bs \<Rightarrow> (case map_of (sm_node_sessions m) bs of None \<Rightarrow> [] | Some g \<Rightarrow> [(bs, g)])
      | _ \<Rightarrow> take limit (filter (\<lambda>e. match_prefix sel (fst e)) (sm_node_sessions m)))"

section \<open>Reference\<close>

definition nibbles :: "bytes \<Rightarrow> nat list" where
  "nibbles bs = concat (map (\<lambda>b. [unat b div 16, unat b mod 16]) bs)"

definition is_hex :: "char \<Rightarrow> bool" where
  "is_hex ch \<longleftrightarrow> to_digit16 ch \<noteq> None"

definition hex_value :: "char \<Rightarrow> nat" where
  "hex_value ch = the (to_digit16 ch)"

text \<open>What a text of hexadecimal digits selects: the identifiers whose hexadecimal form starts with it.\<close>

definition selected :: "string \<Rightarrow> bytes \<Rightarrow> bool" where
  "selected s v \<longleftrightarrow> prefix (map hex_value s) (nibbles v)"

section \<open>Positional values\<close>

primrec base16 :: "nat list \<Rightarrow> nat" where
  "base16 [] = 0"
| "base16 (d # ds) = d * 16 ^ length ds + base16 ds"

lemma base16_append: "base16 (xs @ ys) = base16 xs * 16 ^ length ys + base16 ys"
  by (induction xs) (simp_all add: power_add algebra_simps)

lemma base16_less: "\<forall>d \<in> set ds. d < 16 \<Longrightarrow> base16 ds < 16 ^ length ds"
proof (induction ds)
  case (Cons d ds)
  then have "d * 16 ^ length ds + base16 ds < (d + 1) * 16 ^ length ds" by simp
  also have "\<dots> \<le> 16 * 16 ^ length ds" using Cons.prems by (intro mult_le_mono1) auto
  finally show ?case by simp
qed simp

lemma base16_inj:
  assumes "length xs = length ys" "\<forall>d \<in> set xs. d < 16" "\<forall>d \<in> set ys. d < 16" "base16 xs = base16 ys"
  shows "xs = ys"
  using assms
proof (induction xs ys rule: list_induct2)
  case (Cons x xs y ys)
  have l: "base16 xs < 16 ^ length xs" "base16 ys < 16 ^ length xs" using base16_less [of xs] base16_less [of ys] Cons by auto
  have "x * 16 ^ length xs + base16 xs = y * 16 ^ length xs + base16 ys" using Cons by simp
  then have "(x * 16 ^ length xs + base16 xs) div 16 ^ length xs = (y * 16 ^ length xs + base16 ys) div 16 ^ length xs" by simp
  then have "x = y" using l by simp
  then show ?case using Cons by simp
qed simp

lemma length_nibbles [simp]: "length (nibbles bs) = 2 * length bs"
  by (induction bs) (simp_all add: nibbles_def)

lemma nibbles_less: "d \<in> set (nibbles bs) \<Longrightarrow> d < 16"
proof (induction bs)
  case (Cons b bs)
  have "unat b div 16 < 16" using unat_u8_lt [of b] by auto
  then show ?case using Cons by (auto simp: nibbles_def)
qed (simp add: nibbles_def)

lemma nibbles_append: "nibbles (xs @ ys) = nibbles xs @ nibbles ys"
  by (simp add: nibbles_def)

lemma hex_value_less: "is_hex ch \<Longrightarrow> hex_value ch < 16"
proof -
  have "to_digit16 ch = Some d \<Longrightarrow> d < 16" for d
    unfolding to_digit16_def Let_def by (simp split: if_splits)
  then show "is_hex ch \<Longrightarrow> hex_value ch < 16" by (auto simp: is_hex_def hex_value_def)
qed

lemma to_digit16_hex: "is_hex ch \<Longrightarrow> to_digit16 ch = Some (hex_value ch)"
  by (auto simp: is_hex_def hex_value_def)

lemma radix_loop_hex:
  "list_all is_hex s \<Longrightarrow> v * 16 ^ length s + base16 (map hex_value s) < 2 ^ 32 \<Longrightarrow>
    radix_loop v s = Ok (v * 16 ^ length s + base16 (map hex_value s))"
proof (induction s arbitrary: v)
  case (Cons ch s)
  have "v * 16 + hex_value ch \<le> (v * 16 + hex_value ch) * 16 ^ length s + base16 (map hex_value s)"
    by (simp add: trans_le_add1)
  also have e: "\<dots> = v * 16 ^ length (ch # s) + base16 (map hex_value (ch # s))" by (simp add: algebra_simps)
  finally have "v * 16 + hex_value ch < 2 ^ 32" using Cons.prems(2) by linarith
  then show ?case using Cons.IH [of "v * 16 + hex_value ch"] Cons.prems e by (simp add: to_digit16_hex)
qed simp

lemma exact_bytes_hex:
  "list_all is_hex s \<Longrightarrow> even (length s) \<Longrightarrow> \<exists>bs. exact_bytes s = Ok bs \<and> nibbles bs = map hex_value s"
proof (induction s rule: exact_bytes.induct)
  case (3 ch ch2 s)
  have l: "hex_value ch < 16" "hex_value ch2 < 16" using 3 hex_value_less by auto
  then have "unat (word_of_nat (hex_value ch * 16 + hex_value ch2) :: u8) = hex_value ch * 16 + hex_value ch2"
    by (simp add: unat_of_nat del: of_nat_add of_nat_mult)
  moreover obtain bs where "exact_bytes s = Ok bs" "nibbles bs = map hex_value s" using 3 by (auto simp: to_digit16_hex ok_or_def)
  ultimately show ?case using 3 l by (auto simp: to_digit16_hex ok_or_def nibbles_def simp del: of_nat_add of_nat_mult)
qed (simp_all add: nibbles_def)

lemma nibbles_inj: "nibbles xs = nibbles ys \<Longrightarrow> xs = ys"
proof (induction xs arbitrary: ys)
  case (Cons x xs)
  then obtain y ys' where y: "ys = y # ys'" by (cases ys) (auto simp: nibbles_def)
  then have "unat x div 16 = unat y div 16" "unat x mod 16 = unat y mod 16" "nibbles xs = nibbles ys'"
    using Cons.prems by (auto simp: nibbles_def)
  then have "unat x = unat y" by (metis div_mult_mod_eq)
  then show ?case using Cons.IH y \<open>nibbles xs = nibbles ys'\<close> by (simp add: word_unat_eq_iff)
qed (simp add: nibbles_def)

lemma be_byte: "unat (push_bit 8 acc OR ucast (b :: u8) :: u32) = unat acc * 256 + unat b" if "unat acc < 16777216"
proof -
  have "push_bit 8 acc AND ucast b = (0 :: u32)"
    by (rule bit_word_eqI) (auto simp: bit_simps dest: bit_imp_le_length)
  then have "push_bit 8 acc OR ucast b = push_bit 8 acc + (ucast b :: u32)" by (simp add: disjunctive_add_eq_or)
  then show ?thesis
    using that unat_u8_lt [of b] by (simp add: unat_word_ariths push_bit_eq_mult unsigned_ucast_eq take_bit_nat_eq_self_iff mult.commute)
qed

lemma base16_nibbles: "base16 (nibbles (b # bs)) = unat b * 256 ^ length bs + base16 (nibbles bs)"
proof -
  have "(16 :: nat) ^ (2 * length bs) = 256 ^ length bs" by (simp add: power_mult)
  then have "base16 (nibbles (b # bs)) = unat b div 16 * (16 * 256 ^ length bs) + (unat b mod 16 * 256 ^ length bs + base16 (nibbles bs))"
    using length_nibbles [of bs] by (simp add: nibbles_def)
  also have "\<dots> = (unat b div 16 * 16 + unat b mod 16) * 256 ^ length bs + base16 (nibbles bs)"
    unfolding add_mult_distrib by simp
  finally show ?thesis by simp
qed

lemma nibbles_Nil [simp]: "nibbles [] = []"
  by (simp add: nibbles_def)

lemma list4: "length xs = 4 \<Longrightarrow> \<exists>a b c d. xs = [a, b, c, d]"
proof -
  assume "length xs = 4"
  then have "length xs = Suc (Suc (Suc (Suc 0)))" by simp
  then show ?thesis by (auto simp only: length_Suc_conv length_0_conv)
qed

lemma extract_prefix_base16:
  assumes "4 \<le> length v"
  shows "unat (extract_prefix v) = base16 (nibbles (take 4 v))"
proof -
  obtain a b c d where v: "take 4 v = [a, b, c, d]"
    using list4 [of "take 4 v"] assms by auto
  have z: "push_bit 8 0 OR ucast a = (ucast a :: u32)" by simp
  have l: "unat a < 256" "unat b < 256" "unat c < 256" "unat d < 256" by (rule unat_u8_lt)+
  have ua: "unat (ucast a :: u32) = unat a" using l by (simp add: unsigned_ucast_eq take_bit_nat_eq_self_iff)
  have 1: "unat (push_bit 8 (ucast a) OR ucast b :: u32) = unat a * 256 + unat b" using be_byte [of "ucast a" b] ua l by simp
  have 2: "unat (push_bit 8 (push_bit 8 (ucast a) OR ucast b) OR ucast c :: u32) = (unat a * 256 + unat b) * 256 + unat c"
    using be_byte [of "push_bit 8 (ucast a) OR ucast b" c] 1 l by simp
  have 3: "unat (push_bit 8 (push_bit 8 (push_bit 8 (ucast a) OR ucast b) OR ucast c) OR ucast d :: u32) =
      ((unat a * 256 + unat b) * 256 + unat c) * 256 + unat d"
    using be_byte [of "push_bit 8 (push_bit 8 (ucast a) OR ucast b) OR ucast c" d] 2 l by simp
  show ?thesis using 3 by (simp add: extract_prefix_def from_be_def v base16_nibbles)
qed

lemma masked_eq:
  assumes "unat v < 2 ^ (32 - n)" "n \<le> 32"
  shows "x AND push_bit n (- 1) = push_bit n v \<longleftrightarrow> unat x div 2 ^ n = unat (v :: u32)"
proof -
  have x: "x AND push_bit n (- 1) = push_bit n (drop_bit n x)"
    by (rule bit_word_eqI) (auto simp: bit_simps)
  have hi: "\<not> bit v k" if "32 - n \<le> k" for k
  proof -
    have "unat v < 2 ^ k" using assms(1) that power_increasing [of "32 - n" k "2 :: nat"] by linarith
    then have "\<not> bit (unat v) k" by (simp add: bit_iff_odd)
    then show ?thesis using bit_imp_le_length [of v k] by (auto simp: bit_unsigned_iff)
  qed
  have "push_bit n (drop_bit n x) = push_bit n v \<longleftrightarrow> drop_bit n x = v"
  proof
    assume e: "push_bit n (drop_bit n x) = push_bit n v"
    show "drop_bit n x = v"
    proof (rule bit_word_eqI)
      fix k assume "k < LENGTH(32)"
      show "bit (drop_bit n x) k \<longleftrightarrow> bit v k"
      proof (cases "32 - n \<le> k")
        case True
        then have "\<not> bit x (n + k)" using assms(2) bit_imp_le_length [of x "n + k"] by auto
        then show ?thesis using hi [OF True] by (simp add: bit_simps)
      next
        case False
        then have "n + k < 32" by simp
        then show ?thesis using arg_cong [OF e, of "\<lambda>w. bit w (n + k)"] by (simp add: bit_simps)
      qed
    qed
  qed simp
  moreover have "drop_bit n x = v \<longleftrightarrow> unat x div 2 ^ n = unat v"
    unfolding word_unat_eq_iff unat_drop_bit_eq by (simp add: drop_bit_eq_div)
  ultimately show ?thesis unfolding x by simp
qed

lemma prefix_selector:
  assumes "list_all is_hex s" "1 \<le> length s" "length s \<le> 8" "4 \<le> length v" "4 < N"
  shows "\<exists>sel. selector_from_str N s = Ok sel \<and> (\<forall>bs. sel \<noteq> SelectExact bs) \<and> (match_prefix sel v \<longleftrightarrow> selected s v)"
proof -
  define k where "k = length s"
  define ds where "ds = map hex_value s"
  have k: "1 \<le> k" "k \<le> 8" "length ds = k" using assms by (simp_all add: k_def ds_def)
  have d16: "\<forall>d \<in> set ds. d < 16" using assms(1) hex_value_less by (auto simp: ds_def list_all_iff)
  have lt: "base16 ds < 16 ^ k" using base16_less [OF d16] k by simp
  also have "(16 :: nat) ^ k \<le> 16 ^ 8" using k by (intro power_increasing) simp_all
  finally have lt32: "base16 ds < 2 ^ 32" by simp
  have "s \<noteq> ''all''" using assms(1) by (auto simp: is_hex_def to_digit16_def)
  moreover have "from_str_radix16 s = Ok (word_of_nat (base16 ds))"
    using radix_loop_hex [OF assms(1), of 0] lt32 assms(1,2)
    by (auto simp: from_str_radix16_def ds_def is_hex_def to_digit16_def split: list.splits)
  moreover have "length s \<noteq> N * 2" using assms(3,5) by simp
  ultimately have sel: "selector_from_str N s =
      Ok (SelectPrefix (push_bit (32 - k * 4) (word_of_nat (base16 ds))) (push_bit (32 - k * 4) (- 1)))"
    using k by (simp add: selector_from_str_def k_def [symmetric] Let_def)
  have u: "unat (word_of_nat (base16 ds) :: u32) = base16 ds" using lt32 by (simp add: unat_of_nat)
  have p: "(16 :: nat) ^ j = 2 ^ (j * 4)" for j by (simp add: power_mult mult.commute [of j])
  have "unat (word_of_nat (base16 ds) :: u32) < 2 ^ (32 - (32 - k * 4))" using lt k by (simp add: u p)
  note m = masked_eq [OF this, of "extract_prefix v"]
  have n: "nibbles (take 4 v) = take k (nibbles v) @ drop k (nibbles (take 4 v))"
  proof -
    have "take k (nibbles v) = take k (nibbles (take 4 v))"
      using nibbles_append [of "take 4 v" "drop 4 v"] assms(4) k by simp
    then show ?thesis by (simp only: append_take_drop_id)
  qed
  have "base16 (drop k (nibbles (take 4 v))) < 16 ^ (8 - k)"
    using base16_less [of "drop k (nibbles (take 4 v))"] nibbles_less assms(4) by (auto dest: in_set_dropD)
  then have "base16 (nibbles (take 4 v)) div 16 ^ (8 - k) = base16 (take k (nibbles v))"
    using arg_cong [OF n, of base16] assms(4) by (simp add: base16_append)
  moreover have "(2 :: nat) ^ (32 - k * 4) = 16 ^ (8 - k)" using k by (simp add: p diff_mult_distrib)
  ultimately have "unat (extract_prefix v) div 2 ^ (32 - k * 4) = base16 (take k (nibbles v))"
    using extract_prefix_base16 [OF assms(4)] by simp
  moreover have "base16 (take k (nibbles v)) = base16 ds \<longleftrightarrow> take k (nibbles v) = ds"
    using base16_inj [of "take k (nibbles v)" ds] d16 nibbles_less assms(4) k by (auto dest: in_set_takeD)
  ultimately have "match_prefix (SelectPrefix (push_bit (32 - k * 4) (word_of_nat (base16 ds))) (push_bit (32 - k * 4) (- 1))) v
      \<longleftrightarrow> take k (nibbles v) = ds"
    using m u by simp
  moreover have "take k (nibbles v) = ds \<longleftrightarrow> selected s v"
    using k by (auto simp: selected_def ds_def [symmetric] prefix_def append_eq_conv_conj) (metis append_take_drop_id)
  ultimately show ?thesis using sel by auto
qed

lemma exact_selector:
  assumes "list_all is_hex s" "length s = 2 * N" "length v = N" "N \<noteq> 0"
  shows "\<exists>bs. selector_from_str N s = Ok (SelectExact bs) \<and> length bs = N \<and> (bs = v \<longleftrightarrow> selected s v)"
proof -
  obtain bs where bs: "exact_bytes s = Ok bs" "nibbles bs = map hex_value s" using exact_bytes_hex [OF assms(1)] assms(2) by auto
  have "s \<noteq> ''all''" using assms(1) by (auto simp: is_hex_def to_digit16_def)
  moreover have "length bs = N" using arg_cong [OF bs(2), of length] assms(2) by simp
  moreover have "selected s v \<longleftrightarrow> nibbles bs = nibbles v"
    using bs(2) assms(2,3) by (auto simp: selected_def prefix_def) (metis append_eq_append_conv append_Nil2 length_map length_nibbles)
  ultimately show ?thesis using bs assms(2) nibbles_inj by (auto simp: selector_from_str_def)
qed

section \<open>Properties\<close>

lemma filter_key:
  assumes "distinct (map fst xs)"
  shows "filter (\<lambda>e. fst e = k) xs = (case map_of xs k of None \<Rightarrow> [] | Some g \<Rightarrow> [(k, g)])"
  using assms
proof (induction xs)
  case (Cons x xs)
  then show ?case
    by (cases x) (force simp: filter_empty_conv split: option.splits dest: map_of_SomeD)
qed simp

text \<open>
  C19: Selecting nodes by the text of an identifier agrees with the reference: up to eight hexadecimal digits select
  the nodes whose hexadecimal identifier starts with them, cut to the limit; all forty digits select the one node with
  that identifier, whatever the limit. The bit masks of the code compute the same as comparing the texts.
\<close>

theorem nodes_for_by_text:
  assumes "manager_wf H m" "\<forall>e \<in> set (sm_node_sessions m). length (fst e) = 20"
    and "list_all is_hex s" "1 \<le> length s \<and> length s \<le> 8 \<or> length s = 40"
  shows "\<exists>sel. selector_from_str 20 s = Ok sel
    \<and> nodes_for sel limit m = (if length s = 40 then id else take limit) (filter (\<lambda>e. selected s (fst e)) (sm_node_sessions m))"
proof (cases "length s = 40")
  case True
  have "\<exists>bs. selector_from_str 20 s = Ok (SelectExact bs) \<and> (bs = v \<longleftrightarrow> selected s v)" if "length v = 20" for v
    using exact_selector [OF assms(3), of 20 v] True that by auto
  then obtain bs where bs: "selector_from_str 20 s = Ok (SelectExact bs)" and eq: "\<And>v. length v = 20 \<Longrightarrow> bs = v \<longleftrightarrow> selected s v"
    by (metis (no_types) Ex_list_of_length result.inject(1) selector.inject(2))
  have "filter (\<lambda>e. selected s (fst e)) (sm_node_sessions m) = filter (\<lambda>e. fst e = bs) (sm_node_sessions m)"
    using assms(2) eq by (intro filter_cong) auto
  then show ?thesis
    using bs True filter_key [of "sm_node_sessions m" bs] manager_wfD(3) [OF assms(1)] by (auto simp: nodes_for_def)
next
  case False
  then have l: "1 \<le> length s" "length s \<le> 8" using assms(4) by auto
  have p: "\<exists>sel. selector_from_str 20 s = Ok sel \<and> (\<forall>bs. sel \<noteq> SelectExact bs) \<and> (match_prefix sel v \<longleftrightarrow> selected s v)"
    if "length v = 20" for v
    using prefix_selector [OF assms(3) l, of v 20] that by auto
  then obtain sel where sel: "selector_from_str 20 s = Ok sel" "\<And>bs. sel \<noteq> SelectExact bs"
    using Ex_list_of_length by blast
  then have "match_prefix sel v \<longleftrightarrow> selected s v" if "length v = 20" for v using p [OF that] by auto
  then have "filter (\<lambda>e. match_prefix sel (fst e)) (sm_node_sessions m) = filter (\<lambda>e. selected s (fst e)) (sm_node_sessions m)"
    using assms(2) by (intro filter_cong) auto
  then show ?thesis using sel False by (auto simp: nodes_for_def split: selector.splits)
qed

theorem nodes_for_by_text_witness:
  "\<exists>sel. selector_from_str 20 ''aBa'' = Ok sel
    \<and> nodes_for sel 5 (session_manager_new\<lparr> sm_node_sessions := [(replicate 20 0xAB, []), (replicate 20 0xAC, [])] \<rparr>)
      = [(replicate 20 0xAB, [])]"
proof -
  let ?m = "session_manager_new\<lparr> sm_node_sessions := [(replicate 20 0xAB, []), (replicate 20 0xAC, [])] \<rparr>"
  have "manager_wf (\<lambda>_. 0) ?m" "list_all is_hex ''aBa''"
    by (auto simp: manager_wf_def session_manager_new_def is_hex_def to_digit16_def numeral_eq_Suc shards_wf_new)
  moreover have "selected ''aBa'' (replicate 20 0xAB)" "\<not> selected ''aBa'' (replicate 20 0xAC)" by code_simp+
  ultimately show ?thesis using nodes_for_by_text [of "\<lambda>_. 0" ?m "''aBa''" 5] by simp
qed

text \<open>
  Some texts are misread: a prefix longer than eight digits that starts with enough zeros panics, because
  the width of the shift is negative, and a plus sign counts as a digit of the prefix.
\<close>

theorem selector_misreads:
  "selector_from_str 20 ''000000001'' = Panic
   \<and> selector_from_str 20 ''+ab'' = selector_from_str 20 ''0ab'' \<and> selector_from_str 20 ''ab'' \<noteq> selector_from_str 20 ''0ab''"
  by (simp add: selector_from_str_def from_str_radix16_def to_digit16_def push_bit_eq_mult)

end
