(* ===== verification/Session_State.thy ===== *)
theory Session_State
  imports Core_Session
begin

text \<open>
  The life cycle of a session at a client (\<^verbatim>\<open>client/src/session/session_state.rs\<close>, with the error types of
  \<^verbatim>\<open>client/src/error.rs\<close>). References to sessions are numbers; a result held by a state is a sum with the error on
  the left.
\<close>

section \<open>States\<close>

datatype protocol_error =
    InvalidResponse string
  | InvalidChallenge string
  | RecoverId string
  | SessionNotFound session_id
  | InvalidSessionId bytes string

datatype session_error =
    SeInternal string
  | SeProtocol protocol_error
  | SeBadResponse string
  | SeBadRequest string
  | SeNetwork string
  | SeTimeout string
  | SeAborted string
  | SeNotFound string
  | SeRelay string
  | SeUnexpected string
  | SeProgrammingError string
  | SeNotApplicable string
  | SeGeneric string

type_synonym direct_ref = nat

datatype init_state =
    ConnectIntent | Initializing | ChallengeHandshake | HandshakeResponse | ChallengeVerified | SessionRegistered | InitReady

datatype relayed_state = RelayedInitializing | RelayedReady

datatype reverse_state = Awaiting | InProgress init_state | Finished "session_error + direct_ref"

datatype session_state =
    Outgoing init_state
  | Incoming init_state
  | ReverseConnection reverse_state
  | Relayed relayed_state
  | Established direct_ref
  | FailedEstablish session_error
  | Closing
  | Closed
  | RestartConnect

datatype transition_error = InvalidTransition session_state session_state | NodeNotFound node_id

section \<open>Transitions\<close>

definition init_allowed :: "init_state \<Rightarrow> init_state \<Rightarrow> bool" where
  "init_allowed self new_state =
     (case (self, new_state) of
        (ConnectIntent, Initializing) \<Rightarrow> True
      | (Initializing, ChallengeHandshake) \<Rightarrow> True
      | (ChallengeHandshake, HandshakeResponse) \<Rightarrow> True
      | (HandshakeResponse, ChallengeVerified) \<Rightarrow> True
      | (ChallengeVerified, SessionRegistered) \<Rightarrow> True
      | (SessionRegistered, InitReady) \<Rightarrow> True
      | _ \<Rightarrow> False)"

definition relayed_allowed :: "relayed_state \<Rightarrow> relayed_state \<Rightarrow> bool" where
  "relayed_allowed self new_state =
     (case (self, new_state) of (RelayedInitializing, RelayedReady) \<Rightarrow> True | _ \<Rightarrow> False)"

definition reverse_allowed :: "reverse_state \<Rightarrow> reverse_state \<Rightarrow> bool" where
  "reverse_allowed self new_state =
     (case (self, new_state) of
        (Awaiting, InProgress ConnectIntent) \<Rightarrow> True
      | (InProgress prev, InProgress next) \<Rightarrow> init_allowed prev next
      | (InProgress InitReady, Finished (Inr _)) \<Rightarrow> True
      | (InProgress _, Finished (Inl _)) \<Rightarrow> True
      | _ \<Rightarrow> False)"

definition state_allowed :: "session_state \<Rightarrow> session_state \<Rightarrow> bool" where
  "state_allowed self new_state =
     (case (self, new_state) of
        (Relayed _, FailedEstablish _) \<Rightarrow> True
      | (Incoming _, FailedEstablish _) \<Rightarrow> True
      | (Outgoing _, FailedEstablish _) \<Rightarrow> True
      | (ReverseConnection _, FailedEstablish _) \<Rightarrow> True
      | (RestartConnect, FailedEstablish _) \<Rightarrow> True
      | (FailedEstablish _, FailedEstablish _) \<Rightarrow> True
      | (Incoming InitReady, Established _) \<Rightarrow> True
      | (Outgoing InitReady, Established _) \<Rightarrow> True
      | (Relayed RelayedReady, Established _) \<Rightarrow> True
      | (ReverseConnection (Finished (Inr _)), Established _) \<Rightarrow> True
      | (Outgoing ConnectIntent, ReverseConnection Awaiting) \<Rightarrow> True
      | (RestartConnect, ReverseConnection Awaiting) \<Rightarrow> True
      | (Outgoing ConnectIntent, Relayed RelayedInitializing) \<Rightarrow> True
      | (RestartConnect, Relayed RelayedInitializing) \<Rightarrow> True
      | (Closed, Outgoing ConnectIntent) \<Rightarrow> True
      | (Closed, Incoming ConnectIntent) \<Rightarrow> True
      | (FailedEstablish _, Outgoing ConnectIntent) \<Rightarrow> True
      | (FailedEstablish _, Incoming ConnectIntent) \<Rightarrow> True
      | (Established _, Established _) \<Rightarrow> True
      | (Relayed _, RestartConnect) \<Rightarrow> True
      | (Incoming _, RestartConnect) \<Rightarrow> True
      | (Outgoing _, RestartConnect) \<Rightarrow> True
      | (ReverseConnection _, RestartConnect) \<Rightarrow> True
      | (RestartConnect, RestartConnect) \<Rightarrow> True
      | (RestartConnect, Outgoing Initializing) \<Rightarrow> True
      | (Established _, Closing) \<Rightarrow> True
      | (Closing, Closed) \<Rightarrow> True
      | (Incoming prev, Incoming next) \<Rightarrow> init_allowed prev next
      | (Outgoing prev, Outgoing next) \<Rightarrow> init_allowed prev next
      | (Relayed prev, Relayed next) \<Rightarrow> relayed_allowed prev next
      | (ReverseConnection prev, ReverseConnection next) \<Rightarrow> reverse_allowed prev next
      | _ \<Rightarrow> False)"

text \<open>Each operation returns its result and the state it leaves behind.\<close>

definition transition :: "session_state \<Rightarrow> session_state \<Rightarrow> (session_state, transition_error) result \<times> session_state" where
  "transition new_state self =
     (if \<not> state_allowed self new_state then (Err (InvalidTransition self new_state), self)
      else (Ok new_state, new_state))"

definition transition_incoming :: "init_state \<Rightarrow> session_state \<Rightarrow> (session_state, transition_error) result \<times> session_state" where
  "transition_incoming new_state self =
     transition (case self of
        Incoming _ \<Rightarrow> Incoming new_state
      | ReverseConnection _ \<Rightarrow> ReverseConnection (InProgress new_state)
      | _ \<Rightarrow> Incoming new_state) self"

definition transition_outgoing :: "init_state \<Rightarrow> session_state \<Rightarrow> (session_state, transition_error) result \<times> session_state" where
  "transition_outgoing new_state self = transition (Outgoing new_state) self"

definition is_finished :: "session_state \<Rightarrow> bool" where
  "is_finished self = (case self of Established _ \<Rightarrow> True | Closed \<Rightarrow> True | FailedEstablish _ \<Rightarrow> True | _ \<Rightarrow> False)"

section \<open>Runs\<close>

text \<open>The states a session passes through, by any of the three operations, refused ones included.\<close>

inductive session_runs :: "session_state \<Rightarrow> session_state list \<Rightarrow> session_state \<Rightarrow> bool" for s where
  stay: "session_runs s [] s"
| plain: "session_runs s tr t \<Longrightarrow> transition new t = (Ok u, u) \<Longrightarrow> session_runs s (tr @ [u]) u"
| incoming: "session_runs s tr t \<Longrightarrow> transition_incoming i t = (Ok u, u) \<Longrightarrow> session_runs s (tr @ [u]) u"
| outgoing: "session_runs s tr t \<Longrightarrow> transition_outgoing i t = (Ok u, u) \<Longrightarrow> session_runs s (tr @ [u]) u"
| refused: "session_runs s tr t \<Longrightarrow> transition new t = (Err e, t) \<Longrightarrow> session_runs s tr t"

lemma transition_Ok: "transition new t = (Ok u, v) \<longleftrightarrow> state_allowed t new \<and> u = new \<and> v = new"
  by (auto simp: transition_def)

lemma run_step:
  "transition new t = (Ok u, u) \<Longrightarrow> state_allowed t u" "transition_incoming i t = (Ok u, u) \<Longrightarrow> state_allowed t u"
  "transition_outgoing i t = (Ok u, u) \<Longrightarrow> state_allowed t u"
  by (auto simp: transition_Ok transition_incoming_def transition_outgoing_def)

lemma session_runs_induct [consumes 1, case_names stay step]:
  assumes "session_runs s tr t" "P [] s"
    and "\<And>tr t u. session_runs s tr t \<Longrightarrow> P tr t \<Longrightarrow> state_allowed t u \<Longrightarrow> P (tr @ [u]) u"
  shows "P tr t"
  using assms(1) by (induction rule: session_runs.induct) (auto intro: assms(2,3) dest: run_step)

text \<open>The stages of the handshake passed when an initialisation is in a given state.\<close>

definition stages :: "init_state \<Rightarrow> init_state list" where
  "stages i = (case i of
      ConnectIntent \<Rightarrow> [] | Initializing \<Rightarrow> []
    | ChallengeHandshake \<Rightarrow> [ChallengeHandshake]
    | HandshakeResponse \<Rightarrow> [ChallengeHandshake, HandshakeResponse]
    | ChallengeVerified \<Rightarrow> [ChallengeHandshake, HandshakeResponse, ChallengeVerified]
    | SessionRegistered \<Rightarrow> [ChallengeHandshake, HandshakeResponse, ChallengeVerified, SessionRegistered]
    | InitReady \<Rightarrow> [ChallengeHandshake, HandshakeResponse, ChallengeVerified, SessionRegistered, InitReady])"

definition reverse_in :: "init_state \<Rightarrow> session_state" where
  "reverse_in i = ReverseConnection (InProgress i)"

text \<open>A trace that proves a session ready: a whole handshake of one kind, or a relayed session that was ready, and after it only the steps that publish the session.\<close>

definition publishing :: "session_state set" where
  "publishing = range Established \<union> range (\<lambda>d. ReverseConnection (Finished (Inr d)))"

definition proven :: "session_state list \<Rightarrow> bool" where
  "proven tr \<longleftrightarrow> (\<exists>pre.
     \<exists>mid \<in> insert [Relayed RelayedReady] ((\<lambda>wrap. map wrap (stages InitReady)) ` {Outgoing, Incoming, reverse_in}).
     \<exists>post. tr = pre @ mid @ post \<and> set post \<subseteq> publishing)"

fun run_inv :: "session_state list \<Rightarrow> session_state \<Rightarrow> bool" where
  "run_inv tr (Outgoing i) = (\<exists>pre. tr = pre @ map Outgoing (stages i))"
| "run_inv tr (Incoming i) = (\<exists>pre. tr = pre @ map Incoming (stages i))"
| "run_inv tr (ReverseConnection (InProgress i)) = (\<exists>pre. tr = pre @ map reverse_in (stages i))"
| "run_inv tr (ReverseConnection (Finished (Inr d))) = proven tr"
| "run_inv tr (Relayed RelayedReady) = (\<exists>pre. tr = pre @ [Relayed RelayedReady])"
| "run_inv tr (Established d) = proven tr"
| "run_inv tr _ = True"

lemma stages_allowed: "init_allowed i j \<Longrightarrow> j \<noteq> Initializing \<Longrightarrow> stages j = stages i @ [j]"
  by (cases i; cases j) (simp_all add: init_allowed_def stages_def)

lemma proven_snoc: "proven tr \<Longrightarrow> x \<in> publishing \<Longrightarrow> proven (tr @ [x])"
proof -
  assume "proven tr" and x: "x \<in> publishing"
  then obtain pre mid post where tr: "tr = pre @ mid @ post" and post: "set post \<subseteq> publishing"
    and mid: "mid \<in> insert [Relayed RelayedReady] ((\<lambda>wrap. map wrap (stages InitReady)) ` {Outgoing, Incoming, reverse_in})"
    unfolding proven_def by blast
  show "proven (tr @ [x])"
    unfolding proven_def using tr post mid x by (intro exI [of _ pre] bexI [OF _ mid] exI [of _ "post @ [x]"]) auto
qed

lemma proven_ready:
  assumes "tr = pre @ mid"
    and "mid \<in> insert [Relayed RelayedReady] ((\<lambda>wrap. map wrap (stages InitReady)) ` {Outgoing, Incoming, reverse_in})"
  shows "proven tr"
  unfolding proven_def using assms by (intro exI [of _ pre] bexI [OF _ assms(2)] exI [of _ "[]"]) auto

lemma run_inv_ready:
  assumes "run_inv tr x" "x \<in> {Outgoing InitReady, Incoming InitReady, ReverseConnection (InProgress InitReady), Relayed RelayedReady}"
  shows "proven tr"
  using assms proven_ready [of tr] by auto

lemma stage_snoc:
  assumes "init_allowed i j" "tr = pre @ map wrap (stages i)"
  shows "\<exists>pre. tr @ [wrap j] = pre @ map wrap (stages j)"
proof (cases "j = Initializing")
  case False
  then show ?thesis using assms stages_allowed by auto
qed (simp add: stages_def)

lemma allowed_to:
  "state_allowed t (Outgoing j) \<Longrightarrow> (\<exists>i. t = Outgoing i \<and> init_allowed i j) \<or> stages j = []"
  "state_allowed t (Incoming j) \<Longrightarrow> (\<exists>i. t = Incoming i \<and> init_allowed i j) \<or> stages j = []"
  "state_allowed t (ReverseConnection (InProgress j)) \<Longrightarrow>
     (\<exists>i. t = ReverseConnection (InProgress i) \<and> init_allowed i j) \<or> stages j = []"
  "state_allowed t (ReverseConnection (Finished (Inr d))) \<Longrightarrow> t = ReverseConnection (InProgress InitReady)"
  "state_allowed t (Established d) \<Longrightarrow> (\<exists>e. t = Established e) \<or> (\<exists>e. t = ReverseConnection (Finished (Inr e)))
     \<or> t \<in> {Outgoing InitReady, Incoming InitReady, Relayed RelayedReady}"
  by (cases t; auto simp: state_allowed_def reverse_allowed_def stages_def
      split: init_state.splits reverse_state.splits relayed_state.splits sum.splits)+

lemma run_inv_step:
  assumes inv: "run_inv tr t" and "state_allowed t u"
  shows "run_inv (tr @ [u]) u"
proof (cases u)
  case (Outgoing j)
  then show ?thesis
    using inv allowed_to(1) [of t j] assms(2) stage_snoc [of _ j tr _ Outgoing] by auto
next
  case (Incoming j)
  then show ?thesis
    using inv allowed_to(2) [of t j] assms(2) stage_snoc [of _ j tr _ Incoming] by auto
next
  case (Established d)
  then have "proven tr" using inv allowed_to(5) [of t d] assms(2) run_inv_ready [OF inv] by auto
  then show ?thesis using proven_snoc [of tr u] Established by (auto simp: publishing_def)
next
  case (ReverseConnection r)
  show ?thesis
  proof (cases r)
    case (InProgress j)
    then show ?thesis
      using inv ReverseConnection allowed_to(3) [of t j] assms(2) stage_snoc [of _ j tr _ reverse_in]
      by (auto simp: reverse_in_def)
  next
    case (Finished res)
    show ?thesis
    proof (cases res)
      case (Inr d)
      then have "proven tr"
        using allowed_to(4) [of t d] assms(2) ReverseConnection Finished run_inv_ready [OF inv] by auto
      then show ?thesis using proven_snoc [of tr u] ReverseConnection Finished Inr by (auto simp: publishing_def)
    qed (simp add: ReverseConnection Finished)
  qed (simp add: ReverseConnection)
next
  case (Relayed r)
  then show ?thesis by (cases r) auto
qed simp_all

text \<open>
  C20: No session is established without a proof of identity: whenever a session that started closed is
  established, the states it passed through end with a complete handshake of one kind, without gaps: challenge sent,
  response received, challenge verified, session registered, ready; or with a relayed session that was set ready by its
  initialiser. After it come only the states that publish the result.
\<close>

theorem established_after_verification:
  assumes "session_runs Closed tr (Established d)"
  shows "\<exists>pre post. set post \<subseteq> range Established \<union> range (\<lambda>d. ReverseConnection (Finished (Inr d))) \<and>
    (tr = pre @ [Relayed RelayedReady] @ post
     \<or> (\<exists>wrap \<in> {Outgoing, Incoming, \<lambda>i. ReverseConnection (InProgress i)}.
          tr = pre @ map wrap [ChallengeHandshake, HandshakeResponse, ChallengeVerified, SessionRegistered, InitReady] @ post))"
proof -
  have "run_inv tr (Established d)"
    using assms by (induction rule: session_runs_induct) (auto intro: run_inv_step)
  then have "proven tr" by simp
  moreover have "reverse_in = (\<lambda>i. ReverseConnection (InProgress i))" by (simp add: fun_eq_iff reverse_in_def)
  ultimately show ?thesis unfolding proven_def publishing_def stages_def by fastforce
qed

definition sample_run :: "session_state list" where
  "sample_run = map Outgoing [ConnectIntent, Initializing, ChallengeHandshake, HandshakeResponse, ChallengeVerified,
     SessionRegistered, InitReady] @ [Established 7]"

fun allowed_path :: "session_state \<Rightarrow> session_state list \<Rightarrow> bool" where
  "allowed_path t [] = True"
| "allowed_path t (u # us) = (state_allowed t u \<and> allowed_path u us)"

lemma session_runs_path:
  "session_runs s tr t \<Longrightarrow> allowed_path t us \<Longrightarrow> session_runs s (tr @ us) (last (t # us))"
proof (induction us arbitrary: tr t)
  case (Cons u us)
  then have "session_runs s (tr @ [u]) u" by (intro session_runs.plain) (auto simp: transition_Ok)
  then show ?case using Cons.IH [of "tr @ [u]" u] Cons.prems(2) by simp
qed simp

lemma sample_run_runs: "session_runs Closed sample_run (Established 7)"
  using session_runs_path [OF session_runs.stay, of Closed sample_run]
  by (simp add: sample_run_def state_allowed_def init_allowed_def)

theorem established_after_verification_witness:
  "\<exists>pre post. sample_run = pre @ map Outgoing [ChallengeHandshake, HandshakeResponse, ChallengeVerified, SessionRegistered, InitReady] @ post
    \<and> set post \<subseteq> range Established \<union> range (\<lambda>d. ReverseConnection (Finished (Inr d)))"
  using established_after_verification [OF sample_run_runs]
  by (auto simp: sample_run_def Cons_eq_append_conv append_eq_Cons_conv)

text \<open>How many transitions an initialisation can still make without being restarted.\<close>

fun init_rank :: "init_state \<Rightarrow> nat" where
  "init_rank ConnectIntent = 6" | "init_rank Initializing = 5" | "init_rank ChallengeHandshake = 4"
| "init_rank HandshakeResponse = 3" | "init_rank ChallengeVerified = 2" | "init_rank SessionRegistered = 1"
| "init_rank InitReady = 0"

fun session_rank :: "session_state \<Rightarrow> nat" where
  "session_rank (Outgoing i) = (if i = ConnectIntent then 10 else 1 + init_rank i)"
| "session_rank (Incoming i) = 1 + init_rank i"
| "session_rank (ReverseConnection Awaiting) = 9"
| "session_rank (ReverseConnection (InProgress i)) = 2 + init_rank i"
| "session_rank (ReverseConnection (Finished _)) = 1"
| "session_rank (Relayed RelayedInitializing) = 2"
| "session_rank (Relayed RelayedReady) = 1"
| "session_rank RestartConnect = 10"
| "session_rank Closing = 1"
| "session_rank _ = 0"

lemma init_rank_le: "init_rank i \<le> 6" by (cases i) simp_all

lemma session_rank_le: "session_rank s \<le> 10"
proof (cases s)
  case (Outgoing i)
  then show ?thesis using init_rank_le [of i] by simp
next
  case (Incoming i)
  then show ?thesis using init_rank_le [of i] by simp
next
  case (ReverseConnection r)
  then show ?thesis using le_trans [OF init_rank_le, of 8] by (cases r) simp_all
next
  case (Relayed r)
  then show ?thesis by (cases r) simp_all
qed simp_all

lemma init_allowed_rank: "init_allowed i j \<Longrightarrow> init_rank j < init_rank i"
  by (cases i; cases j) (simp_all add: init_allowed_def)

lemma session_rank_decreases:
  assumes "state_allowed t u" "\<not> is_finished t" "u \<noteq> RestartConnect"
  shows "session_rank u < session_rank t"
proof (cases t)
  case (Outgoing i)
  then show ?thesis using assms
    by (cases u) (auto simp: state_allowed_def dest: init_allowed_rank split: init_state.splits relayed_state.splits reverse_state.splits)
next
  case (Incoming i)
  then show ?thesis using assms
    by (cases u) (auto simp: state_allowed_def dest: init_allowed_rank split: init_state.splits relayed_state.splits reverse_state.splits)
next
  case (ReverseConnection r)
  then show ?thesis using assms
    by (cases u) (auto simp: state_allowed_def reverse_allowed_def dest: init_allowed_rank
        split: init_state.splits relayed_state.splits reverse_state.splits sum.splits)
next
  case (Relayed r)
  then show ?thesis using assms
    by (cases u) (auto simp: state_allowed_def relayed_allowed_def split: init_state.splits relayed_state.splits reverse_state.splits)
next
  case RestartConnect
  then show ?thesis using assms
    by (cases u) (auto simp: state_allowed_def split: init_state.splits relayed_state.splits reverse_state.splits)
next
  case Closing
  then show ?thesis using assms by (cases u) (auto simp: state_allowed_def)
qed (use assms in \<open>auto simp: is_finished_def\<close>)

lemma can_finish: "is_finished t \<or> state_allowed t (FailedEstablish e) \<or> state_allowed t Closed"
  by (cases t; auto simp: state_allowed_def is_finished_def
      split: init_state.splits reverse_state.splits relayed_state.splits sum.splits)

lemma run_rank:
  assumes "session_runs s tr t" "RestartConnect \<notin> set tr" "\<forall>u \<in> set (butlast (s # tr)). \<not> is_finished u"
  shows "t = last (s # tr) \<and> length tr + session_rank t \<le> session_rank s"
  using assms
proof (induction rule: session_runs_induct)
  case (step tr t u)
  have "\<forall>v \<in> set (butlast (s # tr)). \<not> is_finished v"
    using step.prems(2) by (auto simp: butlast_append dest: in_set_butlastD split: if_splits)
  then have t: "t = last (s # tr)" "length tr + session_rank t \<le> session_rank s"
    using step.IH step.prems(1) by (auto split: if_splits)
  then have "t \<in> set (butlast (s # tr @ [u]))" by (simp add: butlast_append)
  then have "\<not> is_finished t" using step.prems(2) by blast
  then show ?case using session_rank_decreases [OF step.hyps(2)] step.prems(1) t by auto
qed simp

lemma session_runs_tl: "session_runs s (u # tr) t \<Longrightarrow> session_runs u tr t"
proof -
  have "session_runs s tr' t \<Longrightarrow> tr' = u # tr \<Longrightarrow> session_runs u tr t" for tr'
  proof (induction arbitrary: tr rule: session_runs_induct)
    case (step tr' t w)
    show ?case
    proof (cases tr')
      case Nil
      then show ?thesis using step.prems by (auto intro: session_runs.stay)
    next
      case (Cons x xs)
      then have "session_runs u xs t" "tr = xs @ [w]" using step by auto
      then show ?thesis using step.hyps(2) session_runs.plain [of u xs t w w] by (simp add: transition_Ok)
    qed
  qed simp
  then show "session_runs s (u # tr) t \<Longrightarrow> session_runs u tr t" by blast
qed

text \<open>
  C21: Initialisation ends: a session that is not restarted makes at most eleven transitions from one finished state to
  the next, and at most ten from a state that is not finished; and it is never stuck, because from every state
  that is not finished a finished one is allowed next.
\<close>

theorem initialization_bounded:
  assumes "session_runs s tr t" "RestartConnect \<notin> set tr" "\<forall>u \<in> set (butlast tr). \<not> is_finished u"
  shows "length tr \<le> (if is_finished s then 11 else 10) \<and> (is_finished t \<or> (\<exists>u. state_allowed t u \<and> is_finished u))"
proof -
  have "is_finished (FailedEstablish e)" "is_finished Closed" for e by (simp_all add: is_finished_def)
  then have stuck: "is_finished t \<or> (\<exists>u. state_allowed t u \<and> is_finished u)" using can_finish by blast
  show ?thesis
  proof (cases "is_finished s \<and> tr \<noteq> []")
    case True
    then obtain u tr' where tr: "tr = u # tr'" by (cases tr) auto
    have "\<forall>v \<in> set (butlast (u # tr')). \<not> is_finished v" using assms(3) by (simp add: tr)
    then have "length tr' \<le> 10"
      using run_rank [OF session_runs_tl [OF assms(1) [unfolded tr]]] assms(2) session_rank_le [of u] by (simp add: tr)
    then show ?thesis using True stuck by (simp add: tr)
  next
    case False
    then have "\<forall>u \<in> set (butlast (s # tr)). \<not> is_finished u" using assms(3) by (cases tr) auto
    then have "length tr \<le> 10" using run_rank [OF assms(1,2)] session_rank_le [of s] by fastforce
    then show ?thesis using stuck by simp
  qed
qed

definition sample_reverse :: "session_state list" where
  "sample_reverse = [Outgoing ConnectIntent, ReverseConnection Awaiting] @ map (\<lambda>i. ReverseConnection (InProgress i))
     [ConnectIntent, Initializing, ChallengeHandshake, HandshakeResponse, ChallengeVerified, SessionRegistered, InitReady]
     @ [ReverseConnection (Finished (Inr 7)), Established 7]"

theorem initialization_bounded_witness:
  "session_runs Closed sample_reverse (Established 7) \<and> length sample_reverse \<le> 11 \<and> length (tl sample_run) \<le> 10"
proof -
  have r: "session_runs Closed sample_reverse (Established 7)"
    using session_runs_path [OF session_runs.stay, of Closed sample_reverse]
    by (simp add: sample_reverse_def state_allowed_def reverse_allowed_def init_allowed_def)
  have r': "session_runs (Outgoing ConnectIntent) (tl sample_run) (Established 7)"
    using session_runs_path [OF session_runs.stay, of "Outgoing ConnectIntent" "tl sample_run"]
    by (simp add: sample_run_def state_allowed_def init_allowed_def)
  have "length sample_reverse \<le> (if is_finished Closed then 11 else 10)"
    using initialization_bounded [OF r] by (simp add: sample_reverse_def is_finished_def)
  moreover have "length (tl sample_run) \<le> (if is_finished (Outgoing ConnectIntent) then 11 else 10)"
    using initialization_bounded [OF r'] by (simp add: sample_run_def is_finished_def)
  ultimately show ?thesis using r by (simp add: is_finished_def)
qed

end
