(* ===== verification/Network_View.thy ===== *)
theory Network_View
  imports Session_State
begin

text \<open>
  A client's knowledge about other nodes (\<^verbatim>\<open>client/src/session/network_view.rs\<close>): the registry of node views, the
  lock that grants the right to initialise a session, and the views bound to one generation. What several clones of a
  view share is a cell of an explicit store; a clone refers to it by number. An operation of the registry or of a view
  holds its locks while it works and is one step; giving up a permit is a sequence of such steps. Aborted
  futures, notifications and deregistrations are recorded.
\<close>

section \<open>State\<close>

record node_view_state =
  ns_node :: "identity list"
  ns_addresses :: "socket_addr list"
  ns_supported_encryption :: "string list"
  ns_session_key :: "public_key option"
  ns_authenticated_identities :: "node_id list"
  ns_state :: session_state
  ns_slot :: u32
  ns_abort_handle :: "nat list"

text \<open>What the clones of a view share.\<close>

record node_cell =
  nc_state :: node_view_state
  nc_notified :: "session_state list"
  nc_epoch :: u64
  nc_retired :: bool
  nc_last_info_update :: nat

record node_view =
  nv_id :: node_id
  nv_cell :: nat
  nv_expected_generation :: "u64 option"

record network_view =
  nw_by_node_id :: "node_id \<rightharpoonup> node_view"
  nw_by_addr :: "socket_addr \<rightharpoonup> node_view"
  nw_cells :: "node_cell list"
  nw_next_generation :: u64
  nw_aborted :: "nat list"
  nw_unregistered :: "node_view list"

definition network_view_new :: network_view where
  "network_view_new = \<lparr> nw_by_node_id = Map.empty, nw_by_addr = Map.empty, nw_cells = [], nw_next_generation = 1,
     nw_aborted = [], nw_unregistered = [] \<rparr>"

definition cell :: "network_view \<Rightarrow> node_view \<Rightarrow> node_cell" where
  "cell net v = nw_cells net ! nv_cell v"

definition set_cell :: "node_view \<Rightarrow> (node_cell \<Rightarrow> node_cell) \<Rightarrow> network_view \<Rightarrow> network_view" where
  "set_cell v f net = net\<lparr> nw_cells := (nw_cells net)[nv_cell v := f (cell net v)] \<rparr>"

definition set_state :: "node_view \<Rightarrow> (node_view_state \<Rightarrow> node_view_state) \<Rightarrow> network_view \<Rightarrow> network_view" where
  "set_state v f = set_cell v (\<lambda>c. c\<lparr> nc_state := f (nc_state c) \<rparr>)"

definition view_state :: "network_view \<Rightarrow> node_view \<Rightarrow> session_state" where
  "view_state net v = ns_state (nc_state (cell net v))"

section \<open>Generations\<close>

definition next_generation :: "network_view \<Rightarrow> u64 \<times> network_view" where
  "next_generation net = (nw_next_generation net, net\<lparr> nw_next_generation := nw_next_generation net + 1 \<rparr>)"

definition generation :: "network_view \<Rightarrow> node_view \<Rightarrow> u64" where
  "generation net v = (case nv_expected_generation v of Some g \<Rightarrow> g | None \<Rightarrow> nc_epoch (cell net v))"

definition snapshot :: "network_view \<Rightarrow> node_view \<Rightarrow> node_view" where
  "snapshot net v = v\<lparr> nv_expected_generation := Some (generation net v) \<rparr>"

definition is_current :: "network_view \<Rightarrow> node_view \<Rightarrow> bool" where
  "is_current net v \<longleftrightarrow> \<not> nc_retired (cell net v) \<and> generation net v = nc_epoch (cell net v)"

definition notify_change :: "session_state \<Rightarrow> node_view \<Rightarrow> network_view \<Rightarrow> network_view" where
  "notify_change new_state v = set_cell v (\<lambda>c. c\<lparr> nc_notified := nc_notified c @ [new_state] \<rparr>)"

section \<open>Node information\<close>

definition apply_info :: "node_info \<Rightarrow> node_view_state \<Rightarrow> node_view_state" where
  "apply_info info st = st\<lparr> ns_slot := ni_slot info, ns_supported_encryption := ni_supported_encryption info,
     ns_session_key := ni_session_key info, ns_authenticated_identities := ni_authenticated_identities info,
     ns_node := ni_identities info, ns_addresses := map ep_address (ni_endpoints info) \<rparr>"

definition state_info :: "node_view_state \<Rightarrow> node_info" where
  "state_info st = \<lparr> ni_identities = ns_node st, ni_authenticated_identities = ns_authenticated_identities st,
     ni_slot = ns_slot st,
     ni_endpoints = map (\<lambda>addr. \<lparr> ep_protocol = PROTOCOL_UDP, ep_address = addr \<rparr>) (ns_addresses st),
     ni_supported_encryption = ns_supported_encryption st, ni_session_key = ns_session_key st \<rparr>"

datatype 'a validity = UpToDate 'a | UpdateRecommended 'a

fun just_get :: "'a validity \<Rightarrow> 'a" where
  "just_get (UpToDate content) = content"
| "just_get (UpdateRecommended content) = content"

fun update_recommended :: "'a validity \<Rightarrow> bool" where
  "update_recommended (UpdateRecommended _) = True"
| "update_recommended (UpToDate _) = False"

fun is_established :: "session_state \<Rightarrow> bool" where
  "is_established (Established _) = True"
| "is_established _ = False"

definition view_info :: "nat \<Rightarrow> nat \<Rightarrow> node_view \<Rightarrow> network_view \<Rightarrow> node_info validity" where
  "view_info node_info_ttl now v net =
     (let c = cell net v; st = nc_state c;
          should_update =
            (if ns_node st = [] then True
             else if is_established (ns_state st) then False
             else now - nc_last_info_update c > node_info_ttl) in
      if should_update then UpdateRecommended (state_info st) else UpToDate (state_info st))"

definition public_addresses :: "node_view \<Rightarrow> network_view \<Rightarrow> socket_addr list" where
  "public_addresses v net = ns_addresses (nc_state (cell net v))"

datatype view_error =
    DefaultIdChanged node_id node_id
  | NoIdentitiesKnown
  | InconsistentView
  | GenerationRetired
  | IdentityChanged
  | IdentityConflict
  | EndpointConflict
  | PublishFailed string
  | NotInitializing u64
  | QueryFailed string

definition identities :: "node_view \<Rightarrow> network_view \<Rightarrow> (identity \<times> identity list, view_error) result" where
  "identities v net =
     (case ns_node (nc_state (cell net v)) of
        [] \<Rightarrow> Err NoIdentitiesKnown
      | i # is \<Rightarrow> Ok (i, i # is))"

definition update_info :: "node_view \<Rightarrow> node_info \<Rightarrow> network_view \<Rightarrow> (unit, view_error) result \<times> network_view" where
  "update_info v info net =
     (case ni_identities info of
        i # _ \<Rightarrow>
          if id_node_id i \<noteq> nv_id v then (Err (DefaultIdChanged (nv_id v) (id_node_id i)), net)
          else (Ok (), set_state v (apply_info info) net)
      | [] \<Rightarrow> (Ok (), set_state v (apply_info info) net))"

section \<open>The registry\<close>

definition find_view :: "node_id \<Rightarrow> socket_addr list \<Rightarrow> network_view \<Rightarrow> node_view option" where
  "find_view node_id addrs net =
     (case nw_by_node_id net node_id of
        Some v \<Rightarrow> Some v
      | None \<Rightarrow> (case List.map_filter (nw_by_addr net) addrs of [] \<Rightarrow> None | v # _ \<Rightarrow> Some v))"

definition find_by_addr :: "socket_addr \<Rightarrow> network_view \<Rightarrow> node_view option" where
  "find_by_addr addr net = nw_by_addr net addr"

definition get_entry :: "node_id \<Rightarrow> network_view \<Rightarrow> node_view option" where
  "get_entry node_id net = find_view node_id [] net"

definition session_target :: "node_id \<Rightarrow> network_view \<Rightarrow> (node_view, transition_error) result" where
  "session_target node_id net = ok_or (NodeNotFound node_id) (nw_by_node_id net node_id)"

definition node_view_new :: "nat \<Rightarrow> node_id \<Rightarrow> socket_addr list \<Rightarrow> string list \<Rightarrow> public_key option \<Rightarrow> node_id list \<Rightarrow>
    network_view \<Rightarrow> node_view \<times> network_view" where
  "node_view_new now node_id addresses supported_encryption remote_session_key authenticated_identities net =
     (let (epoch, net) = next_generation net in
      (\<lparr> nv_id = node_id, nv_cell = length (nw_cells net), nv_expected_generation = None \<rparr>,
       net\<lparr> nw_cells := nw_cells net @
         [\<lparr> nc_state = \<lparr> ns_node = [], ns_addresses = addresses, ns_supported_encryption = supported_encryption,
              ns_session_key = remote_session_key, ns_authenticated_identities = authenticated_identities,
              ns_state = Closed, ns_slot = FORWARD_SLOT_ID, ns_abort_handle = [] \<rparr>,
            nc_notified = [], nc_epoch = epoch, nc_retired = False, nc_last_info_update = now \<rparr>] \<rparr>))"

definition insert_ids :: "node_id list \<Rightarrow> node_view \<Rightarrow> network_view \<Rightarrow> network_view" where
  "insert_ids ids v net = net\<lparr> nw_by_node_id := fold (\<lambda>i m. m(i \<mapsto> v)) ids (nw_by_node_id net) \<rparr>"

definition insert_addrs :: "socket_addr list \<Rightarrow> node_view \<Rightarrow> network_view \<Rightarrow> network_view" where
  "insert_addrs addrs v net = net\<lparr> nw_by_addr := fold (\<lambda>a m. m(a \<mapsto> v)) addrs (nw_by_addr net) \<rparr>"

definition guard :: "nat \<Rightarrow> node_id \<Rightarrow> socket_addr list \<Rightarrow> network_view \<Rightarrow> node_view \<times> network_view" where
  "guard now node_id addrs net =
     (case find_view node_id addrs net of
        Some target \<Rightarrow> (target, net)
      | None \<Rightarrow>
          (let (target, net) = node_view_new now node_id addrs [] None [] net;
               net = insert_ids [nv_id target] target net in
           (target, insert_addrs addrs target net)))"

definition retain_other :: "node_view \<Rightarrow> ('k \<rightharpoonup> node_view) \<Rightarrow> ('k \<rightharpoonup> node_view)" where
  "retain_other v m = (\<lambda>k. case m k of Some e \<Rightarrow> if nv_cell e = nv_cell v then None else Some e | None \<Rightarrow> None)"

definition remove_generation :: "node_view \<Rightarrow> network_view \<Rightarrow> bool \<times> network_view" where
  "remove_generation node net =
     (if \<not> is_current net node then (False, net)
      else
        (let handles = ns_abort_handle (nc_state (cell net node));
             net = set_cell node (\<lambda>c. c\<lparr> nc_retired := True,
               nc_state := (nc_state c)\<lparr> ns_state := Closed, ns_abort_handle := [] \<rparr> \<rparr>) net;
             net = net\<lparr> nw_aborted := nw_aborted net @ handles,
               nw_by_node_id := retain_other node (nw_by_node_id net), nw_by_addr := retain_other node (nw_by_addr net) \<rparr> in
         (True, notify_change Closed node net)))"

definition remove_node :: "node_id \<Rightarrow> network_view \<Rightarrow> network_view" where
  "remove_node node_id net =
     (case get_entry node_id net of
        Some node \<Rightarrow> snd (remove_generation (snapshot net node) net)
      | None \<Rightarrow> net)"

definition update_entry :: "nat \<Rightarrow> node_info \<Rightarrow> network_view \<Rightarrow> (unit, view_error) result \<times> network_view" where
  "update_entry now info net =
     (let addrs = map ep_address (ni_endpoints info);
          ids = map id_node_id (ni_identities info);
          entries = List.map_filter (\<lambda>node. find_view node [] net) ids in
      if entries \<noteq> [] \<and> \<not> list_all (\<lambda>e. nv_cell e = nv_cell (hd entries)) entries then (Err InconsistentView, net)
      else
        (case (case entries of
                 e # _ \<Rightarrow> Ok (e, net)
               | [] \<Rightarrow> rbind (default_node_id info) (\<lambda>node_id.
                   Ok (node_view_new now node_id addrs (ni_supported_encryption info) (ni_session_key info)
                     (ni_authenticated_identities info) net))) of
           Ok (entry, net) \<Rightarrow>
             (let net = insert_ids ids entry net;
                  net = insert_addrs addrs entry net in
              (Ok (), snd (update_info entry info net)))
         | Err e \<Rightarrow> (Err e, net)
         | Panic \<Rightarrow> (Panic, net)))"

text \<open>The states in which nothing may be published any more.\<close>

fun is_over :: "session_state \<Rightarrow> bool" where
  "is_over Closed = True"
| "is_over Closing = True"
| "is_over (FailedEstablish _) = True"
| "is_over _ = False"

text \<open>The callback of a refresh is given by its result; it does not touch the registry.\<close>

definition commit_refresh :: "nat \<Rightarrow> node_view \<Rightarrow> node_info \<Rightarrow> (unit, string) result \<Rightarrow> network_view \<Rightarrow>
    (unit, view_error) result \<times> network_view" where
  "commit_refresh now owner info published net =
     (let ids = map id_node_id (ni_identities info);
          addrs = map ep_address (ni_endpoints info) in
      if \<not> is_current net owner \<or> is_over (view_state net owner) then (Err GenerationRetired, net)
      else if \<not> list_ex (\<lambda>i. i = nv_id owner) ids then (Err IdentityChanged, net)
      else if list_ex (\<lambda>i. case nw_by_node_id net i of Some e \<Rightarrow> nv_cell e \<noteq> nv_cell owner | None \<Rightarrow> False) ids
      then (Err IdentityConflict, net)
      else if list_ex (\<lambda>a. case nw_by_addr net a of Some e \<Rightarrow> nv_cell e \<noteq> nv_cell owner | None \<Rightarrow> False) addrs
      then (Err EndpointConflict, net)
      else
        (case published of
           Err e \<Rightarrow> (Err (PublishFailed e), net)
         | Panic \<Rightarrow> (Panic, net)
         | Ok _ \<Rightarrow>
             (let live_view = owner\<lparr> nv_expected_generation := None \<rparr>;
                  net = insert_addrs addrs live_view (insert_ids ids live_view net) in
              (Ok (), set_cell owner (\<lambda>c. c\<lparr> nc_state := apply_info info (nc_state c), nc_last_info_update := now \<rparr>) net))))"

section \<open>Changing the state of a view\<close>

definition view_change :: "(session_state \<Rightarrow> (session_state, transition_error) result \<times> session_state) \<Rightarrow> node_view \<Rightarrow>
    network_view \<Rightarrow> (session_state, transition_error) result \<times> network_view" where
  "view_change f v net =
     (if \<not> is_current net v then (Err (NodeNotFound (nv_id v)), net)
      else
        (case f (view_state net v) of
           (Ok new_state, st) \<Rightarrow>
             (Ok new_state, notify_change new_state v (set_state v (\<lambda>s. s\<lparr> ns_state := st \<rparr>) net))
         | (Err e, st) \<Rightarrow> (Err e, set_state v (\<lambda>s. s\<lparr> ns_state := st \<rparr>) net)
         | (Panic, st) \<Rightarrow> (Panic, net)))"

definition view_transition :: "session_state \<Rightarrow> node_view \<Rightarrow> network_view \<Rightarrow>
    (session_state, transition_error) result \<times> network_view" where
  "view_transition new_state = view_change (transition new_state)"

definition view_transition_incoming :: "init_state \<Rightarrow> node_view \<Rightarrow> network_view \<Rightarrow>
    (session_state, transition_error) result \<times> network_view" where
  "view_transition_incoming new_state = view_change (transition_incoming new_state)"

definition view_transition_outgoing :: "init_state \<Rightarrow> node_view \<Rightarrow> network_view \<Rightarrow>
    (session_state, transition_error) result \<times> network_view" where
  "view_transition_outgoing new_state = view_change (transition_outgoing new_state)"

definition network_change :: "(node_view \<Rightarrow> network_view \<Rightarrow> (session_state, transition_error) result \<times> network_view) \<Rightarrow>
    node_id \<Rightarrow> network_view \<Rightarrow> (session_state, transition_error) result \<times> network_view" where
  "network_change f node_id net =
     (case session_target node_id net of
        Ok v \<Rightarrow> f v net
      | Err e \<Rightarrow> (Err e, net)
      | Panic \<Rightarrow> (Panic, net))"

definition begin_closing :: "node_view \<Rightarrow> network_view \<Rightarrow> session_state \<times> network_view" where
  "begin_closing v net =
     (if \<not> is_current net v then (Closed, net)
      else (view_state net v, notify_change Closing v (set_state v (\<lambda>s. s\<lparr> ns_state := Closing \<rparr>) net)))"

definition publication_guard :: "node_view \<Rightarrow> network_view \<Rightarrow> (node_view_state, view_error) result" where
  "publication_guard v net =
     (if \<not> is_current net v \<or> is_over (view_state net v) then Err (NotInitializing (generation net v))
      else Ok (nc_state (cell net v)))"

definition state_of :: "node_view \<Rightarrow> network_view \<Rightarrow> session_state" where
  "state_of v net = (if is_current net v then view_state net v else Closed)"

section \<open>Aborting\<close>

definition register_abortable :: "nat \<Rightarrow> node_view \<Rightarrow> network_view \<Rightarrow> network_view" where
  "register_abortable handle v net =
     (if is_current net v \<and> view_state net v \<notin> {Closing, Closed}
      then set_state v (\<lambda>s. s\<lparr> ns_abort_handle := ns_abort_handle s @ [handle] \<rparr>) net
      else net\<lparr> nw_aborted := nw_aborted net @ [handle] \<rparr>)"

definition unregister_abortable :: "node_view \<Rightarrow> network_view \<Rightarrow> network_view" where
  "unregister_abortable v net =
     (if is_current net v then set_state v (\<lambda>s. s\<lparr> ns_abort_handle := [] \<rparr>) net else net)"

definition abort_initialization :: "node_view \<Rightarrow> network_view \<Rightarrow> network_view" where
  "abort_initialization v net =
     (if \<not> is_current net v then net
      else
        (let handles = ns_abort_handle (nc_state (cell net v));
             net = set_state v (\<lambda>s. s\<lparr> ns_abort_handle := [] \<rparr>) net in
         net\<lparr> nw_aborted := nw_aborted net @ handles \<rparr>))"

section \<open>Permits\<close>

record session_permit =
  sp_registry :: node_view
  sp_reverse :: bool
  sp_result :: "(session_error + direct_ref) option"

datatype session_lock = Permit session_permit | Wait node_view

fun is_reverse :: "session_state \<Rightarrow> bool" where
  "is_reverse (ReverseConnection _) = True"
| "is_reverse _ = False"

definition lock_session :: "bool \<Rightarrow> node_view \<Rightarrow> network_view \<Rightarrow> session_lock \<times> network_view" where
  "lock_session incoming v net =
     (let (r, st) =
        (if \<not> is_current net v then (Err (NodeNotFound (nv_id v)), view_state net v)
         else if incoming then transition_incoming ConnectIntent (view_state net v)
         else transition_outgoing ConnectIntent (view_state net v)) in
      case r of
        Ok state \<Rightarrow>
          (let net = set_state v (\<lambda>s. s\<lparr> ns_state := st \<rparr>) net;
               reverse = is_reverse state;
               net = (if \<not> reverse
                      then (let (g, net) = next_generation net in set_cell v (\<lambda>c. c\<lparr> nc_epoch := g \<rparr>) net)
                      else net);
               registry = snapshot net v in
           (Permit \<lparr> sp_registry = registry, sp_reverse = reverse, sp_result = None \<rparr>, notify_change state registry net))
      | _ \<Rightarrow> (Wait (snapshot net v), net))"

definition lock_outgoing :: "nat \<Rightarrow> node_id \<Rightarrow> socket_addr list \<Rightarrow> network_view \<Rightarrow> session_lock \<times> network_view" where
  "lock_outgoing now node_id addrs net = (let (v, net) = guard now node_id addrs net in lock_session False v net)"

definition lock_incoming :: "nat \<Rightarrow> node_id \<Rightarrow> socket_addr list \<Rightarrow> network_view \<Rightarrow> session_lock \<times> network_view" where
  "lock_incoming now node_id addrs net = (let (v, net) = guard now node_id addrs net in lock_session True v net)"

definition collect_permit :: "session_error + direct_ref \<Rightarrow> session_permit \<Rightarrow> session_permit" where
  "collect_permit result p = p\<lparr> sp_result := Some result \<rparr>"

definition final_state :: "session_permit \<Rightarrow> session_state" where
  "final_state p =
     (case sp_result p of
        None \<Rightarrow>
          (let err = SeProgrammingError ''Dropping `SessionPermit` without result.'' in
           if sp_reverse p then ReverseConnection (Finished (Inl err)) else FailedEstablish err)
      | Some result \<Rightarrow>
          if sp_reverse p then ReverseConnection (Finished result)
          else (case result of Inr session \<Rightarrow> Established session | Inl e \<Rightarrow> FailedEstablish e))"

text \<open>The request to the session layer to drop the generation is recorded.\<close>

definition clean_state :: "node_view \<Rightarrow> network_view \<Rightarrow> network_view" where
  "clean_state node net =
     (let net = abort_initialization node net in net\<lparr> nw_unregistered := nw_unregistered net @ [node] \<rparr>)"

fun is_failed :: "session_state \<Rightarrow> bool" where
  "is_failed (FailedEstablish _) = True"
| "is_failed _ = False"

definition async_drop :: "string \<Rightarrow> node_view \<Rightarrow> session_state \<Rightarrow> network_view \<Rightarrow> network_view" where
  "async_drop message node new_state net =
     (if \<not> is_current net node \<or> state_of node net \<in> {Closed, Closing} then net
      else if is_failed new_state then clean_state node (snd (view_transition new_state node net))
      else
        (let net = (case new_state of ReverseConnection (Finished _) \<Rightarrow> net | _ \<Rightarrow> unregister_abortable node net) in
         case view_transition new_state node net of
           (Ok _, net) \<Rightarrow> net
         | (_, net) \<Rightarrow>
             if is_reverse new_state then net
             else snd (view_transition (FailedEstablish (SeProgrammingError message)) node (clean_state node net))))"

definition permit_drop :: "string \<Rightarrow> session_permit \<Rightarrow> network_view \<Rightarrow> network_view" where
  "permit_drop message p = async_drop message (sp_registry p) (final_state p)"

section \<open>Waiting for a result\<close>

text \<open>
  A waiting task sees the current state first and then the outcomes of its calls for the next one: the
  generation is found stale before waiting, or a state arrives, with whether the generation is still current then, or
  the channel closed or overflowed. The number of lost notifications is part of the message and left out. When the
  list of outcomes is exhausted the task keeps waiting, which is the result \<^term>\<open>None\<close>.
\<close>

datatype notification = Stale | Notified session_state bool | NotifierClosed | NotifierLagged

definition CLOSED_ERROR :: session_error where "CLOSED_ERROR = SeUnexpected ''Connection closed.''"

definition await_next :: "notification \<Rightarrow> (session_state, session_error) result" where
  "await_next n =
     (case n of
        Stale \<Rightarrow> Ok Closed
      | Notified state current \<Rightarrow> Ok (if current then state else Closed)
      | NotifierClosed \<Rightarrow> Err (SeInternal ''Waiting for session initialization: notifier dropped.'')
      | NotifierLagged \<Rightarrow> Err (SeInternal ''Waiting for session initialization: notifier lagged.''))"

fun await_until :: "(session_state \<Rightarrow> ('a, session_error) result option) \<Rightarrow> session_state \<Rightarrow> notification list \<Rightarrow>
    ('a, session_error) result option" where
  "await_until decide state ns =
     (case decide state of
        Some r \<Rightarrow> Some r
      | None \<Rightarrow>
          (case ns of
             [] \<Rightarrow> None
           | n # ns' \<Rightarrow>
               (case await_next n of
                  Ok state \<Rightarrow> await_until decide state ns'
                | Err e \<Rightarrow> Some (Err e)
                | Panic \<Rightarrow> Some Panic)))"

definition finish_decision :: "(direct_ref \<Rightarrow> bool) \<Rightarrow> session_state \<Rightarrow> (direct_ref, session_error) result option" where
  "finish_decision alive state =
     (case state of
        Established session \<Rightarrow>
          Some (if alive session then Ok session else Err (SeUnexpected ''Session closed unexpectedly.''))
      | Closed \<Rightarrow> Some (Err CLOSED_ERROR)
      | FailedEstablish e \<Rightarrow> Some (Err e)
      | _ \<Rightarrow> None)"

definition closed_decision :: "session_state \<Rightarrow> (unit, session_error) result option" where
  "closed_decision state =
     (case state of
        Closed \<Rightarrow> Some (Err CLOSED_ERROR)
      | FailedEstablish e \<Rightarrow> Some (Err e)
      | _ \<Rightarrow> None)"

definition handshake_decision :: "session_state \<Rightarrow> (unit, session_error) result option" where
  "handshake_decision state =
     (case state of
        Outgoing ChallengeHandshake \<Rightarrow> Some (Ok ())
      | Incoming ChallengeHandshake \<Rightarrow> Some (Ok ())
      | ReverseConnection (InProgress ChallengeHandshake) \<Rightarrow> Some (Ok ())
      | Closed \<Rightarrow> Some (Err CLOSED_ERROR)
      | Closing \<Rightarrow> Some (Err CLOSED_ERROR)
      | FailedEstablish e \<Rightarrow> Some (Err e)
      | _ \<Rightarrow> None)"

definition reverse_decision :: "session_state \<Rightarrow> (direct_ref, session_error) result option" where
  "reverse_decision state =
     (case state of
        ReverseConnection (Finished (Inr session)) \<Rightarrow> Some (Ok session)
      | ReverseConnection (Finished (Inl e)) \<Rightarrow> Some (Err e)
      | Closed \<Rightarrow> Some (Err CLOSED_ERROR)
      | Closing \<Rightarrow> Some (Err CLOSED_ERROR)
      | FailedEstablish e \<Rightarrow> Some (Err e)
      | _ \<Rightarrow> None)"

definition await_for_finish :: "(direct_ref \<Rightarrow> bool) \<Rightarrow> node_view \<Rightarrow> notification list \<Rightarrow> network_view \<Rightarrow>
    (direct_ref, session_error) result option" where
  "await_for_finish alive registry ns net = await_until (finish_decision alive) (state_of registry net) ns"

definition await_for_closed_or_failed :: "node_view \<Rightarrow> notification list \<Rightarrow> network_view \<Rightarrow>
    (unit, session_error) result option" where
  "await_for_closed_or_failed registry ns net = await_until closed_decision (state_of registry net) ns"

definition await_handshake :: "node_view \<Rightarrow> notification list \<Rightarrow> network_view \<Rightarrow> (unit, session_error) result option" where
  "await_handshake registry ns net = await_until handshake_decision (state_of registry net) ns"

definition await_reverse_finish :: "node_view \<Rightarrow> notification list \<Rightarrow> network_view \<Rightarrow>
    (direct_ref, session_error) result option" where
  "await_reverse_finish registry ns net = await_until reverse_decision (state_of registry net) ns"

section \<open>Asking for information about a node\<close>

text \<open>
  The answer of the relay server, or the failure to get one that can be converted, is an argument; the
  first component of the result tells whether the server was asked.
\<close>

definition query_node_info :: "nat \<Rightarrow> nat \<Rightarrow> node_id \<Rightarrow> (node_info, string) result \<Rightarrow> network_view \<Rightarrow>
    bool \<times> (node_info, view_error) result \<times> network_view" where
  "query_node_info node_info_ttl now node_id found net =
     (case (case get_entry node_id net of
              Some entry \<Rightarrow>
                (case view_info node_info_ttl now entry net of UpToDate info \<Rightarrow> Some info | UpdateRecommended _ \<Rightarrow> None)
            | None \<Rightarrow> None) of
        Some info \<Rightarrow> (False, Ok info, net)
      | None \<Rightarrow>
          (True,
           (case found of
              Err e \<Rightarrow> (Err (QueryFailed e), net)
            | Panic \<Rightarrow> (Panic, net)
            | Ok info \<Rightarrow>
                (case update_entry now info net of
                   (Ok _, net) \<Rightarrow> (Ok info, net)
                 | (Err e, net) \<Rightarrow> (Err e, net)
                 | (Panic, net) \<Rightarrow> (Panic, net)))))"

end
