(* ===== verification/Network_Spec.thy ===== *)
theory Network_Spec
  imports Network_View
begin

text \<open>
  What the network view guarantees while any number of tasks use it: the registry lists live entries only, the
  right to initialise a session is granted to one task at a time, a task of an earlier generation changes nothing any
  more, and giving up a permit always ends the initialisation.
\<close>

section \<open>Executions\<close>

text \<open>
  A view somebody can hold: its cell exists and its generation has been issued. A step is one operation through any
  such view, while generation numbers are left.
\<close>

definition view_ok :: "network_view \<Rightarrow> node_view \<Rightarrow> bool" where
  "view_ok net v \<longleftrightarrow> nv_cell v < length (nw_cells net)
     \<and> (\<forall>g. nv_expected_generation v = Some g \<longrightarrow> g < nw_next_generation net)"

definition generations_left :: "network_view \<Rightarrow> bool" where
  "generations_left net \<longleftrightarrow> nw_next_generation net < nw_next_generation net + 1"

inductive network_step :: "network_view \<Rightarrow> network_view \<Rightarrow> bool" where
  guard: "generations_left net \<Longrightarrow> network_step net (snd (guard now node_id addrs net))"
| update: "generations_left net \<Longrightarrow> network_step net (snd (update_entry now info net))"
| refresh: "view_ok net v \<Longrightarrow> network_step net (snd (commit_refresh now v info published net))"
| remove: "view_ok net v \<Longrightarrow> network_step net (snd (remove_generation v net))"
| change: "view_ok net v \<Longrightarrow> network_step net (snd (view_transition new_state v net))"
| change_incoming: "view_ok net v \<Longrightarrow> network_step net (snd (view_transition_incoming i v net))"
| change_outgoing: "view_ok net v \<Longrightarrow> network_step net (snd (view_transition_outgoing i v net))"
| closing: "view_ok net v \<Longrightarrow> network_step net (snd (begin_closing v net))"
| lock: "view_ok net v \<Longrightarrow> generations_left net \<Longrightarrow> network_step net (snd (lock_session incoming v net))"
| register: "view_ok net v \<Longrightarrow> network_step net (register_abortable handle v net)"
| unregister: "view_ok net v \<Longrightarrow> network_step net (unregister_abortable v net)"
| abort: "view_ok net v \<Longrightarrow> network_step net (abort_initialization v net)"
| clean: "view_ok net v \<Longrightarrow> network_step net (clean_state v net)"
| dropped: "view_ok net v \<Longrightarrow> network_step net (async_drop message v new_state net)"

definition network_steps :: "network_view \<Rightarrow> network_view \<Rightarrow> bool" where
  "network_steps = network_step\<^sup>*\<^sup>*"

section \<open>Generations never return\<close>

text \<open>
  The order of the states of an execution: cells stay, retired cells stay retired, and an epoch changes to a
  number that had not been issued.
\<close>

definition later :: "network_view \<Rightarrow> network_view \<Rightarrow> bool" where
  "later net net' \<longleftrightarrow> length (nw_cells net) \<le> length (nw_cells net') \<and> nw_next_generation net \<le> nw_next_generation net'
     \<and> (\<forall>i < length (nw_cells net). (nc_retired (nw_cells net ! i) \<longrightarrow> nc_retired (nw_cells net' ! i))
         \<and> (nc_epoch (nw_cells net' ! i) = nc_epoch (nw_cells net ! i) \<or> nw_next_generation net \<le> nc_epoch (nw_cells net' ! i)))"

text \<open>The invariant: epochs have been issued, and the registry lists live, unretired entries only.\<close>

definition registered_ok :: "network_view \<Rightarrow> node_view \<Rightarrow> bool" where
  "registered_ok net v \<longleftrightarrow> nv_cell v < length (nw_cells net) \<and> \<not> nc_retired (cell net v) \<and> nv_expected_generation v = None"

definition network_ok :: "network_view \<Rightarrow> bool" where
  "network_ok net \<longleftrightarrow> (\<forall>c \<in> set (nw_cells net). nc_epoch c < nw_next_generation net)
     \<and> (\<forall>k v. nw_by_node_id net k = Some v \<longrightarrow> registered_ok net v)
     \<and> (\<forall>k v. nw_by_addr net k = Some v \<longrightarrow> registered_ok net v)"

lemma later_refl [simp]: "later net net"
  by (simp add: later_def)

lemma later_trans:
  assumes "later a b" "later b c"
  shows "later a c"
proof -
  note ab = assms(1) [unfolded later_def] and bc = assms(2) [unfolded later_def]
  have "(nc_retired (nw_cells a ! i) \<longrightarrow> nc_retired (nw_cells c ! i))
      \<and> (nc_epoch (nw_cells c ! i) = nc_epoch (nw_cells a ! i) \<or> nw_next_generation a \<le> nc_epoch (nw_cells c ! i))"
    if i: "i < length (nw_cells a)" for i
  proof -
    have j: "i < length (nw_cells b)" using ab i by simp
    have "nc_epoch (nw_cells c ! i) = nc_epoch (nw_cells b ! i) \<or> nw_next_generation b \<le> nc_epoch (nw_cells c ! i)"
      "nc_epoch (nw_cells b ! i) = nc_epoch (nw_cells a ! i) \<or> nw_next_generation a \<le> nc_epoch (nw_cells b ! i)"
      using ab bc i j by blast+
    moreover have "nw_next_generation a \<le> nw_next_generation b" using ab by blast
    ultimately have "nc_epoch (nw_cells c ! i) = nc_epoch (nw_cells a ! i) \<or> nw_next_generation a \<le> nc_epoch (nw_cells c ! i)"
      by auto
    then show ?thesis using ab bc i j by blast
  qed
  moreover have "length (nw_cells a) \<le> length (nw_cells c)" "nw_next_generation a \<le> nw_next_generation c"
    using ab bc by auto
  ultimately show ?thesis unfolding later_def by blast
qed

definition evolves :: "network_view \<Rightarrow> network_view \<Rightarrow> bool" where
  "evolves net net' \<longleftrightarrow> later net net' \<and> (network_ok net \<longrightarrow> network_ok net')"

lemma evolves_refl [simp]: "evolves net net" by (simp add: evolves_def)

lemma evolves_trans: "evolves a b \<Longrightarrow> evolves b c \<Longrightarrow> evolves a c"
  by (auto simp: evolves_def intro: later_trans)

lemma evolves_logs [simp]:
  "evolves net (net'\<lparr> nw_aborted := x \<rparr>) = evolves net net'" "evolves net (net'\<lparr> nw_unregistered := y \<rparr>) = evolves net net'"
  by (simp_all add: evolves_def later_def network_ok_def registered_ok_def cell_def)

text \<open>Changes of a cell that keep its epoch and do not retire it.\<close>

lemma evolves_set_cell:
  assumes "\<And>c. nc_epoch (f c) = nc_epoch c" "\<And>c. nc_retired (f c) = nc_retired c"
  shows "evolves net (set_cell v f net)"
proof (cases "nv_cell v < length (nw_cells net)")
  case True
  then have "set ((nw_cells net)[nv_cell v := f (cell net v)]) \<subseteq> insert (f (cell net v)) (set (nw_cells net))" "cell net v \<in> set (nw_cells net)"
    by (simp_all add: set_update_subset_insert cell_def)
  then show ?thesis
    using assms True by (auto simp: evolves_def later_def network_ok_def registered_ok_def set_cell_def cell_def nth_list_update)
qed (simp add: set_cell_def list_update_beyond)

lemma evolves_set_state [simp]: "evolves net (set_state v f net)"
  unfolding set_state_def by (rule evolves_set_cell) simp_all

lemma evolves_notify [simp]: "evolves net (notify_change st v net)"
  unfolding notify_change_def by (rule evolves_set_cell) simp_all

lemma registered_fold:
  assumes "\<forall>k e. m k = Some e \<longrightarrow> P e" "P v"
  shows "fold (\<lambda>i m. m(i \<mapsto> v)) ks m k = Some e \<Longrightarrow> P e"
  using assms
proof (induction ks arbitrary: m)
  case (Cons i ks)
  then show ?case using Cons.IH [of "m(i \<mapsto> v)"] by (auto split: if_splits)
qed simp

lemma insert_ok:
  assumes "network_ok net" "registered_ok net v"
  shows "network_ok (insert_ids ids v net)" "network_ok (insert_addrs addrs v net)"
    and "registered_ok (insert_ids ids v net) w = registered_ok net w" "registered_ok (insert_addrs addrs v net) w = registered_ok net w"
  using assms registered_fold [of "nw_by_node_id net" "registered_ok net" v ids]
    registered_fold [of "nw_by_addr net" "registered_ok net" v addrs]
  by (auto simp: network_ok_def insert_ids_def insert_addrs_def registered_ok_def cell_def)

lemma later_insert [simp]:
  "later net (insert_ids ids v net') = later net net'" "later net (insert_addrs addrs v net') = later net net'"
  by (simp_all add: later_def insert_ids_def insert_addrs_def)

lemma evolves_insert:
  assumes "evolves net net'" "network_ok net \<Longrightarrow> registered_ok net' v"
  shows "evolves net (insert_addrs addrs v (insert_ids ids v net'))"
  using assms by (auto simp: evolves_def insert_ok)

lemma node_view_new_ok:
  assumes "generations_left net" "node_view_new now i a e k au net = (v, net')"
  shows "evolves net net' \<and> registered_ok net' v"
proof -
  have n: "nw_next_generation net' = nw_next_generation net + 1" "nv_cell v = length (nw_cells net)" "nv_expected_generation v = None"
    "\<exists>c. nw_cells net' = nw_cells net @ [c] \<and> nc_epoch c = nw_next_generation net \<and> \<not> nc_retired c"
    "nw_by_node_id net' = nw_by_node_id net" "nw_by_addr net' = nw_by_addr net"
    using assms(2) by (auto simp: node_view_new_def next_generation_def Let_def)
  have lt: "nw_next_generation net < nw_next_generation net'" using assms(1) n by (simp add: generations_left_def)
  obtain c where c: "nw_cells net' = nw_cells net @ [c]" "nc_epoch c = nw_next_generation net" "\<not> nc_retired c" using n(4) by blast
  have "later net net'" using lt by (auto simp: later_def c nth_append)
  moreover have "registered_ok net w \<Longrightarrow> registered_ok net' w" for w
    by (auto simp: registered_ok_def c cell_def nth_append)
  then have "network_ok net \<Longrightarrow> network_ok net'"
    using lt n(5,6) by (auto simp: network_ok_def c dest: order_less_trans)
  ultimately show ?thesis using n by (auto simp: evolves_def registered_ok_def c cell_def)
qed

lemma find_view_ok: "network_ok net \<Longrightarrow> find_view i addrs net = Some v \<Longrightarrow> registered_ok net v"
proof -
  assume ok: "network_ok net" and f: "find_view i addrs net = Some v"
  show "registered_ok net v"
  proof (cases "nw_by_node_id net i")
    case None
    then have "v \<in> set (List.map_filter (nw_by_addr net) addrs)" using f by (auto simp: find_view_def split: list.splits)
    then obtain a where "nw_by_addr net a = Some v" by (auto simp: List.map_filter_def)
    then show ?thesis using ok by (auto simp: network_ok_def)
  qed (use ok f in \<open>auto simp: network_ok_def find_view_def\<close>)
qed

lemma evolves_guard: "generations_left net \<Longrightarrow> evolves net (snd (guard now i addrs net))"
  by (auto simp: guard_def Let_def dest: node_view_new_ok intro!: evolves_insert split: option.splits prod.splits)

lemma evolves_update_info [simp]: "evolves net (snd (update_info v info net))"
  by (auto simp: update_info_def split: list.splits)

lemma evolves_update_entry: 
  assumes "generations_left net"
  shows "evolves net (snd (update_entry now info net))"
proof -
  define ids where "ids = map id_node_id (ni_identities info)"
  define entries where "entries = List.map_filter (\<lambda>node. find_view node [] net) ids"
  have ins: "evolves net (snd (update_info v info (insert_addrs a v (insert_ids i v net'))))"
    if "evolves net net'" "network_ok net \<Longrightarrow> registered_ok net' v" for v net' a i
    using evolves_trans [OF evolves_insert [OF that] evolves_update_info] .
  have hd: "registered_ok net e" if "network_ok net" "entries = e # es" for e es
  proof -
    have "e \<in> set entries" using that by simp
    then show ?thesis using find_view_ok [OF that(1)] by (auto simp: entries_def List.map_filter_def)
  qed
  show ?thesis
  proof (cases entries)
    case Nil
    then show ?thesis
      using node_view_new_ok [OF assms]
      by (cases "ni_identities info")
        (auto simp: update_entry_def entries_def ids_def default_node_id_def Let_def split: prod.splits intro!: ins)
  next
    case (Cons e es)
    then show ?thesis
      using hd [OF _ Cons] by (auto simp: update_entry_def entries_def ids_def Let_def intro!: ins)
  qed
qed

lemma evolves_refresh:
  assumes "view_ok net v"
  shows "evolves net (snd (commit_refresh now v info published net))"
proof -
  have "evolves net (set_cell v (\<lambda>c. c\<lparr> nc_state := apply_info info (nc_state c), nc_last_info_update := now \<rparr>)
      (insert_addrs a (v\<lparr> nv_expected_generation := None \<rparr>) (insert_ids i (v\<lparr> nv_expected_generation := None \<rparr>) net)))"
    if "is_current net v" for a i
    using that assms
    by (intro evolves_trans [OF evolves_insert evolves_set_cell])
      (auto simp: registered_ok_def view_ok_def is_current_def cell_def)
  then show ?thesis by (cases published) (simp_all add: commit_refresh_def Let_def)
qed

lemma evolves_remove:
  assumes "view_ok net v"
  shows "evolves net (snd (remove_generation v net))"
proof -
  define c1 where "c1 = (cell net v)\<lparr> nc_retired := True,
       nc_state := (nc_state (cell net v))\<lparr> ns_state := Closed, ns_abort_handle := [] \<rparr> \<rparr>"
  define net1 where "net1 = net\<lparr> nw_cells := (nw_cells net)[nv_cell v := c1],
       nw_aborted := nw_aborted net @ ns_abort_handle (nc_state (cell net v)),
       nw_by_node_id := retain_other v (nw_by_node_id net), nw_by_addr := retain_other v (nw_by_addr net) \<rparr>"
  have lt: "nv_cell v < length (nw_cells net)" using assms by (simp add: view_ok_def)
  have c1: "nc_epoch c1 = nc_epoch (nw_cells net ! nv_cell v)" "nc_retired c1" by (simp_all add: c1_def cell_def)
  have "later net net1" using lt by (auto simp: later_def net1_def nth_list_update c1)
  moreover have "network_ok net1" if ok: "network_ok net"
  proof -
    have "registered_ok net w \<Longrightarrow> nv_cell w \<noteq> nv_cell v \<Longrightarrow> registered_ok net1 w" for w
      by (auto simp: registered_ok_def net1_def cell_def)
    moreover have "nc_epoch c < nw_next_generation net" if "c \<in> set (nw_cells net1)" for c
    proof -
      have "c \<in> insert c1 (set (nw_cells net))" using that set_update_subset_insert by (fastforce simp: net1_def)
      then show ?thesis using ok lt nth_mem [OF lt] by (auto simp: network_ok_def c1)
    qed
    ultimately show ?thesis
      using ok by (auto simp: network_ok_def net1_def retain_other_def split: option.splits if_splits)
  qed
  ultimately have "evolves net net1" by (simp add: evolves_def)
  then have "evolves net (notify_change Closed v net1)" by (rule evolves_trans) simp
  moreover have "snd (remove_generation v net) \<in> {net, notify_change Closed v net1}"
    by (simp add: remove_generation_def net1_def c1_def set_cell_def Let_def)
  ultimately show ?thesis by auto
qed

lemma evolves_set_notify [simp]: "evolves net (notify_change st v (set_state w f net))"
  by (rule evolves_trans [OF evolves_set_state evolves_notify])

lemma evolves_change [simp]: "evolves net (snd (view_change f v net))"
  by (auto simp: view_change_def split: prod.splits result.splits)

lemma evolves_transitions [simp]:
  "evolves net (snd (view_transition st v net))" "evolves net (snd (view_transition_incoming i v net))"
  "evolves net (snd (view_transition_outgoing i v net))"
  by (simp_all add: view_transition_def view_transition_incoming_def view_transition_outgoing_def)

lemma evolves_simple [simp]:
  "evolves net (snd (begin_closing v net))" "evolves net (register_abortable h v net)"
  "evolves net (unregister_abortable v net)" "evolves net (abort_initialization v net)"
  by (simp_all add: begin_closing_def register_abortable_def unregister_abortable_def abort_initialization_def Let_def)

lemma evolves_clean [simp]: "evolves net (clean_state v net)"
  by (simp add: clean_state_def Let_def)

lemma evolves_drop: "evolves net (async_drop msg v st net)"
proof -
  define net1 where "net1 = (case st of ReverseConnection (Finished _) \<Rightarrow> net | _ \<Rightarrow> unregister_abortable v net)"
  have net1: "evolves net net1" by (auto simp: net1_def split: session_state.splits reverse_state.splits)
  obtain r net2 where t: "view_transition st v net1 = (r, net2)" by fastforce
  have net2: "evolves net net2" using evolves_trans [OF net1 evolves_transitions(1), of st v] t by simp
  have "evolves net (snd (view_transition x v (clean_state v net2)))" for x
    by (rule evolves_trans [OF net2 evolves_trans [OF evolves_clean evolves_transitions(1)]])
  moreover have "evolves net (clean_state v (snd (view_transition st v net)))"
    by (rule evolves_trans [OF evolves_transitions(1) evolves_clean])
  ultimately show ?thesis
    using net2 t unfolding async_drop_def net1_def [symmetric] Let_def by (cases r) auto
qed

lemma evolves_renew:
  assumes "nv_cell v < length (nw_cells net)" "generations_left net"
  shows "evolves net (set_cell v (\<lambda>c. c\<lparr> nc_epoch := nw_next_generation net \<rparr>)
    (net\<lparr> nw_next_generation := nw_next_generation net + 1 \<rparr>))" (is "evolves net ?net")
proof -
  have lt: "nw_next_generation net < nw_next_generation net + 1" using assms(2) by (simp add: generations_left_def)
  have "later net ?net" using assms(1) lt by (auto simp: later_def set_cell_def cell_def nth_list_update)
  moreover have "network_ok ?net" if ok: "network_ok net"
  proof -
    have "registered_ok net w \<Longrightarrow> registered_ok ?net w" for w
      using assms(1) by (cases "nv_cell w = nv_cell v") (auto simp: registered_ok_def set_cell_def cell_def)
    moreover have "nc_epoch c < nw_next_generation net + 1" if "c \<in> set (nw_cells ?net)" for c
    proof -
      have "c \<in> insert ((cell net v)\<lparr> nc_epoch := nw_next_generation net \<rparr>) (set (nw_cells net))"
        using that set_update_subset_insert by (fastforce simp: set_cell_def cell_def)
      then show ?thesis using ok lt by (auto simp: network_ok_def dest: order_less_trans)
    qed
    ultimately show ?thesis using ok by (auto simp: network_ok_def set_cell_def)
  qed
  ultimately show ?thesis by (simp add: evolves_def)
qed

lemma evolves_lock:
  assumes "view_ok net v" "generations_left net"
  shows "evolves net (snd (lock_session incoming v net))"
proof -
  have "evolves net (notify_change x w (set_cell v (\<lambda>c. c\<lparr> nc_epoch := nw_next_generation net \<rparr>)
      ((set_state v f net)\<lparr> nw_next_generation := nw_next_generation net + 1 \<rparr>)))" for x w f
  proof -
    have s: "nv_cell v < length (nw_cells (set_state v f net))" "generations_left (set_state v f net)"
      and n: "nw_next_generation (set_state v f net) = nw_next_generation net"
      using assms by (simp_all add: view_ok_def generations_left_def set_state_def set_cell_def)
    show ?thesis
      using evolves_trans [OF evolves_set_state evolves_trans [OF evolves_renew [OF s] evolves_notify]] unfolding n .
  qed
  moreover have "nw_next_generation (set_state v f net) = nw_next_generation net" for f
    by (simp add: set_state_def set_cell_def)
  ultimately show ?thesis
    by (auto simp: lock_session_def next_generation_def Let_def split: prod.splits result.splits)
qed

lemma network_step_evolves: "network_step net net' \<Longrightarrow> evolves net net'"
  by (induction rule: network_step.induct)
    (auto intro: evolves_guard evolves_update_entry evolves_refresh evolves_remove evolves_lock evolves_drop)

lemma network_steps_evolves: "network_steps net net' \<Longrightarrow> evolves net net'"
  unfolding network_steps_def
  by (induction rule: rtranclp_induct) (auto intro: evolves_trans network_step_evolves)

lemma stale_stays:
  assumes "later net net'" "view_ok net v" "nv_expected_generation v = Some g" "\<not> is_current net v"
  shows "\<not> is_current net' v"
proof -
  have i: "nv_cell v < length (nw_cells net)" and g: "g < nw_next_generation net" using assms(2,3) by (auto simp: view_ok_def)
  have "nc_retired (cell net v) \<or> nc_epoch (cell net v) \<noteq> g"
    using assms(3,4) by (auto simp: is_current_def generation_def)
  moreover have "nc_epoch (cell net' v) \<noteq> g" if "nw_next_generation net \<le> nc_epoch (cell net' v)" using that g by auto
  ultimately have "nc_retired (cell net' v) \<or> nc_epoch (cell net' v) \<noteq> g"
    using assms(1) i unfolding later_def cell_def by metis
  then show ?thesis using assms(3) by (auto simp: is_current_def generation_def)
qed

lemma network_new_ok: "network_ok network_view_new"
  by (simp add: network_ok_def network_view_new_def)

lemma intent_allowed:
  "state_allowed st (Incoming ConnectIntent) \<longleftrightarrow> st = Closed \<or> (\<exists>e. st = FailedEstablish e)"
  "state_allowed st (Outgoing ConnectIntent) \<longleftrightarrow> st = Closed \<or> (\<exists>e. st = FailedEstablish e)"
  by (cases st; simp add: state_allowed_def init_allowed_def split: init_state.splits reverse_state.splits relayed_state.splits sum.splits)+

lemma reverse_intent_allowed:
  "state_allowed (ReverseConnection r) (ReverseConnection (InProgress ConnectIntent)) \<longleftrightarrow> r = Awaiting"
  by (cases r) (simp_all add: state_allowed_def reverse_allowed_def init_allowed_def split: init_state.splits sum.splits)

text \<open>What the intent to connect does to the state of a session.\<close>

definition intent :: "bool \<Rightarrow> session_state \<Rightarrow> session_state option" where
  "intent incoming st =
     (if st = Closed \<or> is_failed st then Some (if incoming then Incoming ConnectIntent else Outgoing ConnectIntent)
      else if incoming \<and> st = ReverseConnection Awaiting then Some (ReverseConnection (InProgress ConnectIntent))
      else None)"

lemma is_failed_iff: "is_failed st \<longleftrightarrow> (\<exists>e. st = FailedEstablish e)"
  by (cases st) simp_all

lemma intent_transition:
  "(if incoming then transition_incoming ConnectIntent st else transition_outgoing ConnectIntent st) =
     (case intent incoming st of
        Some new \<Rightarrow> (Ok new, new)
      | None \<Rightarrow> (Err (InvalidTransition st (if incoming then (case st of ReverseConnection _ \<Rightarrow>
            ReverseConnection (InProgress ConnectIntent) | _ \<Rightarrow> Incoming ConnectIntent) else Outgoing ConnectIntent)), st))"
  by (cases st) (auto simp: intent_def transition_incoming_def transition_outgoing_def transition_def intent_allowed reverse_intent_allowed
      split: session_state.splits)

lemma lock_session_intent:
  assumes "is_current net v"
  shows "lock_session incoming v net =
    (case intent incoming (view_state net v) of
       None \<Rightarrow> (Wait (snapshot net v), net)
     | Some st \<Rightarrow>
         (let net1 = set_state v (\<lambda>s. s\<lparr> ns_state := st \<rparr>) net;
              net2 = (if is_reverse st then net1 else set_cell v (\<lambda>c. c\<lparr> nc_epoch := nw_next_generation net1 \<rparr>)
                (net1\<lparr> nw_next_generation := nw_next_generation net1 + 1 \<rparr>)) in
          (Permit \<lparr> sp_registry = snapshot net2 v, sp_reverse = is_reverse st, sp_result = None \<rparr>,
           notify_change st (snapshot net2 v) net2)))"
  using assms intent_transition [of incoming "view_state net v"]
  by (auto simp: lock_session_def next_generation_def Let_def split: option.splits)

lemma cell_changes [simp]:
  "nv_cell v < length (nw_cells net) \<Longrightarrow> nv_cell w = nv_cell v \<Longrightarrow> cell (set_cell v f net) w = f (cell net v)"
  "length (nw_cells (set_cell v f net)) = length (nw_cells net)"
  "nw_next_generation (set_cell v f net) = nw_next_generation net"
  "cell (net\<lparr> nw_next_generation := n \<rparr>) v = cell net v"
  by (simp_all add: set_cell_def cell_def)

lemmas view_fields = set_state_def notify_change_def view_state_def is_current_def generation_def snapshot_def

text \<open>A registry with one node, known by its identifier; and the same registry with the session locked.\<close>

definition sample_view :: node_view where
  "sample_view = \<lparr> nv_id = [1], nv_cell = 0, nv_expected_generation = None \<rparr>"

definition sample_network :: network_view where
  "sample_network = snd (guard 0 [1] [] network_view_new)"

definition sample_locked :: network_view where
  "sample_locked = snd (lock_session False sample_view sample_network)"

lemmas sample_defs = sample_view_def sample_network_def guard_def find_view_def network_view_new_def node_view_new_def
  next_generation_def insert_ids_def insert_addrs_def map_filter_simps

lemma sample_network_eq:
  "sample_network = \<lparr> nw_by_node_id = [[1] \<mapsto> sample_view], nw_by_addr = Map.empty,
     nw_cells = [\<lparr> nc_state = \<lparr> ns_node = [], ns_addresses = [], ns_supported_encryption = [], ns_session_key = None,
       ns_authenticated_identities = [], ns_state = Closed, ns_slot = FORWARD_SLOT_ID, ns_abort_handle = [] \<rparr>,
       nc_notified = [], nc_epoch = 1, nc_retired = False, nc_last_info_update = 0 \<rparr>],
     nw_next_generation = 2, nw_aborted = [], nw_unregistered = [] \<rparr>"
  by (simp add: sample_defs)

lemma sample_current: "view_ok sample_network sample_view" "is_current sample_network sample_view"
  "generations_left sample_network" "view_state sample_network sample_view = Closed" "nv_expected_generation sample_view = None"
  by (simp_all add: sample_network_eq view_ok_def sample_view_def is_current_def generation_def cell_def generations_left_def view_state_def)

lemma sample_locked_eq:
  "lock_session False sample_view sample_network =
     (Permit \<lparr> sp_registry = sample_view\<lparr> nv_expected_generation := Some 2 \<rparr>, sp_reverse = False, sp_result = None \<rparr>, sample_locked)
   \<and> nw_cells sample_locked ! 0 = (nw_cells sample_network ! 0)\<lparr> nc_epoch := 2, nc_notified := [Outgoing ConnectIntent],
       nc_state := (nc_state (nw_cells sample_network ! 0))\<lparr> ns_state := Outgoing ConnectIntent \<rparr> \<rparr>
   \<and> length (nw_cells sample_locked) = 1 \<and> nw_next_generation sample_locked = 3"
  unfolding sample_locked_def
  by (simp add: lock_session_intent sample_current intent_def Let_def)
    (simp add: sample_network_eq sample_view_def set_state_def set_cell_def cell_def notify_change_def snapshot_def generation_def)

text \<open>
  C12: A stale view is stale for ever and can do no harm: once the generation a snapshot is bound to is over, no
  execution makes it current again, and whatever is attempted through it - changing the state, publishing information,
  retiring the node, locking, closing, dropping its permit, aborting - leaves the registry and every node as they are. A task
  registered through it is aborted at once.
\<close>

theorem stale_views_inert:
  assumes "network_steps net net'" "view_ok net v" "nv_expected_generation v = Some g" "\<not> is_current net v"
  shows "\<not> is_current net' v \<and> state_of v net' = Closed
    \<and> view_transition st v net' = (Err (NodeNotFound (nv_id v)), net')
    \<and> view_transition_incoming i v net' = (Err (NodeNotFound (nv_id v)), net')
    \<and> view_transition_outgoing i v net' = (Err (NodeNotFound (nv_id v)), net')
    \<and> commit_refresh now v info published net' = (Err GenerationRetired, net')
    \<and> remove_generation v net' = (False, net') \<and> lock_session incoming v net' = (Wait v, net')
    \<and> begin_closing v net' = (Closed, net') \<and> async_drop msg v st net' = net'
    \<and> abort_initialization v net' = net' \<and> unregister_abortable v net' = net'
    \<and> register_abortable h v net' = net'\<lparr> nw_aborted := nw_aborted net' @ [h] \<rparr>"
proof -
  have "later net net'" using network_steps_evolves [OF assms(1)] by (simp add: evolves_def)
  then have "\<not> is_current net' v" using assms(2-4) by (rule stale_stays)
  then show ?thesis
    using assms(3)
    by (simp add: state_of_def view_transition_def view_transition_incoming_def view_transition_outgoing_def view_change_def
        commit_refresh_def remove_generation_def lock_session_def begin_closing_def async_drop_def abort_initialization_def
        unregister_abortable_def register_abortable_def snapshot_def generation_def Let_def)
qed

theorem stale_views_inert_witness:
  "\<not> is_current sample_locked (snapshot sample_network sample_view)
   \<and> state_of (snapshot sample_network sample_view) sample_locked = Closed
   \<and> begin_closing (snapshot sample_network sample_view) sample_locked = (Closed, sample_locked)"
proof -
  have "snapshot sample_network sample_view = sample_view\<lparr> nv_expected_generation := Some 1 \<rparr>"
    by (simp add: snapshot_def generation_def sample_network_eq sample_view_def cell_def)
  moreover have "view_ok sample_locked (sample_view\<lparr> nv_expected_generation := Some 1 \<rparr>)"
    "\<not> is_current sample_locked (sample_view\<lparr> nv_expected_generation := Some 1 \<rparr>)"
    using sample_locked_eq by (simp_all add: view_ok_def is_current_def generation_def cell_def sample_view_def)
  moreover have "network_steps sample_locked sample_locked" by (simp add: network_steps_def)
  ultimately show ?thesis using stale_views_inert [of sample_locked sample_locked "sample_view\<lparr> nv_expected_generation := Some 1 \<rparr>" 1] by simp
qed

text \<open>
  C22: The registry lists live entries only: in every state reached from an empty registry, an entry found by node
  identifier or by address refers to a node that has not been retired and follows its current generation, so it is never stale.
\<close>

theorem registry_lists_live_views:
  assumes "network_steps network_view_new net"
  shows "case find_view node_id addrs net of None \<Rightarrow> True | Some v \<Rightarrow> view_ok net v \<and> is_current net v"
proof -
  have "network_ok net" using network_steps_evolves [OF assms] network_new_ok by (simp add: evolves_def)
  then show ?thesis
    using find_view_ok [of net node_id addrs]
    by (auto simp: registered_ok_def view_ok_def is_current_def generation_def split: option.splits)
qed

theorem registry_lists_live_views_witness:
  "find_view [1] [] sample_network = Some sample_view \<and> view_ok sample_network sample_view \<and> is_current sample_network sample_view"
proof -
  have "generations_left network_view_new" by (simp add: generations_left_def network_view_new_def)
  then have "network_steps network_view_new sample_network"
    unfolding network_steps_def sample_network_def by (intro r_into_rtranclp network_step.guard)
  moreover have "find_view [1] [] sample_network = Some sample_view" by (simp add: find_view_def sample_network_eq)
  ultimately show ?thesis using registry_lists_live_views [of sample_network "[1]" "[]"] by simp
qed

text \<open>
  C11: The right to initialise a session is exclusive: the lock grants a permit only when no session is being
  initialised, established or closed, that is from a closed or failed state, or, as a second, reverse permit, while
  a reverse connection is awaited. An ordinary permit starts a new generation, which makes every snapshot taken
  before, hence every earlier permit of the node, stale; the new permit is current and the session is in its first state. In all other states
  nothing changes and the caller waits.
\<close>

theorem lock_exclusive:
  assumes "nv_expected_generation v = None" "view_ok net v" "generations_left net"
  shows "case lock_session incoming v net of
      (Permit p, net') \<Rightarrow>
        is_current net' (sp_registry p) \<and> nv_cell (sp_registry p) = nv_cell v \<and> is_current net v
      \<and> (if sp_reverse p
         then incoming \<and> view_state net v = ReverseConnection Awaiting
            \<and> view_state net' v = ReverseConnection (InProgress ConnectIntent) \<and> generation net' (sp_registry p) = generation net v
         else (view_state net v = Closed \<or> (\<exists>e. view_state net v = FailedEstablish e))
            \<and> view_state net' v = (if incoming then Incoming ConnectIntent else Outgoing ConnectIntent)
            \<and> (\<forall>w g. view_ok net w \<longrightarrow> nv_cell w = nv_cell v \<longrightarrow> nv_expected_generation w = Some g \<longrightarrow> \<not> is_current net' w))
    | (Wait w, net') \<Rightarrow> net' = net \<and> w = snapshot net v
      \<and> (is_current net v \<longrightarrow> view_state net v \<noteq> Closed \<and> (\<forall>e. view_state net v \<noteq> FailedEstablish e))"
proof (cases "is_current net v \<and> intent incoming (view_state net v) \<noteq> None")
  case False
  then have "lock_session incoming v net = (Wait (snapshot net v), net)"
    by (cases "is_current net v") (auto simp: lock_session_intent, simp add: lock_session_def Let_def)
  then show ?thesis using False by (auto simp: intent_def is_failed_iff)
next
  case True
  then obtain st where st: "intent incoming (view_state net v) = Some st" and cur: "is_current net v" by blast
  have lt: "nv_cell v < length (nw_cells net)" using assms(2) by (simp add: view_ok_def)
  have fresh: "g \<noteq> nw_next_generation net" if "view_ok net w" "nv_expected_generation w = Some g" for w g
    using that by (auto simp: view_ok_def)
  show ?thesis
  proof (cases "is_reverse st")
    case rev: True
    then have "incoming" "view_state net v = ReverseConnection Awaiting" "st = ReverseConnection (InProgress ConnectIntent)"
      using st by (auto simp: intent_def split: if_splits)
    then show ?thesis using lt cur st rev by (simp add: lock_session_intent [OF cur] view_fields Let_def split: option.splits)
  next
    case False
    then have "view_state net v = Closed \<or> is_failed (view_state net v)"
      "st = (if incoming then Incoming ConnectIntent else Outgoing ConnectIntent)"
      using st by (auto simp: intent_def split: if_splits)
    then show ?thesis
      using lt cur st False fresh assms(1) by (auto simp: lock_session_intent [OF cur] view_fields is_failed_iff Let_def)
  qed
qed

theorem lock_exclusive_witness:
  "fst (lock_session False sample_view sample_network) =
     Permit \<lparr> sp_registry = sample_view\<lparr> nv_expected_generation := Some 2 \<rparr>, sp_reverse = False, sp_result = None \<rparr>
   \<and> is_current sample_locked (sample_view\<lparr> nv_expected_generation := Some 2 \<rparr>)
   \<and> view_state sample_locked sample_view = Outgoing ConnectIntent"
  using lock_exclusive [OF sample_current(5,1,3), of False] sample_locked_eq by simp

section \<open>Giving up a permit\<close>











section \<open>The age of the information about a node\<close>

text \<open>What no update of an entry touches in the cells that exist.\<close>

definition same_age :: "network_view \<Rightarrow> network_view \<Rightarrow> bool" where
  "same_age net net' \<longleftrightarrow> (\<forall>i < length (nw_cells net). nc_last_info_update (nw_cells net' ! i) = nc_last_info_update (nw_cells net ! i)
     \<and> ns_state (nc_state (nw_cells net' ! i)) = ns_state (nc_state (nw_cells net ! i)))"

lemma same_age_update_info: "same_age net (snd (update_info v info net))"
proof (cases "nv_cell v < length (nw_cells net)")
  case True
  then show ?thesis
    by (auto simp: same_age_def update_info_def set_state_def set_cell_def cell_def apply_info_def nth_list_update split: list.splits)
next
  case False
  then show ?thesis
    by (auto simp: same_age_def update_info_def set_state_def set_cell_def cell_def list_update_beyond split: list.splits)
qed

lemma same_age_new:
  "node_view_new now i a e k au net = (v, net') \<Longrightarrow>
    same_age net net' \<and> length (nw_cells net) \<le> length (nw_cells net') \<and> nw_by_node_id net' = nw_by_node_id net"
  by (auto simp: same_age_def node_view_new_def next_generation_def nth_append)

lemma same_age_insert: "same_age net (snd (update_info v info (insert_addrs a v (insert_ids i v net'))))"
  if "same_age net net' \<and> length (nw_cells net) \<le> length (nw_cells net') \<and> nw_by_node_id net' = m"
  using that same_age_update_info [of "insert_addrs a v (insert_ids i v net')" v info]
  by (simp add: same_age_def insert_addrs_def insert_ids_def)

lemma by_node_id_changes [simp]:
  "nw_by_node_id (snd (update_info v info net)) = nw_by_node_id net"
  "nw_by_node_id (insert_addrs a v net) = nw_by_node_id net"
  by (simp_all add: update_info_def set_state_def set_cell_def insert_addrs_def split: list.splits)

lemma by_node_id_insert [simp]: "nw_by_node_id (insert_ids ids v net) k = (if k \<in> set ids then Some v else nw_by_node_id net k)"
proof -
  have "fold (\<lambda>i m. m(i \<mapsto> v)) ids m k = (if k \<in> set ids then Some v else m k)" for m :: "node_id \<rightharpoonup> node_view"
    by (induction ids arbitrary: m) auto
  then show ?thesis by (simp add: insert_ids_def)
qed

lemma update_entry_same_age:
  assumes "nw_by_node_id net node_id = Some v"
  shows "same_age net (snd (update_entry now info net))
    \<and> (\<exists>w. nw_by_node_id (snd (update_entry now info net)) node_id = Some w \<and> nv_cell w = nv_cell v)"
proof -
  define ids where "ids = map id_node_id (ni_identities info)"
  define entries where "entries = List.map_filter (\<lambda>node. find_view node [] net) ids"
  have refl: "same_age net net" by (simp add: same_age_def)
  have mem: "v \<in> set entries" if "node_id \<in> set ids"
    using that assms by (force simp: entries_def List.map_filter_def find_view_def)
  show ?thesis
  proof (cases entries)
    case Nil
    then have "node_id \<notin> set ids" using mem by auto
    then show ?thesis
      using Nil assms refl
      by (auto simp: update_entry_def Let_def entries_def ids_def rbind_eq_Ok_iff same_age_insert [OF same_age_new]
          dest: same_age_new split: result.splits prod.splits)
  next
    case (Cons e es)
    show ?thesis
    proof (cases "list_all (\<lambda>x. nv_cell x = nv_cell e) entries")
      case True
      then have "nv_cell e = nv_cell v" if "node_id \<in> set ids" using mem [OF that] by (auto simp: list_all_iff)
      then show ?thesis
        using Cons True same_age_insert [of net net "nw_by_node_id net"] refl assms
        by (auto simp: update_entry_def Let_def entries_def ids_def)
    next
      case False
      then show ?thesis using Cons refl assms by (auto simp: update_entry_def Let_def entries_def ids_def)
    qed
  qed
qed

text \<open>
  C40: Querying a node does not make its information young again: when it is older than the time to live and no
  session is established, the relay server is asked, and after its answer, whatever it is, a query
  at the same moment asks again, because only a refresh through a session renews the time of the last update.
\<close>

theorem queried_info_stays_expired:
  assumes "get_entry node_id net = Some v" "nv_cell v < length (nw_cells net)" "\<not> is_established (view_state net v)"
    "node_info_ttl < now - nc_last_info_update (cell net v)"
  shows "case query_node_info node_info_ttl now node_id found net of
    (asked, _, net') \<Rightarrow> asked \<and> fst (query_node_info node_info_ttl now node_id found' net')"
proof -
  have entry: "nw_by_node_id net node_id = Some v"
    using assms(1) by (auto simp: get_entry_def find_view_def List.map_filter_def split: option.splits)
  have asks: "fst (query_node_info node_info_ttl now node_id f n)"
    if "same_age net n" "nw_by_node_id n node_id = Some w" "nv_cell w = nv_cell v" for f n w
    using that assms by (auto simp: query_node_info_def get_entry_def find_view_def view_info_def same_age_def cell_def view_state_def Let_def
        split: validity.splits)
  have refl: "same_age net net" by (simp add: same_age_def)
  define net' where "net' = (case found of Ok info \<Rightarrow> snd (update_entry now info net) | _ \<Rightarrow> net)"
  have "same_age net net' \<and> (\<exists>w. nw_by_node_id net' node_id = Some w \<and> nv_cell w = nv_cell v)"
    using update_entry_same_age [OF entry] refl entry by (auto simp: net'_def split: result.splits)
  moreover have "snd (snd (query_node_info node_info_ttl now node_id found net)) = net'" if "fst (query_node_info node_info_ttl now node_id found net)"
    using that by (auto simp: query_node_info_def net'_def split: option.splits result.splits prod.splits)
  ultimately show ?thesis
    using asks asks [OF refl entry] by (auto simp: case_prod_unfold)
qed

theorem queried_info_stays_expired_witness:
  "fst (query_node_info 5 10 [1] (Ok (state_info (nc_state (cell sample_network sample_view)))) sample_network)"
proof -
  have "get_entry [1] sample_network = Some sample_view" by (simp add: get_entry_def find_view_def sample_network_eq)
  moreover have "nv_cell sample_view < length (nw_cells sample_network)" "nc_last_info_update (cell sample_network sample_view) = 0"
    by (simp_all add: sample_network_eq sample_view_def cell_def)
  ultimately show ?thesis
    using queried_info_stays_expired [of "[1]" sample_network sample_view 5 10 "Ok (state_info (nc_state (cell sample_network sample_view)))"]
      sample_current(4)
    by (simp add: case_prod_unfold)
qed

end
