(* ===== verification/Spec2Isabelle.thy ===== *)
theory Spec2Isabelle
  imports Stream_Codec Prefix_Codec Ports Udp_Stream Dispatch Server_Props Selector Persistence Network_Spec
begin

text \<open>
  A verification library of the relay: a server through which nodes that cannot reach each other directly find and
  address one another, the wire protocol between server and clients, and the parts of the client and of
  its virtual network stack that decide something. All paths below are under \<^verbatim>\<open>src/\<close>.

  \<^bold>\<open>The program.\<close> A client opens a session with the server in two rounds of a \<^verbatim>\<open>Session\<close> request: the server answers
  the first with a challenge derived from the client's address, and the second, with the solution signed by every
  identity of the client, creates the session. The client registers its endpoint, which the server checks with
  pings from a second socket, and can then ask for other nodes, for its neighbours, for a reverse connection, and
  send forward frames addressed by slot numbers, which the server relays. Two clients run the same handshake between
  each other. Packets travel as protobuf messages or forward frames, in datagrams or in a byte stream.

  \<^bold>\<open>Conventions.\<close> \<open>Relay_Prelude\<close> has the result of a fallible function (\<open>Ok\<close>, \<open>Err\<close> and \<open>Panic\<close>, for \<^verbatim>\<open>unwrap\<close>,
  slices out of range and checked arithmetic), machine integers at their width, and big-endian
  encodings. State is passed explicitly; shared objects live in a heap and references are indices; an operation that
  holds a lock while it works is one step. What other libraries do is a record or function argument: the digest, signature
  and key functions (\<open>ext\<close>), the protobuf library (\<open>prost\<close>), the text of IPv6 addresses, the hash of the shards, the
  serialisation of saved sessions, random numbers and clock readings. Theorems that need their documented behaviour
  assume it by name, with a witness on concrete functions.

  \<^bold>\<open>Wire format.\<close>
  \<^item> \<open>Payload\<close>, \<open>Proto\<close> (\<^verbatim>\<open>crates/util/src/payload.rs\<close>, \<^verbatim>\<open>crates/proto/src/proto.rs\<close>, \<^verbatim>\<open>ya_relay.proto\<close>): the byte
    container with the laws of a buffer, all messages, and the forward frame with its round trip.
  \<^item> \<open>Codec\<close>, \<open>Stream_Codec\<close>, \<open>Prefix_Codec\<close> (\<^verbatim>\<open>crates/proto/src/codec.rs\<close>, \<^verbatim>\<open>codec/\<close>): the datagram codec, the state machine
    that reads frames from a stream in chunks of any size, and length-prefixed messages. Whatever
    was encoded is decoded again, in order and however the bytes arrive; the conditions under which the stream
    decoder panics or gets stuck are exact.

  \<^bold>\<open>Core.\<close>
  \<^item> \<open>Identity\<close>, \<open>Challenge\<close>, \<open>Core_Session\<close>, \<open>Net_Addr\<close> (\<^verbatim>\<open>crates/core/src/identity.rs\<close>, \<^verbatim>\<open>challenge.rs\<close>,
    \<^verbatim>\<open>server_session.rs\<close>): identities, the proof of work, node information with its
    proofs, addresses. An accepted response proves the signatures of all identities, an honest response is
    accepted, and the search for a solution ends at the first one.
  \<^item> \<open>Udp_Stream\<close>, \<open>Dispatch\<close> (\<^verbatim>\<open>udp_stream.rs\<close>, \<^verbatim>\<open>dispatch.rs\<close>): payload sizes, the packet stream over a socket, and the
    matching of responses to requests over any interleaving of polls, timeouts and arrivals.

  \<^bold>\<open>Virtual stack.\<close> \<open>Net_Packet\<close>, \<open>Ports\<close> (\<^verbatim>\<open>crates/stack/src/packet.rs\<close>, \<^verbatim>\<open>protocol.rs\<close>, \<^verbatim>\<open>port.rs\<close>): views into packets,
  with what \<^verbatim>\<open>peek\<close> guarantees to the readers that follow it, and the allocation of free ports.

  \<^bold>\<open>Server.\<close>
  \<^item> \<open>Session_Store\<close>, \<open>Sessions\<close>, \<open>Neighbours\<close>, \<open>Selector\<close>, \<open>Slots\<close>, \<open>Persistence\<close> (\<^verbatim>\<open>server/src/state/\<close>): the sharded
    table, which refines one map; sessions and the nodes they are linked to, over all sequences of operations; nearest
    neighbours; selection by the text of an identifier; the slot table; saving and loading.
  \<^item> \<open>Server_State\<close>, \<open>Handlers\<close> (\<^verbatim>\<open>server/src/server.rs\<close>, \<^verbatim>\<open>server/src/server/\<close>): one state for all tables and caches, every
    request handler with all its branches, the worker that takes a datagram to the replies it
    causes, the address checker and the operator's commands.
  \<^item> \<open>Server_Spec\<close>, \<open>Server_Props\<close>: the steps of the server in any order and their invariant. Each datagram is handled with the
    salt of one of the workers, worker-local caches change freely, and a run may end with the state being saved and
    another one start from the saved files; the salts and difficulties of all session handlers are an argument of the reachability relation. Then the properties that
    span the components: every session belongs to identities that answered its challenge from its address, an honest
    client gets a session, frames are relayed unchanged and attributed to the sender, strangers
    are refused, address checks end, and no datagram makes a worker panic, debug assertions included. A start from files
    that the server did not write itself is covered for the table of sessions (\<open>Sessions\<close>) but not for these properties.

  \<^bold>\<open>Client.\<close>
  \<^item> \<open>Session_State\<close> (\<^verbatim>\<open>client/src/session/session_state.rs\<close>): the states of a session. No session is established
    without a complete handshake, and initialisation ends.
  \<^item> \<open>Network_View\<close>, \<open>Network_Spec\<close> (\<^verbatim>\<open>client/src/session/network_view.rs\<close>, \<^verbatim>\<open>query_node_info\<close> of \<^verbatim>\<open>client/src/session.rs\<close>): the
    registry of nodes and the lock on a session. Over all interleavings of the operations the right to initialise a
    session is exclusive, tasks of an earlier generation change nothing, and a permit given up ends the
    initialisation.

  \<^bold>\<open>Interfaces.\<close> The locales \<open>byte_buffer\<close>, \<open>framing\<close>, \<open>peek_packet\<close>, \<open>resource_pool\<close> and \<open>keyed_store\<close> state what a client of
  a component relies on; each is interpreted on the definitions of the component.

  \<^bold>\<open>Bounds.\<close> The search for a solution runs over all counters of 64 bits and fails when none of them is a
  solution. The loops of the stream decoder and of the port search end by their own measure. The loader
  of sessions has fuel for one record per byte. Slot numbers stay unique below \<open>2 ^ 32\<close> slots and generations below
  \<open>2 ^ 64\<close>; the theorems say so. Clock readings of a step are bounded by the range of the time stamps.

  \<^bold>\<open>Not modelled.\<close>
  \<^item> The asynchronous tasks of the client (\<^verbatim>\<open>client/src/session.rs\<close> apart from the query, \<^verbatim>\<open>session_initializer.rs\<close>,
    \<^verbatim>\<open>direct_session.rs\<close>, \<^verbatim>\<open>transport.rs\<close>): timers, futures and sockets around the modelled decisions. Their interleavings
    are covered as far as they go through the network view.
  \<^item> The TCP stack (\<^verbatim>\<open>crates/stack/src/network.rs\<close>, \<^verbatim>\<open>stack.rs\<close>, \<^verbatim>\<open>socket.rs\<close>): adapters of the library \<^verbatim>\<open>smoltcp\<close>.
  \<^item> Sockets, files and processes (\<^verbatim>\<open>server/src/udp_server.rs\<close>, the executables and examples): sending succeeds,
    opening a file succeeds, and a worker handles a datagram without steps of other workers in between.
  \<^item> Metrics, logging, error texts, capacity of buffers and wake-ups.
\<close>

end
